(* ===== verification/Krb5_Prelude.thy ===== *)
theory Krb5_Prelude
  imports Main "HOL-Library.Word" "HOL-Library.Sublist"
begin

text \<open>
  Shared ground of the development: the result type of every fallible operation, the
  integer types of \<open>include/krb5.hin\<close>, C strings, flag words, and the generic lemmas the
  component theories use.

  Conventions. A \<open>krb5_error_code\<close> is the integer the C code returns; \<open>Inl\<close> carries a
  non-zero code, \<open>Inr\<close> the value stored through the output parameter on a zero return.
  A \<open>krb5_data\<close> with its \<open>length\<close> and \<open>data\<close> fields is the list of the bytes it
  describes.  Storage allocation always succeeds in the model (the \<open>ENOMEM\<close> returns of
  the sources are not modelled).
\<close>

unbundle bit_operations_syntax

named_theorems krb5_flags \<open>flag constants and flag tests\<close>
named_theorems krb5_errs \<open>error code constants\<close>

section \<open>Results\<close>

type_synonym krb5_error_code = int
type_synonym 'a krb5_result = "krb5_error_code + 'a"

definition bindE :: "'e + 'a \<Rightarrow> ('a \<Rightarrow> 'e + 'b) \<Rightarrow> 'e + 'b" where
  "bindE m f = (case m of Inl e \<Rightarrow> Inl e | Inr x \<Rightarrow> f x)"

lemma bindE_simps [simp]:
  "bindE (Inl e) f = Inl e"
  "bindE (Inr x) f = f x"
  by (simp_all add: bindE_def)

lemma bindE_eq_Inr: "bindE m f = Inr y \<longleftrightarrow> (\<exists>x. m = Inr x \<and> f x = Inr y)"
  by (cases m) simp_all

lemma bindE_eq_Inl: "bindE m f = Inl e \<longleftrightarrow> m = Inl e \<or> (\<exists>x. m = Inr x \<and> f x = Inl e)"
  by (cases m) simp_all

section \<open>Machine integers\<close>

text \<open>
  \<open>krb5_int32\<close> arithmetic: a sum or difference computed in 32-bit two's complement.
\<close>

definition i32 :: "int \<Rightarrow> int" where
  "i32 x = (x + 2147483648) mod 4294967296 - 2147483648"

definition KRB5_INT32_MAX :: int where
  "KRB5_INT32_MAX = 2147483647"

definition is_i32 :: "int \<Rightarrow> bool" where
  "is_i32 x \<longleftrightarrow> -2147483648 \<le> x \<and> x \<le> 2147483647"

lemma i32_range: "is_i32 (i32 x)"
  using pos_mod_bound [of 4294967296 "x + 2147483648"] pos_mod_sign [of 4294967296 "x + 2147483648"]
  by (simp add: is_i32_def i32_def)

lemma i32_id: "is_i32 x \<Longrightarrow> i32 x = x"
  by (simp add: is_i32_def i32_def)

lemma i32_id_iff: "i32 x = x \<longleftrightarrow> is_i32 x"
  using i32_id i32_range by metis

definition i16 :: "int \<Rightarrow> int" where
  "i16 x = (x + 32768) mod 65536 - 32768"

definition is_i16 :: "int \<Rightarrow> bool" where
  "is_i16 x \<longleftrightarrow> -32768 \<le> x \<and> x \<le> 32767"

lemma i16_id: "is_i16 x \<Longrightarrow> i16 x = x"
  by (simp add: is_i16_def i16_def)

section \<open>Outcomes of code that trusts its input\<close>

text \<open>
  A routine that walks over a buffer can return a value or an error code, stop the program
  with \<open>abort\<close>, or access memory outside its buffers, after which nothing is known.
\<close>

datatype 'a c_outcome = Done 'a | Error krb5_error_code | Aborted | Out_of_bounds

fun bindO :: "'a c_outcome \<Rightarrow> ('a \<Rightarrow> 'b c_outcome) \<Rightarrow> 'b c_outcome" where
  "bindO (Done x) f = f x"
| "bindO (Error e) f = Error e"
| "bindO Aborted f = Aborted"
| "bindO Out_of_bounds f = Out_of_bounds"

lemma bindO_cong [fundef_cong]:
  "m = m' \<Longrightarrow> (\<And>x. m' = Done x \<Longrightarrow> f x = g x) \<Longrightarrow> bindO m f = bindO m' g"
  by (cases m') simp_all

lemma bindO_eq_Done: "bindO m f = Done y \<longleftrightarrow> (\<exists>x. m = Done x \<and> f x = Done y)"
  by (cases m) simp_all

lemma bindO_eq_Aborted: "bindO m f = Aborted \<longleftrightarrow> m = Aborted \<or> (\<exists>x. m = Done x \<and> f x = Aborted)"
  by (cases m) simp_all

lemma bindO_eq_Out_of_bounds: "bindO m f = Out_of_bounds \<longleftrightarrow> m = Out_of_bounds \<or> (\<exists>x. m = Done x \<and> f x = Out_of_bounds)"
  by (cases m) simp_all

section \<open>C strings\<close>

text \<open>The characters of a C string up to its terminating NUL.\<close>

definition NUL :: char where
  "NUL = CHR 0x00"

definition c_str :: "string \<Rightarrow> string" where
  "c_str s = takeWhile (\<lambda>c. c \<noteq> NUL) s"

lemma c_str_id: "NUL \<notin> set s \<Longrightarrow> c_str s = s"
  by (auto simp: c_str_def takeWhile_eq_all_conv)

lemma c_str_terminated: "NUL \<notin> set s \<Longrightarrow> c_str (s @ NUL # t) = s"
proof -
  assume "NUL \<notin> set s"
  then have "\<forall>c \<in> set s. c \<noteq> NUL" by auto
  then show ?thesis by (simp add: c_str_def)
qed

lemma NUL_notin_c_str: "NUL \<notin> set (c_str s)"
  by (auto simp: c_str_def dest: set_takeWhileD)

text \<open>The length of a C string: \<open>strlen\<close>.\<close>

definition strlen :: "string \<Rightarrow> nat" where
  "strlen s = length (c_str s)"

section \<open>Flag words\<close>

text \<open>The macros \<open>isflagset\<close>, \<open>setflag\<close> and \<open>clear\<close> of \<open>kdc/kdc_util.h\<close>.\<close>

type_synonym flags = "32 word"

definition isflagset :: "flags \<Rightarrow> flags \<Rightarrow> bool" where
  "isflagset flagfield flag \<longleftrightarrow> flagfield AND flag \<noteq> 0"

definition setflag :: "flags \<Rightarrow> flags \<Rightarrow> flags" where
  "setflag flagfield flag = flagfield OR flag"

definition clearflag :: "flags \<Rightarrow> flags \<Rightarrow> flags" where
  "clearflag flagfield flag = flagfield AND NOT flag"

text \<open>
  All flag constants are single bits; a test of one bit commutes with updates of the others.
\<close>

lemma isflagset_0 [simp]: "\<not> isflagset 0 f"
  by (simp add: isflagset_def)

lemma isflagset_setflag: "isflagset (setflag w f) g \<longleftrightarrow> isflagset w g \<or> isflagset f g"
  by (simp add: isflagset_def setflag_def bit.conj_disj_distrib2 or_eq_0_iff)

lemma isflagset_commute: "isflagset f g \<longleftrightarrow> isflagset g f"
  by (simp add: isflagset_def and.commute [of f g])

lemma isflagset_setflag_same [simp]: "f \<noteq> 0 \<Longrightarrow> isflagset (setflag w f) f"
  using isflagset_setflag [of w f f] by (simp add: isflagset_def)

lemma isflagset_clearflag_same [simp]: "\<not> isflagset (clearflag w f) f"
  by (simp add: isflagset_def clearflag_def and.assoc)

lemma isflagset_clearflag_other:
  assumes "\<not> isflagset f g"
  shows "isflagset (clearflag w f) g \<longleftrightarrow> isflagset w g"
proof -
  have "f AND g = 0"
    using assms by (simp add: isflagset_def)
  then have "(f OR NOT f) AND g = NOT f AND g"
    by (simp only: bit.conj_disj_distrib2 or.left_neutral)
  then have "NOT f AND g = g" by simp
  then show ?thesis
    by (simp add: isflagset_def clearflag_def and.assoc)
qed

end
