(* ===== verification/Krb5_Types.thy ===== *)
theory Krb5_Types
  imports Krb5_Prelude
begin

text \<open>
  The protocol structures of \<open>include/krb5.hin\<close> and the database entry of
  \<open>include/krb5/kdb.h\<close> as records, with the option, ticket flag, attribute and error
  constants.  The \<open>magic\<close> fields are left out.  A pointer that may be null is an
  \<open>option\<close>; a null-terminated pointer array is a list.
\<close>

section \<open>Structures\<close>

type_synonym octet = "8 word"
type_synonym krb5_timestamp = int
type_synonym krb5_deltat = int
type_synonym krb5_enctype = int

record krb5_principal =
  p_realm :: string
  p_data :: "string list"
  p_type :: int

record krb5_address =
  addrtype :: int
  addr_contents :: "octet list"

record krb5_keyblock =
  kb_enctype :: krb5_enctype
  kb_contents :: "octet list"

record krb5_checksum =
  checksum_type :: int
  cksum_contents :: "octet list"

record krb5_enc_data =
  ed_enctype :: krb5_enctype
  ed_kvno :: int
  ed_ciphertext :: "octet list"

record krb5_ticket_times =
  authtime :: krb5_timestamp
  starttime :: krb5_timestamp
  endtime :: krb5_timestamp
  renew_till :: krb5_timestamp

record krb5_authdata =
  ad_type :: int
  ad_contents :: "octet list"

record krb5_transited =
  tr_type :: int
  tr_contents :: string

record krb5_enc_tkt_part =
  et_flags :: flags
  et_session :: krb5_keyblock
  et_client :: krb5_principal
  et_transited :: krb5_transited
  et_times :: krb5_ticket_times
  et_caddrs :: "krb5_address list option"
  et_authdata :: "krb5_authdata list option"

record krb5_ticket =
  tk_server :: krb5_principal
  tk_enc_part :: krb5_enc_data
  tk_enc_part2 :: "krb5_enc_tkt_part option"

record krb5_pa_data =
  pa_type :: int
  pa_contents :: "octet list"

record krb5_kdc_req =
  rq_padata :: "krb5_pa_data list option"
  rq_kdc_options :: flags
  rq_client :: "krb5_principal option"
  rq_server :: "krb5_principal option"
  rq_from :: krb5_timestamp
  rq_till :: krb5_timestamp
  rq_rtime :: krb5_timestamp
  rq_nonce :: int
  rq_ktype :: "krb5_enctype list"
  rq_addresses :: "krb5_address list option"
  rq_authdata :: "krb5_enc_data option"
  rq_second_ticket :: "krb5_ticket list"

record krb5_tl_data =
  tl_data_type :: int
  tl_data_contents :: "octet list"

text \<open>
  The arrays of a key data entry have two elements: the key with its encryption type, and the
  salt with its salt type.  A length field is the length of the contents.
\<close>

record krb5_key_data =
  key_data_ver :: int
  key_data_kvno :: int
  key_data_type :: "int list"
  key_data_contents :: "octet list list"

record krb5_db_entry =
  db_len :: int
  db_attributes :: flags
  db_max_life :: krb5_deltat
  db_max_renewable_life :: krb5_deltat
  db_expiration :: krb5_timestamp
  db_pw_expiration :: krb5_timestamp
  db_last_success :: krb5_timestamp
  db_last_failed :: krb5_timestamp
  db_fail_auth_count :: int
  db_n_tl_data :: int
  db_e_data :: "octet list"
  db_princ :: krb5_principal
  db_tl_data :: "krb5_tl_data list"
  db_key_data :: "krb5_key_data list"

section \<open>Constants\<close>

subsection \<open>Principal names\<close>

definition KRB5_TGS_NAME :: string where
  "KRB5_TGS_NAME = ''krbtgt''"

definition KRB5_TGS_NAME_SIZE :: nat where
  "KRB5_TGS_NAME_SIZE = 6"

definition KRB5_NT_UNKNOWN :: int where "KRB5_NT_UNKNOWN = 0"
definition KRB5_NT_PRINCIPAL :: int where "KRB5_NT_PRINCIPAL = 1"

definition KRB5_REALM_BRANCH_CHAR :: char where
  "KRB5_REALM_BRANCH_CHAR = CHR ''.''"

definition KRB5_DOMAIN_X500_COMPRESS :: int where
  "KRB5_DOMAIN_X500_COMPRESS = 1"

subsection \<open>KDC options, ticket flags, database attributes\<close>

definition KDC_OPT_FORWARDABLE :: flags where [krb5_flags]: "KDC_OPT_FORWARDABLE = 0x40000000"
definition KDC_OPT_FORWARDED :: flags where [krb5_flags]: "KDC_OPT_FORWARDED = 0x20000000"
definition KDC_OPT_PROXIABLE :: flags where [krb5_flags]: "KDC_OPT_PROXIABLE = 0x10000000"
definition KDC_OPT_PROXY :: flags where [krb5_flags]: "KDC_OPT_PROXY = 0x08000000"
definition KDC_OPT_ALLOW_POSTDATE :: flags where [krb5_flags]: "KDC_OPT_ALLOW_POSTDATE = 0x04000000"
definition KDC_OPT_POSTDATED :: flags where [krb5_flags]: "KDC_OPT_POSTDATED = 0x02000000"
definition KDC_OPT_RENEWABLE :: flags where [krb5_flags]: "KDC_OPT_RENEWABLE = 0x00800000"
definition KDC_OPT_RENEWABLE_OK :: flags where [krb5_flags]: "KDC_OPT_RENEWABLE_OK = 0x00000010"
definition KDC_OPT_ENC_TKT_IN_SKEY :: flags where [krb5_flags]: "KDC_OPT_ENC_TKT_IN_SKEY = 0x00000008"
definition KDC_OPT_RENEW :: flags where [krb5_flags]: "KDC_OPT_RENEW = 0x00000002"
definition KDC_OPT_VALIDATE :: flags where [krb5_flags]: "KDC_OPT_VALIDATE = 0x00000001"

definition TKT_FLG_FORWARDABLE :: flags where [krb5_flags]: "TKT_FLG_FORWARDABLE = 0x40000000"
definition TKT_FLG_FORWARDED :: flags where [krb5_flags]: "TKT_FLG_FORWARDED = 0x20000000"
definition TKT_FLG_PROXIABLE :: flags where [krb5_flags]: "TKT_FLG_PROXIABLE = 0x10000000"
definition TKT_FLG_PROXY :: flags where [krb5_flags]: "TKT_FLG_PROXY = 0x08000000"
definition TKT_FLG_MAY_POSTDATE :: flags where [krb5_flags]: "TKT_FLG_MAY_POSTDATE = 0x04000000"
definition TKT_FLG_POSTDATED :: flags where [krb5_flags]: "TKT_FLG_POSTDATED = 0x02000000"
definition TKT_FLG_INVALID :: flags where [krb5_flags]: "TKT_FLG_INVALID = 0x01000000"
definition TKT_FLG_RENEWABLE :: flags where [krb5_flags]: "TKT_FLG_RENEWABLE = 0x00800000"
definition TKT_FLG_INITIAL :: flags where [krb5_flags]: "TKT_FLG_INITIAL = 0x00400000"
definition TKT_FLG_PRE_AUTH :: flags where [krb5_flags]: "TKT_FLG_PRE_AUTH = 0x00200000"
definition TKT_FLG_HW_AUTH :: flags where [krb5_flags]: "TKT_FLG_HW_AUTH = 0x00100000"

definition AP_OPTS_USE_SESSION_KEY :: flags where [krb5_flags]: "AP_OPTS_USE_SESSION_KEY = 0x40000000"
definition AP_OPTS_MUTUAL_REQUIRED :: flags where [krb5_flags]: "AP_OPTS_MUTUAL_REQUIRED = 0x20000000"

definition KRB5_KDB_DISALLOW_POSTDATED :: flags where [krb5_flags]: "KRB5_KDB_DISALLOW_POSTDATED = 0x00000001"
definition KRB5_KDB_DISALLOW_FORWARDABLE :: flags where [krb5_flags]: "KRB5_KDB_DISALLOW_FORWARDABLE = 0x00000002"
definition KRB5_KDB_DISALLOW_TGT_BASED :: flags where [krb5_flags]: "KRB5_KDB_DISALLOW_TGT_BASED = 0x00000004"
definition KRB5_KDB_DISALLOW_RENEWABLE :: flags where [krb5_flags]: "KRB5_KDB_DISALLOW_RENEWABLE = 0x00000008"
definition KRB5_KDB_DISALLOW_PROXIABLE :: flags where [krb5_flags]: "KRB5_KDB_DISALLOW_PROXIABLE = 0x00000010"
definition KRB5_KDB_DISALLOW_DUP_SKEY :: flags where [krb5_flags]: "KRB5_KDB_DISALLOW_DUP_SKEY = 0x00000020"
definition KRB5_KDB_DISALLOW_ALL_TIX :: flags where [krb5_flags]: "KRB5_KDB_DISALLOW_ALL_TIX = 0x00000040"
definition KRB5_KDB_REQUIRES_PRE_AUTH :: flags where [krb5_flags]: "KRB5_KDB_REQUIRES_PRE_AUTH = 0x00000080"
definition KRB5_KDB_REQUIRES_HW_AUTH :: flags where [krb5_flags]: "KRB5_KDB_REQUIRES_HW_AUTH = 0x00000100"
definition KRB5_KDB_REQUIRES_PWCHANGE :: flags where [krb5_flags]: "KRB5_KDB_REQUIRES_PWCHANGE = 0x00000200"
definition KRB5_KDB_DISALLOW_SVR :: flags where [krb5_flags]: "KRB5_KDB_DISALLOW_SVR = 0x00001000"
definition KRB5_KDB_PWCHANGE_SERVICE :: flags where [krb5_flags]: "KRB5_KDB_PWCHANGE_SERVICE = 0x00002000"
definition KRB5_KDB_SUPPORT_DESMD5 :: flags where [krb5_flags]: "KRB5_KDB_SUPPORT_DESMD5 = 0x00004000"

definition ENCTYPE_NULL :: krb5_enctype where "ENCTYPE_NULL = 0"
definition ENCTYPE_DES_CBC_CRC :: krb5_enctype where "ENCTYPE_DES_CBC_CRC = 1"
definition ENCTYPE_DES_CBC_MD4 :: krb5_enctype where "ENCTYPE_DES_CBC_MD4 = 2"
definition ENCTYPE_DES_CBC_MD5 :: krb5_enctype where "ENCTYPE_DES_CBC_MD5 = 3"
definition ENCTYPE_DES_CBC_RAW :: krb5_enctype where "ENCTYPE_DES_CBC_RAW = 4"
definition ENCTYPE_DES3_CBC_RAW :: krb5_enctype where "ENCTYPE_DES3_CBC_RAW = 6"
definition ENCTYPE_DES_HMAC_SHA1 :: krb5_enctype where "ENCTYPE_DES_HMAC_SHA1 = 8"
definition ENCTYPE_DES3_CBC_SHA1 :: krb5_enctype where "ENCTYPE_DES3_CBC_SHA1 = 16"

definition KRB5_KDB_SALTTYPE_NORMAL :: int where "KRB5_KDB_SALTTYPE_NORMAL = 0"
definition KRB5_KDB_SALTTYPE_V4 :: int where "KRB5_KDB_SALTTYPE_V4 = 1"
definition KRB5_KDB_SALTTYPE_NOREALM :: int where "KRB5_KDB_SALTTYPE_NOREALM = 2"
definition KRB5_KDB_SALTTYPE_ONLYREALM :: int where "KRB5_KDB_SALTTYPE_ONLYREALM = 3"
definition KRB5_KDB_SALTTYPE_SPECIAL :: int where "KRB5_KDB_SALTTYPE_SPECIAL = 4"
definition KRB5_KDB_SALTTYPE_AFS3 :: int where "KRB5_KDB_SALTTYPE_AFS3 = 5"

subsection \<open>Protocol error numbers\<close>

definition KDC_ERR_NAME_EXP :: int where [krb5_errs]: "KDC_ERR_NAME_EXP = 1"
definition KDC_ERR_SERVICE_EXP :: int where [krb5_errs]: "KDC_ERR_SERVICE_EXP = 2"
definition KDC_ERR_C_PRINCIPAL_UNKNOWN :: int where [krb5_errs]: "KDC_ERR_C_PRINCIPAL_UNKNOWN = 6"
definition KDC_ERR_S_PRINCIPAL_UNKNOWN :: int where [krb5_errs]: "KDC_ERR_S_PRINCIPAL_UNKNOWN = 7"
definition KDC_ERR_CANNOT_POSTDATE :: int where [krb5_errs]: "KDC_ERR_CANNOT_POSTDATE = 10"
definition KDC_ERR_POLICY :: int where [krb5_errs]: "KDC_ERR_POLICY = 12"
definition KDC_ERR_BADOPTION :: int where [krb5_errs]: "KDC_ERR_BADOPTION = 13"
definition KDC_ERR_KEY_EXP :: int where [krb5_errs]: "KDC_ERR_KEY_EXP = 23"
definition KDC_ERR_SERVER_NOMATCH :: int where [krb5_errs]: "KDC_ERR_SERVER_NOMATCH = 26"
definition KRB_AP_ERR_TKT_EXPIRED :: int where [krb5_errs]: "KRB_AP_ERR_TKT_EXPIRED = 32"
definition KRB_AP_ERR_TKT_NYV :: int where [krb5_errs]: "KRB_AP_ERR_TKT_NYV = 33"
definition KRB_AP_ERR_REPEAT :: int where [krb5_errs]: "KRB_AP_ERR_REPEAT = 34"
definition KRB_AP_ERR_NOT_US :: int where [krb5_errs]: "KRB_AP_ERR_NOT_US = 35"
definition KRB_ERR_GENERIC :: int where [krb5_errs]: "KRB_ERR_GENERIC = 60"

text \<open>
  The library's error codes are offsets into the table \<open>krb5_err.et\<close>, in the order of its
  entries, from the table's base.
\<close>

definition ERROR_TABLE_BASE_krb5 :: int where [krb5_errs]: "ERROR_TABLE_BASE_krb5 = -1765328384"

definition krb5_err :: "int \<Rightarrow> krb5_error_code" where [krb5_errs]:
  "krb5_err n = ERROR_TABLE_BASE_krb5 + n"

definition KRB5KDC_ERR_C_PRINCIPAL_UNKNOWN where [krb5_errs]: "KRB5KDC_ERR_C_PRINCIPAL_UNKNOWN = krb5_err 6"
definition KRB5KDC_ERR_S_PRINCIPAL_UNKNOWN where [krb5_errs]: "KRB5KDC_ERR_S_PRINCIPAL_UNKNOWN = krb5_err 7"
definition KRB5KDC_ERR_PRINCIPAL_NOT_UNIQUE where [krb5_errs]: "KRB5KDC_ERR_PRINCIPAL_NOT_UNIQUE = krb5_err 8"
definition KRB5KDC_ERR_POLICY where [krb5_errs]: "KRB5KDC_ERR_POLICY = krb5_err 12"
definition KRB5KDC_ERR_ETYPE_NOSUPP where [krb5_errs]: "KRB5KDC_ERR_ETYPE_NOSUPP = krb5_err 14"
definition KRB5KDC_ERR_SUMTYPE_NOSUPP where [krb5_errs]: "KRB5KDC_ERR_SUMTYPE_NOSUPP = krb5_err 15"
definition KRB5KDC_ERR_PADATA_TYPE_NOSUPP where [krb5_errs]: "KRB5KDC_ERR_PADATA_TYPE_NOSUPP = krb5_err 16"
definition KRB5KDC_ERR_TRTYPE_NOSUPP where [krb5_errs]: "KRB5KDC_ERR_TRTYPE_NOSUPP = krb5_err 17"
definition KRB5KDC_ERR_PREAUTH_FAILED where [krb5_errs]: "KRB5KDC_ERR_PREAUTH_FAILED = krb5_err 24"
definition KRB5KDC_ERR_PREAUTH_REQUIRED where [krb5_errs]: "KRB5KDC_ERR_PREAUTH_REQUIRED = krb5_err 25"
definition KRB5KDC_ERR_SERVER_NOMATCH where [krb5_errs]: "KRB5KDC_ERR_SERVER_NOMATCH = krb5_err 26"
definition KRB5KRB_AP_ERR_BAD_INTEGRITY where [krb5_errs]: "KRB5KRB_AP_ERR_BAD_INTEGRITY = krb5_err 31"
definition KRB5KRB_AP_ERR_TKT_EXPIRED where [krb5_errs]: "KRB5KRB_AP_ERR_TKT_EXPIRED = krb5_err 32"
definition KRB5KRB_AP_ERR_TKT_NYV where [krb5_errs]: "KRB5KRB_AP_ERR_TKT_NYV = krb5_err 33"
definition KRB5KRB_AP_ERR_SKEW where [krb5_errs]: "KRB5KRB_AP_ERR_SKEW = krb5_err 37"
definition KRB5KRB_AP_ERR_ILL_CR_TKT where [krb5_errs]: "KRB5KRB_AP_ERR_ILL_CR_TKT = krb5_err 43"
definition KRB5KRB_AP_ERR_INAPP_CKSUM where [krb5_errs]: "KRB5KRB_AP_ERR_INAPP_CKSUM = krb5_err 50"
definition KRB5_PARSE_MALFORMED where [krb5_errs]: "KRB5_PARSE_MALFORMED = krb5_err 134"
definition KRB5_NO_TKT_SUPPLIED where [krb5_errs]: "KRB5_NO_TKT_SUPPLIED = krb5_err 143"
definition KRB5KRB_AP_ERR_TKT_INVALID where [krb5_errs]: "KRB5KRB_AP_ERR_TKT_INVALID = krb5_err 145"
definition KRB5_RC_REPLAY where [krb5_errs]: "KRB5_RC_REPLAY = krb5_err 163"
definition KRB5_RC_IO_IO where [krb5_errs]: "KRB5_RC_IO_IO = krb5_err 170"
definition KRB5_RC_IO_UNKNOWN where [krb5_errs]: "KRB5_RC_IO_UNKNOWN = krb5_err 171"
definition KRB5_NO_TKT_IN_RLM where [krb5_errs]: "KRB5_NO_TKT_IN_RLM = krb5_err 185"

definition KRB5_BAD_ENCTYPE where [krb5_errs]: "KRB5_BAD_ENCTYPE = krb5_err 188"

definition KRB5_KDB_TRUNCATED_RECORD :: krb5_error_code where [krb5_errs]: "KRB5_KDB_TRUNCATED_RECORD = -1780008439"
definition KRB5_KDB_NOENTRY :: krb5_error_code where [krb5_errs]: "KRB5_KDB_NOENTRY = -1780008443"

definition ENOENT :: krb5_error_code where [krb5_errs]: "ENOENT = 2"
definition ENOMEM :: krb5_error_code where [krb5_errs]: "ENOMEM = 12"

section \<open>Text as bytes\<close>

definition octets :: "string \<Rightarrow> octet list" where
  "octets s = map (\<lambda>c. word_of_nat (of_char c)) s"

definition octets_text :: "octet list \<Rightarrow> string" where
  "octets_text bs = map (\<lambda>b. char_of (unat b)) bs"

end
