(* ===== verification/Krb5_Principal.thy ===== *)
theory Krb5_Principal
  imports Krb5_Types
begin

text \<open>
  Principal names: parsing (\<open>lib/krb5/krb/parse.c\<close>), printing (\<open>unparse.c\<close>), comparison
  (\<open>princ_comp.c\<close>), construction (\<open>bld_pr_ext.c\<close>, \<open>tgtname.c\<close>), default salts
  (\<open>pr_to_salt.c\<close>) and the name predicates of \<open>kdc/kdc_util.c\<close>.
\<close>

section \<open>Comparison and construction\<close>

definition krb5_princ_size :: "krb5_principal \<Rightarrow> nat" where
  "krb5_princ_size p = length (p_data p)"

text \<open>\<open>krb5_princ_component\<close> is a pointer into the component array; \<open>None\<close> is a read past it.\<close>

definition krb5_princ_component :: "krb5_principal \<Rightarrow> nat \<Rightarrow> string option" where
  "krb5_princ_component p i = (if i < length (p_data p) then Some (p_data p ! i) else None)"

definition krb5_realm_compare :: "krb5_principal \<Rightarrow> krb5_principal \<Rightarrow> bool" where
  "krb5_realm_compare princ1 princ2 =
     (if length (p_realm princ1) \<noteq> length (p_realm princ2) \<or> p_realm princ1 \<noteq> p_realm princ2
      then False else True)"

fun compare_components :: "string list \<Rightarrow> string list \<Rightarrow> bool" where
  "compare_components (p1 # ps) (q1 # qs) =
     (if length p1 \<noteq> length q1 \<or> p1 \<noteq> q1 then False else compare_components ps qs)"
| "compare_components _ _ = True"

definition krb5_principal_compare :: "krb5_principal \<Rightarrow> krb5_principal \<Rightarrow> bool" where
  "krb5_principal_compare princ1 princ2 =
     (if krb5_princ_size princ1 \<noteq> krb5_princ_size princ2 then False
      else if \<not> krb5_realm_compare princ1 princ2 then False
      else compare_components (p_data princ1) (p_data princ2))"

text \<open>
  The variable arguments of \<open>krb5_build_principal_ext\<close> are (size, data) pairs that end at
  the first size of 0; \<open>take_args\<close> is that counting loop.
\<close>

definition take_args :: "string list \<Rightarrow> string list" where
  "take_args args = takeWhile (\<lambda>a. length a \<noteq> 0) args"

definition krb5_build_principal_ext :: "string \<Rightarrow> string list \<Rightarrow> krb5_principal" where
  "krb5_build_principal_ext realm args =
     \<lparr>p_realm = realm, p_data = take_args args, p_type = KRB5_NT_UNKNOWN\<rparr>"

definition krb5_tgtname :: "string \<Rightarrow> string \<Rightarrow> krb5_principal" where
  "krb5_tgtname server client = krb5_build_principal_ext client [KRB5_TGS_NAME, server]"

definition krb5_principal2salt_internal :: "krb5_principal option \<Rightarrow> bool \<Rightarrow> string" where
  "krb5_principal2salt_internal pr use_realm =
     (case pr of None \<Rightarrow> []
      | Some p \<Rightarrow> (if use_realm then p_realm p else []) @ concat (p_data p))"

definition krb5_principal2salt :: "krb5_principal option \<Rightarrow> string" where
  "krb5_principal2salt pr = krb5_principal2salt_internal pr True"

definition krb5_principal2salt_norealm :: "krb5_principal option \<Rightarrow> string" where
  "krb5_principal2salt_norealm pr = krb5_principal2salt_internal pr False"

text \<open>
  The KDC's own comparison of realms and its test for a ticket-granting service name.  The
  test reads component 0 without asking how many there are; for a name without components,
  where the C code reads past the array, the model answers \<open>False\<close>.
\<close>

definition realm_compare :: "krb5_principal \<Rightarrow> krb5_principal \<Rightarrow> bool" where
  "realm_compare princ1 princ2 \<longleftrightarrow>
     length (p_realm princ1) = length (p_realm princ2) \<and> p_realm princ1 = p_realm princ2"

definition krb5_is_tgs_principal :: "krb5_principal \<Rightarrow> bool" where
  "krb5_is_tgs_principal p =
     (case krb5_princ_component p 0 of None \<Rightarrow> False
      | Some c \<Rightarrow> length c = KRB5_TGS_NAME_SIZE \<and> c = KRB5_TGS_NAME)"

section \<open>Parsing\<close>

definition REALM_SEP :: char where "REALM_SEP = CHR ''@''"
definition COMPONENT_SEP :: char where "COMPONENT_SEP = CHR ''/''"
definition QUOTECHAR :: char where "QUOTECHAR = CHR 0x5C"
definition FCOMPNUM :: nat where "FCOMPNUM = 10"

text \<open>
  Pass 1 counts the separators, checks the syntax and records the sizes of the first
  \<open>FCOMPNUM\<close> components.  The loop state is the rest of the string, \<open>i\<close>, \<open>sz\<close>, whether
  \<open>parsed_realm\<close> is set, and the array \<open>fcompsize\<close>.
\<close>

fun parse_pass1 :: "string \<Rightarrow> nat \<Rightarrow> nat \<Rightarrow> bool \<Rightarrow> (nat \<Rightarrow> nat) \<Rightarrow>
    (nat \<times> nat \<times> bool \<times> (nat \<Rightarrow> nat)) krb5_result" where
  "parse_pass1 [] i sz parsed_realm fcompsize =
     Inr (i, sz, parsed_realm,
          (if parsed_realm then fcompsize
           else if i < FCOMPNUM then fcompsize(i := sz) else fcompsize))"
| "parse_pass1 (c # cp) i sz parsed_realm fcompsize =
     (if c = QUOTECHAR then
        (case cp of [] \<Rightarrow> Inl KRB5_PARSE_MALFORMED
         | _ # cp' \<Rightarrow> parse_pass1 cp' i (sz + 1) parsed_realm fcompsize)
      else if c = COMPONENT_SEP then
        (if parsed_realm then Inl KRB5_PARSE_MALFORMED
         else parse_pass1 cp (i + 1) 0 parsed_realm
                (if i < FCOMPNUM then fcompsize(i := sz) else fcompsize))
      else if c = REALM_SEP then
        (if parsed_realm \<or> cp = [] then Inl KRB5_PARSE_MALFORMED
         else parse_pass1 cp i 0 True
                (if i < FCOMPNUM then fcompsize(i := sz) else fcompsize))
      else parse_pass1 cp i (sz + 1) parsed_realm fcompsize)"

text \<open>
  Pass 2 runs when there are \<open>FCOMPNUM\<close> or more components and records every size in the
  principal's component array; it returns the last index, the size of the last piece, whether
  a realm was seen, and the array.
\<close>

fun parse_pass2 :: "string \<Rightarrow> nat \<Rightarrow> nat \<Rightarrow> bool \<Rightarrow> (nat \<Rightarrow> nat) \<Rightarrow>
    nat \<times> nat \<times> bool \<times> (nat \<Rightarrow> nat)" where
  "parse_pass2 [] i sz parsed_realm lens =
     (i, sz, parsed_realm, (if parsed_realm then lens else lens(i := sz)))"
| "parse_pass2 (c # cp) i sz parsed_realm lens =
     (if c = QUOTECHAR then
        (case cp of [] \<Rightarrow> parse_pass2 [] i (sz + 1) parsed_realm lens
         | _ # cp' \<Rightarrow> parse_pass2 cp' i (sz + 1) parsed_realm lens)
      else if c = COMPONENT_SEP then parse_pass2 cp (i + 1) 0 parsed_realm (lens(i := sz))
      else if c = REALM_SEP then parse_pass2 cp i 0 True (lens(i := sz))
      else parse_pass2 cp i (sz + 1) parsed_realm lens)"

text \<open>
  Pass 3 writes the characters through the pointer \<open>q\<close>, which is at the end of what has been
  written into one of the buffers: component \<open>i\<close> or the realm.
\<close>

datatype buffer = Component nat | Realm

definition unquote :: "char \<Rightarrow> char" where
  "unquote c =
     (if c = CHR ''n'' then CHR 0x0A
      else if c = CHR ''t'' then CHR 0x09
      else if c = CHR ''b'' then CHR 0x08
      else if c = CHR ''0'' then CHR 0x00
      else c)"

fun parse_pass3 :: "string \<Rightarrow> nat \<Rightarrow> buffer \<Rightarrow> (buffer \<Rightarrow> string) \<Rightarrow> (buffer \<Rightarrow> string)" where
  "parse_pass3 [] i q m = m(q := m q @ [NUL])"
| "parse_pass3 (c # cp) i q m =
     (if c = QUOTECHAR then
        (case cp of [] \<Rightarrow> m(q := m q @ [NUL])
         | c' # cp' \<Rightarrow> parse_pass3 cp' i q (m(q := m q @ [unquote c'])))
      else if c = COMPONENT_SEP \<or> c = REALM_SEP then
        parse_pass3 cp (i + 1) (if c = COMPONENT_SEP then Component (i + 1) else Realm)
          (m(q := m q @ [NUL]))
      else parse_pass3 cp i q (m(q := m q @ [c])))"

text \<open>
  \<open>krb5_parse_name\<close>.  \<open>get_default_realm\<close> is the result of \<open>krb5_get_default_realm\<close> and
  \<open>default_realm\<close> the function's static variable that caches it.
\<close>

definition parse_sizes :: "string \<Rightarrow> nat \<Rightarrow> (nat \<Rightarrow> nat) \<Rightarrow> (nat \<Rightarrow> nat)" where
  "parse_sizes name components fcompsize =
     (if FCOMPNUM \<le> components
      then (case parse_pass2 name 0 0 False (\<lambda>_. 0) of (_, _, _, lens) \<Rightarrow> lens)
      else fcompsize)"

definition krb5_parse_name ::
  "string krb5_result \<Rightarrow> string option \<Rightarrow> string \<Rightarrow> string option \<times> krb5_principal krb5_result" where
  "krb5_parse_name get_default_realm default_realm str =
     (let name = c_str str in
      case parse_pass1 name 0 0 False (\<lambda>_. 0) of
        Inl e \<Rightarrow> (default_realm, Inl e)
      | Inr (i, sz, parsed_realm, fcompsize) \<Rightarrow>
          let components = i + 1;
              lens = parse_sizes name components fcompsize;
              m = parse_pass3 name 0 (Component 0) (\<lambda>_. []);
              data = map (\<lambda>j. take (lens j) (m (Component j))) [0..<components]
          in if parsed_realm
             then (default_realm,
                   Inr \<lparr>p_realm = take sz (m Realm), p_data = data, p_type = KRB5_NT_PRINCIPAL\<rparr>)
             else (case default_realm of
                     Some r \<Rightarrow> (default_realm,
                        Inr \<lparr>p_realm = c_str r, p_data = data, p_type = KRB5_NT_PRINCIPAL\<rparr>)
                   | None \<Rightarrow>
                      (case get_default_realm of
                         Inl e \<Rightarrow> (None, Inl e)
                       | Inr r \<Rightarrow> (Some r,
                        Inr \<lparr>p_realm = c_str r, p_data = data, p_type = KRB5_NT_PRINCIPAL\<rparr>))))"

section \<open>Printing\<close>

definition needs_quote :: "char \<Rightarrow> bool" where
  "needs_quote c \<longleftrightarrow> c = REALM_SEP \<or> c = COMPONENT_SEP \<or> c = CHR 0x00 \<or> c = QUOTECHAR \<or>
     c = CHR 0x09 \<or> c = CHR 0x0A \<or> c = CHR 0x08"

text \<open>The size computed before the buffer is allocated: every separator is counted once.\<close>

definition quoted_size :: "string \<Rightarrow> nat" where
  "quoted_size s = length s + length (filter needs_quote s)"

definition unparse_totalsize :: "krb5_principal \<Rightarrow> nat" where
  "unparse_totalsize p = (quoted_size (p_realm p) + 1) + sum_list (map (\<lambda>c. quoted_size c + 1) (p_data p))"

definition quote_char :: "char \<Rightarrow> string" where
  "quote_char c =
     (if c = COMPONENT_SEP \<or> c = REALM_SEP \<or> c = QUOTECHAR then [QUOTECHAR, c]
      else if c = CHR 0x09 then [QUOTECHAR, CHR ''t'']
      else if c = CHR 0x0A then [QUOTECHAR, CHR ''n'']
      else if c = CHR 0x08 then [QUOTECHAR, CHR ''b'']
      else if c = CHR 0x00 then [QUOTECHAR, CHR ''0'']
      else [c])"

definition quote_string :: "string \<Rightarrow> string" where
  "quote_string s = concat (map quote_char s)"

text \<open>
  The writing loop, as the bytes stored at \<open>*name\<close> up to and including the NUL.  The step
  \<open>q--\<close> backs up over the separator after the last component; with no component at all it
  would leave the buffer, which is \<open>None\<close>.
\<close>

definition unparse_write :: "krb5_principal \<Rightarrow> string option" where
  "unparse_write p =
     (let q = concat (map (\<lambda>c. quote_string c @ [COMPONENT_SEP]) (p_data p))
      in if q = [] then None
         else Some (butlast q @ [REALM_SEP] @ quote_string (p_realm p) @ [NUL]))"

text \<open>
  \<open>krb5_unparse_name_ext\<close> with the caller's buffer of \<open>sz\<close> bytes, or none; the result is
  the size of the buffer afterwards and its contents.
\<close>

definition krb5_unparse_name_ext :: "krb5_principal \<Rightarrow> nat option \<Rightarrow> (nat \<times> string) option" where
  "krb5_unparse_name_ext p sz =
     (let totalsize = unparse_totalsize p;
          sz' = (case sz of Some sz \<Rightarrow> if sz < totalsize then totalsize else sz
                   | None \<Rightarrow> totalsize)
      in map_option (\<lambda>w. (sz', w)) (unparse_write p))"

definition krb5_unparse_name :: "krb5_principal \<Rightarrow> string option" where
  "krb5_unparse_name p = map_option snd (krb5_unparse_name_ext p None)"

lemmas parse_chars = REALM_SEP_def COMPONENT_SEP_def QUOTECHAR_def NUL_def

section \<open>Comparison is equality of realm and components\<close>

lemma compare_components_iff:
  "length ps = length qs \<Longrightarrow> compare_components ps qs \<longleftrightarrow> ps = qs"
  by (induction ps qs rule: list_induct2) auto

lemma krb5_principal_compare_iff:
  "krb5_principal_compare p q \<longleftrightarrow> p_realm p = p_realm q \<and> p_data p = p_data q"
  by (auto simp: krb5_principal_compare_def krb5_realm_compare_def krb5_princ_size_def
      compare_components_iff)

lemma realm_compare_iff: "realm_compare p q \<longleftrightarrow> p_realm p = p_realm q"
  by (auto simp: realm_compare_def)

section \<open>The size passes agree with the writing pass\<close>

text \<open>Pass 1 succeeds only where pass 2 computes the same index, last size and sizes.\<close>

lemma parse_pass1_pass2:
  "parse_pass1 cp i sz pr fc = Inr (i', sz', pr', fc') \<Longrightarrow>
   \<forall>j < FCOMPNUM. fc j = lens j \<Longrightarrow>
   \<exists>lens'. parse_pass2 cp i sz pr lens = (i', sz', pr', lens') \<and> (\<forall>j < FCOMPNUM. fc' j = lens' j)"
proof (induction cp i sz pr fc arbitrary: lens rule: parse_pass1.induct)
  case (1 i sz pr fc)
  then show ?case by (auto split: if_splits)
next
  case (2 c cp i sz pr fc)
  then show ?case
    by (auto split: if_splits list.splits)
qed

text \<open>
  What the buffers hold relative to the recorded sizes: every finished component buffer has
  its size and a NUL, and the buffer under \<open>q\<close> holds \<open>sz\<close> characters.
\<close>

definition buffers_match :: "(buffer \<Rightarrow> string) \<Rightarrow> (nat \<Rightarrow> nat) \<Rightarrow> nat \<Rightarrow> nat \<Rightarrow> bool \<Rightarrow> bool" where
  "buffers_match m lens i sz pr \<longleftrightarrow>
     (\<forall>j < i. length (m (Component j)) = lens j + 1) \<and>
     (\<forall>j > i. m (Component j) = []) \<and>
     (if pr then length (m (Component i)) = lens i + 1 \<and> length (m Realm) = sz
      else length (m (Component i)) = sz \<and> m Realm = [])"

lemma buffers_match_char:
  "buffers_match m lens i sz pr \<Longrightarrow> q = (if pr then Realm else Component i) \<Longrightarrow>
   buffers_match (m(q := m q @ [c])) lens i (sz + 1) pr"
  by (auto simp: buffers_match_def)

lemma buffers_match_component:
  "buffers_match m lens i sz False \<Longrightarrow>
   buffers_match (m(Component i := m (Component i) @ [c])) (lens(i := sz)) (Suc i) 0 False"
  by (auto simp: buffers_match_def less_Suc_eq)

lemma buffers_match_realm:
  "buffers_match m lens i sz False \<Longrightarrow>
   buffers_match (m(Component i := m (Component i) @ [c])) (lens(i := sz)) i 0 True"
  by (auto simp: buffers_match_def)

lemmas buffers_match_steps = buffers_match_char buffers_match_component buffers_match_realm

lemma parse_pass3_buffers:
  "parse_pass1 cp i sz pr fc = Inr (i', sz', pr', fc') \<Longrightarrow>
   parse_pass2 cp i sz pr lens = (i', sz', pr', lens') \<Longrightarrow>
   buffers_match m lens i sz pr \<Longrightarrow>
   q = (if pr then Realm else Component i) \<Longrightarrow> (\<not> pr \<longrightarrow> k = i) \<Longrightarrow>
   (\<forall>j \<le> i'. length (parse_pass3 cp k q m (Component j)) = lens' j + 1) \<and>
   (pr' \<longrightarrow> length (parse_pass3 cp k q m Realm) = sz' + 1)"
proof (induction cp i sz pr fc arbitrary: lens m q k rule: parse_pass1.induct)
  case (1 i sz pr fc)
  then show ?case
    by (auto simp: buffers_match_def le_less split: if_splits)
next
  case (2 c cp i sz pr fc)
  note p1 = "2.prems"(1) and p2 = "2.prems"(2) and bm = "2.prems"(3) and q = "2.prems"(4)
    and k = "2.prems"(5)
  note sep = parse_chars
  consider (quote) "c = QUOTECHAR" | (comp) "c = COMPONENT_SEP" | (realm) "c = REALM_SEP"
    | (other) "c \<noteq> QUOTECHAR" "c \<noteq> COMPONENT_SEP" "c \<noteq> REALM_SEP"
    by blast
  then show ?case
  proof cases
    case quote
    with p1 obtain c' cp' where cp: "cp = c' # cp'" by (cases cp) auto
    from quote show ?thesis
      using "2.IH"(1) [OF quote cp _ _ buffers_match_char [where c = "unquote c'", OF bm q] q k] p1 p2
      by (simp add: cp del: fun_upd_apply)
  next
    case comp
    then have nq: "c \<noteq> QUOTECHAR" by (simp add: sep)
    from p1 comp nq have pr: "\<not> pr" by (auto split: if_splits)
    with bm k q have bm': "buffers_match (m(q := m q @ [NUL])) (lens(i := sz)) (i + 1) 0 pr"
      by (simp add: buffers_match_component)
    from comp nq pr show ?thesis
      using "2.IH"(2) [OF nq comp pr _ _ bm' refl, of "i + 1"] p1 p2 k by (simp del: fun_upd_apply)
  next
    case realm
    then have nq: "c \<noteq> QUOTECHAR" and nc: "c \<noteq> COMPONENT_SEP" by (simp_all add: sep)
    from p1 realm nq nc have pr: "\<not> (pr \<or> cp = [])" by (auto split: if_splits)
    with bm q have bm': "buffers_match (m(q := m q @ [NUL])) (lens(i := sz)) i 0 True"
      by (simp add: buffers_match_realm)
    from realm nq nc pr show ?thesis
      using "2.IH"(3) [OF nq nc realm pr _ _ bm' refl, of "k + 1"] p1 p2 by (simp del: fun_upd_apply)
  next
    case other
    then show ?thesis
      using "2.IH"(4) [OF other _ _ buffers_match_char [where c = c, OF bm q] q k] p1 p2 by (simp del: fun_upd_apply)
  qed
qed

lemma parse_buffers_fit:
  assumes "parse_pass1 name 0 0 False (\<lambda>_. 0) = Inr (i, sz, pr, fc)"
  shows "(\<forall>j \<le> i. length (parse_pass3 name 0 (Component 0) (\<lambda>_. []) (Component j))
            = parse_sizes name (i + 1) fc j + 1) \<and>
         (pr \<longrightarrow> length (parse_pass3 name 0 (Component 0) (\<lambda>_. []) Realm) = sz + 1)"
proof -
  from parse_pass1_pass2 [OF assms, of "\<lambda>_. 0"] obtain lens where
    p2: "parse_pass2 name 0 0 False (\<lambda>_. 0) = (i, sz, pr, lens)" and
    eq: "\<forall>j < FCOMPNUM. fc j = lens j" by auto
  have "j \<le> i \<Longrightarrow> parse_sizes name (i + 1) fc j = lens j" for j
    using p2 eq by (auto simp: parse_sizes_def)
  moreover have "buffers_match (\<lambda>_. []) (\<lambda>_. 0) 0 0 False"
    by (simp add: buffers_match_def)
  ultimately show ?thesis
    using parse_pass3_buffers [OF assms p2, of "\<lambda>_. []" "Component 0" 0] by simp
qed

section \<open>Printed names parse back\<close>

lemma quote_char_cases:
  "(needs_quote c \<and> (\<exists>d. quote_char c = [QUOTECHAR, d] \<and> unquote d = c \<and> d \<noteq> NUL)) \<or>
   (\<not> needs_quote c \<and> quote_char c = [c])"
  by (auto simp: needs_quote_def quote_char_def unquote_def parse_chars)

lemma length_quote_string: "length (quote_string s) = quoted_size s"
proof (induction s)
  case Nil
  then show ?case by (simp add: quote_string_def quoted_size_def)
next
  case (Cons c s)
  then show ?case
    using quote_char_cases [of c] by (auto simp: quote_string_def quoted_size_def)
qed

lemma NUL_notin_quote_string: "NUL \<notin> set (quote_string s)"
proof (induction s)
  case Nil
  then show ?case by (simp add: quote_string_def)
next
  case (Cons c s)
  then show ?case
    using quote_char_cases [of c]
    by (auto simp: quote_string_def needs_quote_def parse_chars)
qed

lemma parse_pass1_quote:
  "parse_pass1 (quote_string s @ rest) i sz pr fc = parse_pass1 rest i (sz + length s) pr fc"
proof (induction s arbitrary: sz)
  case Nil
  then show ?case by (simp add: quote_string_def)
next
  case (Cons c s)
  then show ?case
    using quote_char_cases [of c] by (auto simp: quote_string_def needs_quote_def)
qed

lemma parse_pass3_quote_char:
  "parse_pass3 (quote_char c @ rest) i q m = parse_pass3 rest i q (m(q := m q @ [c]))"
  using quote_char_cases [of c] by (auto simp: needs_quote_def simp del: fun_upd_apply)

lemma parse_pass3_quote:
  "parse_pass3 (quote_string s @ rest) i q m = parse_pass3 rest i q (m(q := m q @ s))"
proof (induction s arbitrary: m)
  case Nil
  then show ?case by (simp add: quote_string_def)
next
  case (Cons c s)
  have "parse_pass3 (quote_string (c # s) @ rest) i q m =
    parse_pass3 (quote_string s @ rest) i q (m(q := m q @ [c]))"
    by (simp add: quote_string_def parse_pass3_quote_char)
  also have "\<dots> = parse_pass3 rest i q (m(q := m q @ c # s))"
    unfolding Cons.IH by simp
  finally show ?case .
qed

text \<open>The components after the first, each behind its separator, and the realm.\<close>

definition tail_string :: "string list \<Rightarrow> string \<Rightarrow> string" where
  "tail_string cs r = concat (map (\<lambda>c. COMPONENT_SEP # quote_string c) cs) @ REALM_SEP # quote_string r"

lemma tail_string_simps [simp]:
  "tail_string [] r = REALM_SEP # quote_string r"
  "tail_string (c # cs) r = COMPONENT_SEP # quote_string c @ tail_string cs r"
  by (simp_all add: tail_string_def)

lemma butlast_components:
  "butlast (concat (map (\<lambda>c. quote_string c @ [COMPONENT_SEP]) (c # cs))) =
   quote_string c @ concat (map (\<lambda>c. COMPONENT_SEP # quote_string c) cs)"
proof (induction cs arbitrary: c)
  case Nil
  then show ?case by simp
next
  case (Cons d cs)
  have "butlast (quote_string c @ COMPONENT_SEP # concat (map (\<lambda>c. quote_string c @ [COMPONENT_SEP]) (d # cs)))
    = quote_string c @ COMPONENT_SEP # butlast (concat (map (\<lambda>c. quote_string c @ [COMPONENT_SEP]) (d # cs)))"
    by (simp add: butlast_append)
  with Cons.IH [of d] show ?case by simp
qed

lemma unparse_write_Cons:
  assumes "p_data p = c # cs"
  shows "unparse_write p = Some (quote_string c @ tail_string cs (p_realm p) @ [NUL])"
  using assms butlast_components [of c cs]
  by (simp add: unparse_write_def tail_string_def)

lemma krb5_unparse_name_eq: "krb5_unparse_name p = unparse_write p"
  by (simp add: krb5_unparse_name_def krb5_unparse_name_ext_def option.map_comp comp_def option.map_ident)

lemma parse_pass1_tail:
  assumes "r \<noteq> []"
  shows "\<exists>fc'. parse_pass1 (tail_string cs r) i sz False fc = Inr (i + length cs, length r, True, fc')"
proof (induction cs arbitrary: i sz fc)
  case Nil
  have "quote_string r \<noteq> []"
    using assms length_quote_string [of r] by (auto simp: quoted_size_def)
  then show ?case
    using parse_pass1_quote [of r "[]"] by (simp add: parse_chars)
next
  case (Cons c cs)
  show ?case
    using Cons.IH [of "Suc i"] by (simp add: parse_chars parse_pass1_quote)
qed

definition tail_memory :: "(buffer \<Rightarrow> string) \<Rightarrow> nat \<Rightarrow> string list \<Rightarrow> string \<Rightarrow> buffer \<Rightarrow> string" where
  "tail_memory m i cs r b = (case b of Realm \<Rightarrow> m Realm @ r @ [NUL]
     | Component j \<Rightarrow> if j = i then m b @ [NUL]
         else if i < j \<and> j \<le> i + length cs then m b @ cs ! (j - i - 1) @ [NUL] else m b)"

lemma parse_pass3_tail:
  "parse_pass3 (tail_string cs r) i (Component i) m = tail_memory m i cs r"
proof (induction cs arbitrary: i m)
  case Nil
  have "parse_pass3 (quote_string r) (Suc i) Realm m' = m'(Realm := m' Realm @ r @ [NUL])" for m'
    using parse_pass3_quote [of r "[]"] by simp
  then show ?case
    by (auto simp: REALM_SEP_def COMPONENT_SEP_def QUOTECHAR_def fun_eq_iff tail_memory_def
        split: buffer.splits)
next
  case (Cons c cs)
  have "parse_pass3 (tail_string (c # cs) r) i (Component i) m =
    tail_memory (m(Component i := m (Component i) @ [NUL],
                   Component (Suc i) := m (Component (Suc i)) @ c)) (Suc i) cs r"
    by (simp add: REALM_SEP_def COMPONENT_SEP_def QUOTECHAR_def parse_pass3_quote Cons.IH
        del: fun_upd_apply) (simp add: fun_upd_def)
  also have "\<dots> = tail_memory m i (c # cs) r"
    by (auto simp: fun_eq_iff tail_memory_def nth_Cons' split: buffer.splits)
  finally show ?case .
qed

text \<open>What pass 3 leaves in the buffers for a printed name.\<close>

lemma parse_pass3_printed:
  "parse_pass3 (quote_string c @ tail_string cs r) 0 (Component 0) (\<lambda>_. []) b =
     (case b of Realm \<Rightarrow> r @ [NUL]
      | Component j \<Rightarrow> if j \<le> length cs then (c # cs) ! j @ [NUL] else [])"
  by (auto simp: parse_pass3_quote parse_pass3_tail tail_memory_def split: buffer.splits)

lemma parse_pass1_printed:
  assumes "r \<noteq> []"
  shows "\<exists>fc. parse_pass1 (quote_string c @ tail_string cs r) 0 0 False (\<lambda>_. 0)
     = Inr (length cs, length r, True, fc)"
  using parse_pass1_tail [OF assms, of cs 0 "length c" "\<lambda>_. 0"] by (simp add: parse_pass1_quote)

lemma NUL_notin_tail_string: "NUL \<notin> set (tail_string cs r)"
  using NUL_notin_quote_string by (induction cs) (auto simp: parse_chars)

lemma NUL_notin_printed: "NUL \<notin> set (quote_string c @ tail_string cs r)"
  by (simp add: NUL_notin_quote_string NUL_notin_tail_string)

lemma take_terminated: "length (x @ [NUL]) = n + 1 \<Longrightarrow> take n (x @ [NUL]) = x"
  by simp

lemma parse_printed:
  assumes data: "p_data p = c # cs" and realm: "p_realm p \<noteq> []"
  shows "krb5_parse_name gdr dr ((quote_string c @ tail_string cs (p_realm p)) @ NUL # junk) =
     (dr, Inr (p\<lparr>p_type := KRB5_NT_PRINCIPAL\<rparr>))"
proof -
  let ?s = "quote_string c @ tail_string cs (p_realm p)"
  obtain fc where p1: "parse_pass1 ?s 0 0 False (\<lambda>_. 0) = Inr (length cs, length (p_realm p), True, fc)"
    using parse_pass1_printed [OF realm] by blast
  have lens: "j \<le> length cs \<Longrightarrow> parse_sizes ?s (Suc (length cs)) fc j = length ((c # cs) ! j)" for j
    using parse_buffers_fit [OF p1] by (simp add: parse_pass3_printed)
  have d: "map (\<lambda>j. take (parse_sizes ?s (Suc (length cs)) fc j)
       (parse_pass3 ?s 0 (Component 0) (\<lambda>_. []) (Component j))) [0..<Suc (length cs)] = p_data p"
    unfolding data parse_pass3_printed
    by (rule nth_equalityI) (auto simp: lens simp del: upt_Suc)
  show ?thesis
    using p1 d c_str_terminated [OF NUL_notin_printed]
    by (simp add: krb5_parse_name_def parse_pass3_printed Let_def del: upt_Suc append_assoc)
qed

section \<open>Properties\<close>

text \<open>
  C30: printing a principal that has a component and a realm, and parsing the printed name,
  gives the principal back, whatever bytes its components and realm contain; only the name
  type is reset to \<open>KRB5_NT_PRINCIPAL\<close>.
\<close>

theorem parse_unparse_roundtrip:
  assumes "p_data p \<noteq> []" and "p_realm p \<noteq> []"
  shows "\<exists>s. krb5_unparse_name p = Some s \<and>
    krb5_parse_name gdr dr s = (dr, Inr (p\<lparr>p_type := KRB5_NT_PRINCIPAL\<rparr>))"
proof -
  from assms(1) obtain c cs where "p_data p = c # cs" by (cases "p_data p") auto
  with parse_printed [OF this assms(2), of gdr dr "[]"] show ?thesis
    by (simp add: krb5_unparse_name_eq unparse_write_Cons)
qed

definition sample_principal :: krb5_principal where
  "sample_principal = \<lparr>p_realm = ''ATHENA.MIT.EDU'', p_data = [''host'', ''a/b@c''], p_type = KRB5_NT_UNKNOWN\<rparr>"

theorem parse_unparse_roundtrip_witness:
  "\<exists>s. krb5_unparse_name sample_principal = Some s \<and>
    krb5_parse_name (Inl KRB5_PARSE_MALFORMED) None s =
      (None, Inr (sample_principal\<lparr>p_type := KRB5_NT_PRINCIPAL\<rparr>))"
  by (rule parse_unparse_roundtrip) (simp_all add: sample_principal_def)

text \<open>
  C31: parsing never writes outside the buffers it allocates.  When pass 1 accepts a name, the
  third pass fills component \<open>j\<close> with exactly the size recorded for it and one NUL, which is
  what \<open>malloc(length + 1)\<close> provides, and fills the realm buffer likewise; this holds for
  the sizes of pass 1 and, from ten components on, for those of pass 2.
\<close>

theorem parse_name_stays_in_buffers:
  assumes "parse_pass1 (c_str name) 0 0 False (\<lambda>_. 0) = Inr (i, sz, pr, fc)" and "j \<le> i"
  shows "length (parse_pass3 (c_str name) 0 (Component 0) (\<lambda>_. []) (Component j)) =
           parse_sizes (c_str name) (i + 1) fc j + 1 \<and>
         (pr \<longrightarrow> length (parse_pass3 (c_str name) 0 (Component 0) (\<lambda>_. []) Realm) = sz + 1)"
  using parse_buffers_fit [OF assms(1)] assms(2) by blast

theorem parse_name_stays_in_buffers_witness:
  "\<exists>i sz pr fc. parse_pass1 (c_str ''host/x@R'') 0 0 False (\<lambda>_. 0) = Inr (i, sz, pr, fc) \<and>
     length (parse_pass3 (c_str ''host/x@R'') 0 (Component 0) (\<lambda>_. []) (Component 1)) =
       parse_sizes (c_str ''host/x@R'') (i + 1) fc 1 + 1"
proof -
  have c: "c_str ''host/x@R'' = ''host/x@R''" by (simp add: c_str_def NUL_def)
  obtain fc where p1: "parse_pass1 (c_str ''host/x@R'') 0 0 False (\<lambda>_. 0) = Inr (1, 1, True, fc)"
    by (simp add: c parse_chars)
  from parse_name_stays_in_buffers [OF p1, of 1] p1 show ?thesis by blast
qed

text \<open>
  Printing a principal with at least one component stores exactly as many bytes as
  \<open>krb5_unparse_name_ext\<close> computes for the buffer, so the buffer it leaves is never overrun,
  whether the caller supplied one (of any size) or not; the name is NUL-terminated and contains
  no other NUL.
\<close>

theorem unparse_fits_buffer:
  assumes "p_data p \<noteq> []"
  shows "\<exists>n s. krb5_unparse_name_ext p sz = Some (n, s @ [NUL]) \<and> NUL \<notin> set s \<and>
    length (s @ [NUL]) = unparse_totalsize p \<and> unparse_totalsize p \<le> n"
proof -
  from assms obtain c cs where d: "p_data p = c # cs" by (cases "p_data p") auto
  have "length (tail_string cs (p_realm p)) =
    quoted_size (p_realm p) + 1 + sum_list (map (\<lambda>c. quoted_size c + 1) cs)"
    by (induction cs) (simp_all add: length_quote_string)
  then show ?thesis
    using NUL_notin_printed [of c cs "p_realm p"]
    by (auto simp: krb5_unparse_name_ext_def unparse_write_Cons [OF d] unparse_totalsize_def d
        length_quote_string split: option.splits)
qed

theorem unparse_fits_buffer_witness:
  "\<exists>n s. krb5_unparse_name_ext sample_principal (Some 3) = Some (n, s @ [NUL]) \<and> NUL \<notin> set s \<and>
    length (s @ [NUL]) = unparse_totalsize sample_principal \<and> unparse_totalsize sample_principal \<le> n"
  by (rule unparse_fits_buffer) (simp add: sample_principal_def)

text \<open>
  A principal without components (which the decoders can produce) makes
  \<open>krb5_unparse_name\<close> step in front of its buffer, and it is the only kind that does.
\<close>

theorem unparse_underflow_iff: "krb5_unparse_name p = None \<longleftrightarrow> p_data p = []"
  by (cases "p_data p") (simp_all add: krb5_unparse_name_eq unparse_write_Cons unparse_write_def)

text \<open>
  C32: for principals with a component and a realm, \<open>krb5_principal_compare\<close> agrees with
  equality of the printed names, so a printed name identifies the principal.
\<close>

theorem principal_compare_iff_same_name:
  assumes "p_data p \<noteq> []" and "p_realm p \<noteq> []" and "p_data q \<noteq> []" and "p_realm q \<noteq> []"
  shows "krb5_principal_compare p q \<longleftrightarrow> krb5_unparse_name p = krb5_unparse_name q"
proof
  assume "krb5_principal_compare p q"
  then show "krb5_unparse_name p = krb5_unparse_name q"
    by (simp add: krb5_principal_compare_iff krb5_unparse_name_eq unparse_write_def)
next
  assume eq: "krb5_unparse_name p = krb5_unparse_name q"
  obtain c cs d ds where cs: "p_data p = c # cs" and ds: "p_data q = d # ds"
    using assms by (metis neq_Nil_conv)
  with eq have "p\<lparr>p_type := KRB5_NT_PRINCIPAL\<rparr> = q\<lparr>p_type := KRB5_NT_PRINCIPAL\<rparr>"
    using parse_printed [OF cs assms(2), of "Inl 0" None "[]"]
      parse_printed [OF ds assms(4), of "Inl 0" None "[]"]
    by (simp add: krb5_unparse_name_eq unparse_write_Cons)
  then show "krb5_principal_compare p q"
    by (simp add: krb5_principal_compare_iff)
      (metis krb5_principal.select_convs(1,2) krb5_principal.surjective krb5_principal.update_convs(3))
qed

theorem principal_compare_iff_same_name_witness:
  "krb5_principal_compare sample_principal (sample_principal\<lparr>p_type := 1\<rparr>) \<longleftrightarrow>
   krb5_unparse_name sample_principal = krb5_unparse_name (sample_principal\<lparr>p_type := 1\<rparr>)"
  by (rule principal_compare_iff_same_name) (simp_all add: sample_principal_def)

end
