(* ===== verification/Krb5_Etypes.thy ===== *)
theory Krb5_Etypes
  imports Krb5_Types
begin

text \<open>
  The table of encryption types (\<open>lib/crypto/etypes.c\<close>) and the lookups in it
  (\<open>enctype_compare.c\<close>, \<open>valid_enctype.c\<close>).  The function and structure pointers of an entry are
  the constructors of datatypes; two pointers are equal when the constructors are.
\<close>

datatype krb5_enc_provider = krb5_enc_des | krb5_enc_des3

datatype krb5_hash_provider = krb5_hash_crc32 | krb5_hash_md4 | krb5_hash_md5 | krb5_hash_sha1

datatype krb5_mechanism = krb5_old | krb5_raw | krb5_dk

datatype krb5_str2key = krb5_des_string_to_key | krb5_dk_string_to_key

record krb5_keytypes =
  kt_etype :: krb5_enctype
  kt_in_string :: string
  kt_enc :: krb5_enc_provider
  kt_hash :: "krb5_hash_provider option"
  kt_mech :: krb5_mechanism
  kt_str2key :: krb5_str2key

definition keytype :: "krb5_enctype \<Rightarrow> string \<Rightarrow> krb5_enc_provider \<Rightarrow> krb5_hash_provider option \<Rightarrow>
    krb5_mechanism \<Rightarrow> krb5_str2key \<Rightarrow> krb5_keytypes" where
  "keytype e s enc h m k = \<lparr>kt_etype = e, kt_in_string = s, kt_enc = enc, kt_hash = h, kt_mech = m, kt_str2key = k\<rparr>"

definition krb5_enctypes_list :: "krb5_keytypes list" where
  "krb5_enctypes_list =
     [keytype ENCTYPE_DES_CBC_CRC ''des-cbc-crc'' krb5_enc_des (Some krb5_hash_crc32) krb5_old krb5_des_string_to_key,
      keytype ENCTYPE_DES_CBC_MD4 ''des-cbc-md4'' krb5_enc_des (Some krb5_hash_md4) krb5_old krb5_des_string_to_key,
      keytype ENCTYPE_DES_CBC_MD5 ''des-cbc-md5'' krb5_enc_des (Some krb5_hash_md5) krb5_old krb5_des_string_to_key,
      keytype ENCTYPE_DES_CBC_MD5 ''des'' krb5_enc_des (Some krb5_hash_md5) krb5_old krb5_des_string_to_key,
      keytype ENCTYPE_DES_CBC_RAW ''des-cbc-raw'' krb5_enc_des None krb5_raw krb5_des_string_to_key,
      keytype ENCTYPE_DES3_CBC_RAW ''des3-cbc-raw'' krb5_enc_des3 None krb5_raw krb5_dk_string_to_key,
      keytype ENCTYPE_DES3_CBC_SHA1 ''des3-cbc-sha1'' krb5_enc_des3 (Some krb5_hash_sha1) krb5_dk krb5_dk_string_to_key,
      keytype ENCTYPE_DES3_CBC_SHA1 ''des3-hmac-sha1'' krb5_enc_des3 (Some krb5_hash_sha1) krb5_dk krb5_dk_string_to_key,
      keytype ENCTYPE_DES3_CBC_SHA1 ''des3-cbc-sha1-kd'' krb5_enc_des3 (Some krb5_hash_sha1) krb5_dk krb5_dk_string_to_key,
      keytype ENCTYPE_DES_HMAC_SHA1 ''des-hmac-sha1'' krb5_enc_des (Some krb5_hash_sha1) krb5_dk krb5_dk_string_to_key]"

text \<open>The linear search for the first entry of an encryption type.\<close>

definition find_enctype :: "krb5_enctype \<Rightarrow> krb5_keytypes option" where
  "find_enctype e = find (\<lambda>k. kt_etype k = e) krb5_enctypes_list"

definition krb5_c_enctype_compare :: "krb5_enctype \<Rightarrow> krb5_enctype \<Rightarrow> bool krb5_result" where
  "krb5_c_enctype_compare e1 e2 =
     (case find_enctype e1 of None \<Rightarrow> Inl KRB5_BAD_ENCTYPE
      | Some k1 \<Rightarrow> (case find_enctype e2 of None \<Rightarrow> Inl KRB5_BAD_ENCTYPE
        | Some k2 \<Rightarrow> Inr (kt_enc k1 = kt_enc k2 \<and> kt_str2key k1 = kt_str2key k2)))"

definition valid_enctype :: "krb5_enctype \<Rightarrow> bool" where
  "valid_enctype e \<longleftrightarrow> list_ex (\<lambda>k. kt_etype k = e) krb5_enctypes_list"

lemma valid_enctype_iff: "valid_enctype e \<longleftrightarrow> find_enctype e \<noteq> None"
  by (auto simp: valid_enctype_def find_enctype_def find_None_iff list_ex_iff)

lemma enctype_compare_valid:
  "(\<exists>b. krb5_c_enctype_compare e1 e2 = Inr b) \<longleftrightarrow> valid_enctype e1 \<and> valid_enctype e2"
  by (auto simp: krb5_c_enctype_compare_def valid_enctype_iff split: option.splits)

lemma enctype_compare_refl: "valid_enctype e \<Longrightarrow> krb5_c_enctype_compare e e = Inr True"
  by (auto simp: krb5_c_enctype_compare_def valid_enctype_iff)

text \<open>
  The valid types and the keys they share: the DES types with the DES string-to-key function
  are similar to each other, and so are the triple DES types; \<open>ENCTYPE_DES_HMAC_SHA1\<close> is similar
  to no other type.
\<close>

lemma valid_enctypes: "valid_enctype e \<longleftrightarrow> e \<in> {1, 2, 3, 4, 6, 8, 16}"
  by (auto simp: valid_enctype_def krb5_enctypes_list_def keytype_def ENCTYPE_DES_CBC_CRC_def ENCTYPE_DES_CBC_MD4_def
      ENCTYPE_DES_CBC_MD5_def ENCTYPE_DES_CBC_RAW_def ENCTYPE_DES3_CBC_RAW_def ENCTYPE_DES3_CBC_SHA1_def ENCTYPE_DES_HMAC_SHA1_def)

end
