(* ===== verification/Kdb_Xdr.thy ===== *)
theory Kdb_Xdr
  imports Krb5_Principal Krb5_Etypes
begin

text \<open>
  Principal entries of the database (\<open>lib/kdb/kdb_xdr.c\<close>): tagged data, the record format with
  its little-endian integers (\<open>include/krb5/kdb.h\<close>), and the search for a key.  The array
  \<open>content\<close> is a byte list, and the pointer \<open>nextloc\<close> into it is what is left of the list;
  \<open>sizeleft\<close> is kept as the code keeps it.
\<close>

section \<open>Integers in a record\<close>

definition krb5_kdb_encode_int16 :: "int \<Rightarrow> octet list" where
  "krb5_kdb_encode_int16 i = [word_of_int i, word_of_int (i div 2 ^ 8)]"

definition krb5_kdb_encode_int32 :: "int \<Rightarrow> octet list" where
  "krb5_kdb_encode_int32 i =
     [word_of_int i, word_of_int (i div 2 ^ 8), word_of_int (i div 2 ^ 16), word_of_int (i div 2 ^ 24)]"

text \<open>The bytes do not overlap, so the bitwise or of the code is a sum.\<close>

fun krb5_kdb_decode_int16 :: "octet list \<Rightarrow> int c_outcome" where
  "krb5_kdb_decode_int16 (b0 # b1 # _) = Done (i16 (uint b0 + 2 ^ 8 * uint b1))"
| "krb5_kdb_decode_int16 _ = Out_of_bounds"

fun krb5_kdb_decode_int32 :: "octet list \<Rightarrow> int c_outcome" where
  "krb5_kdb_decode_int32 (b0 # b1 # b2 # b3 # _) =
     Done (i32 (uint b0 + 2 ^ 8 * uint b1 + 2 ^ 16 * uint b2 + 2 ^ 24 * uint b3))"
| "krb5_kdb_decode_int32 _ = Out_of_bounds"

lemma uint_octet: "uint (word_of_int i :: octet) = i mod 256"
  by (simp add: uint_word_of_int)

lemma decode_encode_int16: "is_i16 i \<Longrightarrow> krb5_kdb_decode_int16 (krb5_kdb_encode_int16 i @ rest) = Done i"
proof -
  assume i: "is_i16 i"
  have "i mod 65536 = i mod 256 + 256 * (i div 256 mod 256)"
    using zmod_zmult2_eq [of 256 i 256] by simp
  then have "i16 (i mod 256 + 256 * (i div 256 mod 256)) = i16 (i mod 65536)" by simp
  also have "\<dots> = i" using i by (simp add: i16_def is_i16_def mod_simps)
  finally show ?thesis by (simp add: krb5_kdb_encode_int16_def uint_octet)
qed

lemma mod_split: "0 < c \<Longrightarrow> (i::int) mod (b * c) = i mod b + b * (i div b mod c)"
  by (subst add.commute) (rule zmod_zmult2_eq, rule less_imp_le)

lemma mod_bytes: "(i::int) mod 4294967296 =
  i mod 256 + 256 * (i div 256 mod 256) + 65536 * (i div 65536 mod 256) + 16777216 * (i div 16777216 mod 256)"
proof -
  have "i mod 4294967296 = i mod 16777216 + 16777216 * (i div 16777216 mod 256)"
    using mod_split [of 256 i 16777216] by simp
  also have "i mod 16777216 = i mod 65536 + 65536 * (i div 65536 mod 256)"
    using mod_split [of 256 i 65536] by simp
  also have "i mod 65536 = i mod 256 + 256 * (i div 256 mod 256)"
    using mod_split [of 256 i 256] by simp
  finally show ?thesis .
qed

lemma byte_powers: "(2::int) ^ 8 = 256" "(2::int) ^ 16 = 65536" "(2::int) ^ 24 = 16777216"
  by simp_all

lemma decode_encode_int32: "krb5_kdb_decode_int32 (krb5_kdb_encode_int32 i @ rest) = Done (i32 i)"
proof -
  have "krb5_kdb_decode_int32 (krb5_kdb_encode_int32 i @ rest) = Done (i32 (i mod 4294967296))"
    by (simp only: krb5_kdb_encode_int32_def append.simps krb5_kdb_decode_int32.simps uint_octet byte_powers mod_bytes)
  also have "i32 (i mod 4294967296) = i32 i"
    unfolding i32_def by (simp only: mod_add_left_eq)
  finally show ?thesis .
qed

lemma length_encode_int [simp]:
  "length (krb5_kdb_encode_int16 i) = 2" "length (krb5_kdb_encode_int32 i) = 4"
  by (simp_all add: krb5_kdb_encode_int16_def krb5_kdb_encode_int32_def)

section \<open>Tagged data\<close>

definition krb5_dbe_create_key_data :: "krb5_db_entry \<Rightarrow> krb5_db_entry" where
  "krb5_dbe_create_key_data entry =
     entry\<lparr>db_key_data := db_key_data entry @
       [\<lparr>key_data_ver = 0, key_data_kvno = 0, key_data_type = [0, 0], key_data_contents = [[], []]\<rparr>]\<rparr>"

text \<open>The first record of the type is overwritten; without one, a new record is put in front.\<close>

fun tl_overwrite :: "krb5_tl_data \<Rightarrow> krb5_tl_data list \<Rightarrow> krb5_tl_data list option" where
  "tl_overwrite new [] = None"
| "tl_overwrite new (t # ts) =
     (if tl_data_type t = tl_data_type new then Some (new # ts) else map_option ((#) t) (tl_overwrite new ts))"

definition krb5_dbe_update_tl_data :: "krb5_db_entry \<Rightarrow> krb5_tl_data \<Rightarrow> krb5_db_entry" where
  "krb5_dbe_update_tl_data entry new =
     (case tl_overwrite new (db_tl_data entry) of
        Some ts \<Rightarrow> entry\<lparr>db_tl_data := ts\<rparr>
      | None \<Rightarrow> entry\<lparr>db_tl_data := new # db_tl_data entry, db_n_tl_data := i16 (db_n_tl_data entry + 1)\<rparr>)"

definition krb5_dbe_lookup_tl_data :: "krb5_db_entry \<Rightarrow> int \<Rightarrow> octet list" where
  "krb5_dbe_lookup_tl_data entry ty =
     (case find (\<lambda>t. tl_data_type t = ty) (db_tl_data entry) of
        Some t \<Rightarrow> tl_data_contents t | None \<Rightarrow> [])"

definition KRB5_TL_LAST_PWD_CHANGE :: int where "KRB5_TL_LAST_PWD_CHANGE = 1"
definition KRB5_TL_MOD_PRINC :: int where "KRB5_TL_MOD_PRINC = 2"

definition krb5_dbe_update_last_pwd_change :: "krb5_db_entry \<Rightarrow> krb5_timestamp \<Rightarrow> krb5_db_entry" where
  "krb5_dbe_update_last_pwd_change entry stamp =
     krb5_dbe_update_tl_data entry
       \<lparr>tl_data_type = KRB5_TL_LAST_PWD_CHANGE, tl_data_contents = krb5_kdb_encode_int32 stamp\<rparr>"

definition krb5_dbe_lookup_last_pwd_change :: "krb5_db_entry \<Rightarrow> krb5_timestamp c_outcome" where
  "krb5_dbe_lookup_last_pwd_change entry =
     (let tl = krb5_dbe_lookup_tl_data entry KRB5_TL_LAST_PWD_CHANGE
      in if length tl \<noteq> 4 then Done 0 else krb5_kdb_decode_int32 tl)"

text \<open>
  The length of a record is a 16-bit integer.  A name that is too long makes it negative, and
  \<open>malloc\<close> refuses that size.
\<close>

definition krb5_dbe_update_mod_princ_data ::
  "krb5_db_entry \<Rightarrow> krb5_timestamp \<Rightarrow> krb5_principal \<Rightarrow> krb5_db_entry c_outcome" where
  "krb5_dbe_update_mod_princ_data entry mod_date mod_princ =
     (case krb5_unparse_name mod_princ of
        None \<Rightarrow> Out_of_bounds
      | Some name \<Rightarrow>
          let buf = krb5_kdb_encode_int32 mod_date @ octets name; len = i16 (int (length buf))
          in if len < 0 then Error ENOMEM
             else Done (krb5_dbe_update_tl_data entry
                    \<lparr>tl_data_type = KRB5_TL_MOD_PRINC, tl_data_contents = take (nat len) buf\<rparr>))"

text \<open>\<open>krb5_parse_name\<close> on the bytes at a pointer, which must contain a NUL.\<close>

definition parse_name_at ::
  "(string \<Rightarrow> krb5_principal krb5_result) \<Rightarrow> octet list \<Rightarrow> krb5_principal c_outcome" where
  "parse_name_at parse loc =
     (if 0 \<in> set loc then (case parse (octets_text loc) of Inl e \<Rightarrow> Error e | Inr p \<Rightarrow> Done p)
      else Out_of_bounds)"

definition krb5_dbe_lookup_mod_princ_data ::
  "(string \<Rightarrow> krb5_principal krb5_result) \<Rightarrow> krb5_db_entry \<Rightarrow> (krb5_timestamp \<times> krb5_principal) c_outcome" where
  "krb5_dbe_lookup_mod_princ_data parse entry =
     (let tl = krb5_dbe_lookup_tl_data entry KRB5_TL_MOD_PRINC
      in if length tl < 5 \<or> last tl \<noteq> 0 then Error KRB5_KDB_TRUNCATED_RECORD
         else bindO (krb5_kdb_decode_int32 tl) (\<lambda>mod_time.
              bindO (parse_name_at parse (drop 4 tl)) (\<lambda>mod_princ. Done (mod_time, mod_princ))))"

section \<open>Records\<close>

definition KRB5_KDB_V1_BASE_LENGTH :: int where "KRB5_KDB_V1_BASE_LENGTH = 38"
definition KRB5_KDB_V1_KEY_DATA_ARRAY :: int where "KRB5_KDB_V1_KEY_DATA_ARRAY = 2"

definition krb5_encode_princ_dbkey :: "krb5_principal \<Rightarrow> string option" where
  "krb5_encode_princ_dbkey p = krb5_unparse_name p"

text \<open>
  The size computed for the record, before anything is written.  It is summed up without the
  wrap-around of the 32-bit field that holds it: a record of two gigabytes is not considered.
\<close>

definition content_length :: "krb5_db_entry \<Rightarrow> string \<Rightarrow> int" where
  "content_length entry name =
     db_len entry + int (length (db_e_data entry)) + int (length name) + 2 +
     sum_list (map (\<lambda>t. int (length (tl_data_contents t)) + 4) (db_tl_data entry)) +
     sum_list (map (\<lambda>k. 4 + sum_list (map (\<lambda>j. int (length (key_data_contents k ! j)) + 4) [0..<nat (key_data_ver k)]))
       (db_key_data entry))"

definition encode_base :: "krb5_db_entry \<Rightarrow> octet list" where
  "encode_base entry =
     krb5_kdb_encode_int16 (db_len entry) @
     krb5_kdb_encode_int32 (sint (db_attributes entry)) @
     krb5_kdb_encode_int32 (db_max_life entry) @
     krb5_kdb_encode_int32 (db_max_renewable_life entry) @
     krb5_kdb_encode_int32 (db_expiration entry) @
     krb5_kdb_encode_int32 (db_pw_expiration entry) @
     krb5_kdb_encode_int32 (db_last_success entry) @
     krb5_kdb_encode_int32 (db_last_failed entry) @
     krb5_kdb_encode_int32 (db_fail_auth_count entry) @
     krb5_kdb_encode_int16 (db_n_tl_data entry) @
     krb5_kdb_encode_int16 (int (length (db_key_data entry)))"

definition encode_tl_data :: "krb5_tl_data \<Rightarrow> octet list" where
  "encode_tl_data t =
     krb5_kdb_encode_int16 (tl_data_type t) @
     krb5_kdb_encode_int16 (int (length (tl_data_contents t))) @ tl_data_contents t"

definition encode_slot :: "krb5_key_data \<Rightarrow> nat \<Rightarrow> octet list" where
  "encode_slot k j =
     krb5_kdb_encode_int16 (key_data_type k ! j) @
     krb5_kdb_encode_int16 (int (length (key_data_contents k ! j))) @ key_data_contents k ! j"

definition encode_key_data :: "krb5_key_data \<Rightarrow> octet list" where
  "encode_key_data k =
     krb5_kdb_encode_int16 (key_data_ver k) @ krb5_kdb_encode_int16 (key_data_kvno k) @
     concat (map (encode_slot k) [0..<nat (key_data_ver k)])"

definition krb5_encode_princ_contents :: "krb5_db_entry \<Rightarrow> (int \<times> octet list) c_outcome" where
  "krb5_encode_princ_contents entry =
     (case krb5_unparse_name (db_princ entry) of
        None \<Rightarrow> Out_of_bounds
      | Some name \<Rightarrow>
          if int (length (db_tl_data entry)) \<noteq> db_n_tl_data entry then Error KRB5_KDB_TRUNCATED_RECORD
          else if list_ex (\<lambda>k. key_data_ver k > KRB5_KDB_V1_KEY_DATA_ARRAY) (db_key_data entry) then Out_of_bounds
          else if db_len entry \<noteq> KRB5_KDB_V1_BASE_LENGTH then Aborted
          else Done (content_length entry name,
                 encode_base entry @ db_e_data entry @
                 krb5_kdb_encode_int16 (i16 (int (length name))) @ octets name @
                 concat (map encode_tl_data (db_tl_data entry)) @
                 concat (map encode_key_data (db_key_data entry))))"

text \<open>Reading at \<open>nextloc\<close> and advancing it.\<close>

definition get_int16 :: "octet list \<Rightarrow> (int \<times> octet list) c_outcome" where
  "get_int16 loc = bindO (krb5_kdb_decode_int16 loc) (\<lambda>i. Done (i, drop 2 loc))"

definition get_int32 :: "octet list \<Rightarrow> (int \<times> octet list) c_outcome" where
  "get_int32 loc = bindO (krb5_kdb_decode_int32 loc) (\<lambda>i. Done (i, drop 4 loc))"

definition get_bytes :: "int \<Rightarrow> octet list \<Rightarrow> (octet list \<times> octet list) c_outcome" where
  "get_bytes n loc =
     (if int (length loc) < n then Out_of_bounds else Done (take (nat n) loc, drop (nat n) loc))"

text \<open>The fixed fields; the number of keys is returned beside the entry.\<close>

definition decode_base :: "octet list \<Rightarrow> (krb5_db_entry \<times> int \<times> octet list) c_outcome" where
  "decode_base loc =
     bindO (get_int16 loc) (\<lambda>(len, loc).
     bindO (get_int32 loc) (\<lambda>(attributes, loc).
     bindO (get_int32 loc) (\<lambda>(max_life, loc).
     bindO (get_int32 loc) (\<lambda>(max_renewable_life, loc).
     bindO (get_int32 loc) (\<lambda>(expiration, loc).
     bindO (get_int32 loc) (\<lambda>(pw_expiration, loc).
     bindO (get_int32 loc) (\<lambda>(last_success, loc).
     bindO (get_int32 loc) (\<lambda>(last_failed, loc).
     bindO (get_int32 loc) (\<lambda>(fail_auth_count, loc).
     bindO (get_int16 loc) (\<lambda>(n_tl_data, loc).
     if n_tl_data < 0 then Error KRB5_KDB_TRUNCATED_RECORD
     else bindO (get_int16 loc) (\<lambda>(n_key_data, loc).
     if n_key_data < 0 then Error KRB5_KDB_TRUNCATED_RECORD
     else Done (\<lparr>db_len = len, db_attributes = word_of_int attributes, db_max_life = max_life,
                 db_max_renewable_life = max_renewable_life, db_expiration = expiration,
                 db_pw_expiration = pw_expiration, db_last_success = last_success,
                 db_last_failed = last_failed, db_fail_auth_count = fail_auth_count mod 2 ^ 32,
                 db_n_tl_data = n_tl_data, db_e_data = [],
                 db_princ = \<lparr>p_realm = [], p_data = [], p_type = 0\<rparr>,
                 db_tl_data = [], db_key_data = []\<rparr>, n_key_data, loc))))))))))))"

fun decode_tl_data :: "nat \<Rightarrow> octet list \<Rightarrow> int \<Rightarrow> (krb5_tl_data list \<times> octet list \<times> int) c_outcome" where
  "decode_tl_data 0 loc sizeleft = Done ([], loc, sizeleft)"
| "decode_tl_data (Suc n) loc sizeleft =
     (if sizeleft - 4 < 0 then Error KRB5_KDB_TRUNCATED_RECORD
      else bindO (get_int16 loc) (\<lambda>(ty, loc).
           bindO (get_int16 loc) (\<lambda>(len, loc).
           if sizeleft - 4 - len < 0 then Error KRB5_KDB_TRUNCATED_RECORD
           else if len < 0 then Error ENOMEM
           else bindO (get_bytes len loc) (\<lambda>(contents, loc).
                bindO (decode_tl_data n loc (sizeleft - 4 - len)) (\<lambda>(ts, loc, sizeleft).
                Done (\<lparr>tl_data_type = ty, tl_data_contents = contents\<rparr> # ts, loc, sizeleft))))))"

fun decode_slots :: "nat \<Rightarrow> octet list \<Rightarrow> int \<Rightarrow> ((int \<times> octet list) list \<times> octet list \<times> int) c_outcome" where
  "decode_slots 0 loc sizeleft = Done ([], loc, sizeleft)"
| "decode_slots (Suc n) loc sizeleft =
     (if sizeleft - 4 < 0 then Error KRB5_KDB_TRUNCATED_RECORD
      else bindO (get_int16 loc) (\<lambda>(ty, loc).
           bindO (get_int16 loc) (\<lambda>(len, loc).
           if sizeleft - 4 - len < 0 then Error KRB5_KDB_TRUNCATED_RECORD
           else if len < 0 then Error ENOMEM
           else bindO (get_bytes len loc) (\<lambda>(contents, loc).
                bindO (decode_slots n loc (sizeleft - 4 - len)) (\<lambda>(ss, loc, sizeleft).
                Done ((ty, contents) # ss, loc, sizeleft))))))"

fun decode_key_data :: "nat \<Rightarrow> octet list \<Rightarrow> int \<Rightarrow> (krb5_key_data list \<times> octet list \<times> int) c_outcome" where
  "decode_key_data 0 loc sizeleft = Done ([], loc, sizeleft)"
| "decode_key_data (Suc n) loc sizeleft =
     (if sizeleft - 4 < 0 then Error KRB5_KDB_TRUNCATED_RECORD
      else bindO (get_int16 loc) (\<lambda>(ver, loc).
           bindO (get_int16 loc) (\<lambda>(kvno, loc).
           if ver > KRB5_KDB_V1_KEY_DATA_ARRAY then Aborted
           else bindO (decode_slots (nat ver) loc (sizeleft - 4)) (\<lambda>(ss, loc, sizeleft).
                bindO (decode_key_data n loc sizeleft) (\<lambda>(ks, loc, sizeleft).
                Done (\<lparr>key_data_ver = ver, key_data_kvno = kvno,
                       key_data_type = map fst ss @ replicate (2 - length ss) 0,
                       key_data_contents = map snd ss @ replicate (2 - length ss) []\<rparr> # ks, loc, sizeleft))))))"

text \<open>
  Extra data are copied without a look at \<open>sizeleft\<close>, and the name is parsed before its length
  is compared with what is left.
\<close>

definition krb5_decode_princ_contents ::
  "(string \<Rightarrow> krb5_principal krb5_result) \<Rightarrow> octet list \<Rightarrow> krb5_db_entry c_outcome" where
  "krb5_decode_princ_contents parse content =
     (let sizeleft = int (length content) - KRB5_KDB_V1_BASE_LENGTH
      in if sizeleft < 0 then Error KRB5_KDB_TRUNCATED_RECORD
         else bindO (decode_base content) (\<lambda>(entry, n_key_data, loc).
              bindO (get_bytes (max 0 (db_len entry - KRB5_KDB_V1_BASE_LENGTH)) loc) (\<lambda>(e_data, loc).
              if sizeleft - 2 < 0 then Error KRB5_KDB_TRUNCATED_RECORD
              else bindO (get_int16 loc) (\<lambda>(i, loc).
                   bindO (parse_name_at parse loc) (\<lambda>princ.
                   if i \<noteq> int (strlen (octets_text loc)) + 1 \<or> sizeleft - 2 < i then Error KRB5_KDB_TRUNCATED_RECORD
                   else bindO (decode_tl_data (nat (db_n_tl_data entry)) (drop (nat i) loc) (sizeleft - 2 - i))
                          (\<lambda>(tls, loc, sizeleft).
                        bindO (decode_key_data (nat n_key_data) loc sizeleft) (\<lambda>(keys, loc, sizeleft).
                        Done (entry\<lparr>db_e_data := e_data, db_princ := princ,
                                     db_tl_data := tls, db_key_data := keys\<rparr>)))))))) "

section \<open>Tagged data as a map\<close>

text \<open>
  What the users of tagged data rely on: a lookup sees the last update of its own type and no
  update of another type.
\<close>

locale tagged_data =
  fixes update :: "'e \<Rightarrow> krb5_tl_data \<Rightarrow> 'e" and lookup :: "'e \<Rightarrow> int \<Rightarrow> octet list"
  assumes lookup_update: "lookup (update e t) ty = (if ty = tl_data_type t then tl_data_contents t else lookup e ty)"
begin

lemma update_twice: "tl_data_type s = tl_data_type t \<Longrightarrow> lookup (update (update e s) t) = lookup (update e t)"
  by (rule ext) (simp add: lookup_update)

lemma update_commute:
  "tl_data_type s \<noteq> tl_data_type t \<Longrightarrow> lookup (update (update e s) t) = lookup (update (update e t) s)"
  by (rule ext) (simp add: lookup_update)

lemma lookup_after_updates:
  "lookup (foldl update e ts) ty =
     (case find (\<lambda>t. tl_data_type t = ty) (rev ts) of Some t \<Rightarrow> tl_data_contents t | None \<Rightarrow> lookup e ty)"
  by (induction ts rule: rev_induct) (simp_all add: lookup_update)

end

lemma tl_overwrite_Some:
  "tl_overwrite new ts = Some ts' \<Longrightarrow>
   (case find (\<lambda>t. tl_data_type t = ty) ts' of Some t \<Rightarrow> tl_data_contents t | None \<Rightarrow> []) =
   (if ty = tl_data_type new then tl_data_contents new
    else case find (\<lambda>t. tl_data_type t = ty) ts of Some t \<Rightarrow> tl_data_contents t | None \<Rightarrow> [])"
  by (induction ts arbitrary: ts') (auto split: if_splits)

interpretation tl: tagged_data krb5_dbe_update_tl_data krb5_dbe_lookup_tl_data
proof unfold_locales
  fix e t ty
  show "krb5_dbe_lookup_tl_data (krb5_dbe_update_tl_data e t) ty =
      (if ty = tl_data_type t then tl_data_contents t else krb5_dbe_lookup_tl_data e ty)"
    by (cases "tl_overwrite t (db_tl_data e)")
      (simp_all add: krb5_dbe_update_tl_data_def krb5_dbe_lookup_tl_data_def tl_overwrite_Some)
qed

lemma tl_overwrite_types:
  "case tl_overwrite new ts of
     Some ts' \<Rightarrow> map tl_data_type ts' = map tl_data_type ts \<and> tl_data_type new \<in> tl_data_type ` set ts
   | None \<Rightarrow> tl_data_type new \<notin> tl_data_type ` set ts"
  by (induction ts) (auto split: option.splits if_splits)

text \<open>The invariant of the list: its length is \<open>n_tl_data\<close> and no type occurs twice.\<close>

definition wf_tl :: "krb5_db_entry \<Rightarrow> bool" where
  "wf_tl e \<longleftrightarrow> db_n_tl_data e = int (length (db_tl_data e)) \<and> distinct (map tl_data_type (db_tl_data e))"

lemma update_tl_data_wf:
  assumes "wf_tl e" and "length (db_tl_data e) < 32767"
  shows "wf_tl (krb5_dbe_update_tl_data e t)"
proof (cases "tl_overwrite t (db_tl_data e)")
  case None
  with assms tl_overwrite_types [of t "db_tl_data e"] show ?thesis
    by (simp add: wf_tl_def krb5_dbe_update_tl_data_def i16_def)
next
  case (Some ts)
  with tl_overwrite_types [of t "db_tl_data e"] have "map tl_data_type ts = map tl_data_type (db_tl_data e)"
    and "length ts = length (db_tl_data e)"
    by (auto dest: arg_cong [where f = length])
  with assms Some show ?thesis by (simp add: wf_tl_def krb5_dbe_update_tl_data_def)
qed

lemma update_tl_data_length:
  "length (db_tl_data (krb5_dbe_update_tl_data e t)) \<le> Suc (length (db_tl_data e))"
  using tl_overwrite_types [of t "db_tl_data e"]
  by (auto simp: krb5_dbe_update_tl_data_def split: option.splits dest: arg_cong [where f = length])

section \<open>Reading back what was written\<close>

lemma get_encoded:
  "is_i16 i \<Longrightarrow> get_int16 (krb5_kdb_encode_int16 i @ rest) = Done (i, rest)"
  "is_i32 i \<Longrightarrow> get_int32 (krb5_kdb_encode_int32 i @ rest) = Done (i, rest)"
  "n = int (length bs) \<Longrightarrow> get_bytes n (bs @ rest) = Done (bs, rest)"
  by (simp_all add: get_int16_def get_int32_def get_bytes_def decode_encode_int16 decode_encode_int32 i32_id)

definition wf_bytes :: "octet list \<Rightarrow> bool" where
  "wf_bytes bs \<longleftrightarrow> length bs \<le> 32767"

definition wf_key_data :: "krb5_key_data \<Rightarrow> bool" where
  "wf_key_data k \<longleftrightarrow> 0 \<le> key_data_ver k \<and> key_data_ver k \<le> 2 \<and> is_i16 (key_data_kvno k) \<and>
     length (key_data_type k) = 2 \<and> length (key_data_contents k) = 2 \<and>
     list_all is_i16 (key_data_type k) \<and> list_all wf_bytes (key_data_contents k) \<and>
     list_all (\<lambda>j. key_data_type k ! j = 0 \<and> key_data_contents k ! j = []) [nat (key_data_ver k)..<2]"

lemma wf_bytes_i16: "wf_bytes bs \<Longrightarrow> is_i16 (int (length bs))"
  by (simp add: wf_bytes_def is_i16_def)

lemma decode_encode_tl:
  "list_all (\<lambda>t. is_i16 (tl_data_type t) \<and> wf_bytes (tl_data_contents t)) ts \<Longrightarrow> 0 \<le> sz \<Longrightarrow>
   decode_tl_data (length ts) (concat (map encode_tl_data ts) @ rest)
     (int (length (concat (map encode_tl_data ts))) + sz) = Done (ts, rest, sz)"
proof (induction ts)
  case (Cons t ts)
  have e: "int (length (concat (map encode_tl_data (t # ts)))) + sz - 4 - int (length (tl_data_contents t)) =
      int (length (concat (map encode_tl_data ts))) + sz"
    by (simp add: encode_tl_data_def)
  have "0 \<le> int (length (concat (map encode_tl_data (t # ts)))) + sz - 4"
    using Cons.prems by (simp add: encode_tl_data_def)
  with Cons e show ?case
    by (simp add: encode_tl_data_def get_encoded wf_bytes_i16)
qed simp

lemma decode_encode_slots:
  "list_all (\<lambda>j. is_i16 (key_data_type k ! j) \<and> wf_bytes (key_data_contents k ! j)) js \<Longrightarrow> 0 \<le> sz \<Longrightarrow>
   decode_slots (length js) (concat (map (encode_slot k) js) @ rest)
     (int (length (concat (map (encode_slot k) js))) + sz) =
   Done (map (\<lambda>j. (key_data_type k ! j, key_data_contents k ! j)) js, rest, sz)"
proof (induction js)
  case (Cons j js)
  have e: "int (length (concat (map (encode_slot k) (j # js)))) + sz - 4 - int (length (key_data_contents k ! j)) =
      int (length (concat (map (encode_slot k) js))) + sz"
    by (simp add: encode_slot_def)
  have "0 \<le> int (length (concat (map (encode_slot k) (j # js)))) + sz - 4"
    using Cons.prems by (simp add: encode_slot_def)
  with Cons e show ?case
    by (simp add: encode_slot_def get_encoded wf_bytes_i16)
qed simp

lemma pad_slots:
  assumes "length xs = 2" and "n \<le> 2" and "list_all (\<lambda>j. xs ! j = z) [n..<2]"
  shows "map (\<lambda>j. xs ! j) [0..<n] @ replicate (2 - n) z = xs"
  using assms by (intro nth_equalityI) (auto simp: nth_append list_all_iff)

lemma decode_encode_keys:
  "list_all wf_key_data ks \<Longrightarrow> 0 \<le> sz \<Longrightarrow>
   decode_key_data (length ks) (concat (map encode_key_data ks) @ rest)
     (int (length (concat (map encode_key_data ks))) + sz) = Done (ks, rest, sz)"
proof (induction ks)
  case (Cons k ks)
  let ?n = "nat (key_data_ver k)"
  have wf: "0 \<le> key_data_ver k" "key_data_ver k \<le> 2" "is_i16 (key_data_ver k)" "is_i16 (key_data_kvno k)"
    "length (key_data_type k) = 2" "length (key_data_contents k) = 2"
    using Cons.prems by (auto simp: wf_key_data_def is_i16_def)
  have slots: "list_all (\<lambda>j. is_i16 (key_data_type k ! j) \<and> wf_bytes (key_data_contents k ! j)) [0..<?n]"
    using Cons.prems by (auto simp: wf_key_data_def list_all_length)
  have pad: "map (\<lambda>j. key_data_type k ! j) [0..<?n] @ replicate (2 - ?n) 0 = key_data_type k"
    "map (\<lambda>j. key_data_contents k ! j) [0..<?n] @ replicate (2 - ?n) [] = key_data_contents k"
    using Cons.prems by (auto simp: wf_key_data_def list_all_iff intro!: pad_slots)
  define S where "S = int (length (concat (map encode_key_data (k # ks)))) + sz"
  define T where "T = int (length (concat (map encode_key_data ks))) + sz"
  have S: "S - 4 = int (length (concat (map (encode_slot k) [0..<?n]))) + T" and T: "0 \<le> T"
    using Cons.prems by (simp_all add: S_def T_def encode_key_data_def)
  then have "\<not> S - 4 < 0" by simp
  moreover have loc: "concat (map encode_key_data (k # ks)) @ rest =
      krb5_kdb_encode_int16 (key_data_ver k) @ krb5_kdb_encode_int16 (key_data_kvno k) @
      concat (map (encode_slot k) [0..<?n]) @ (concat (map encode_key_data ks) @ rest)"
    by (simp add: encode_key_data_def)
  moreover have "decode_slots ?n (concat (map (encode_slot k) [0..<?n]) @ (concat (map encode_key_data ks) @ rest)) (S - 4) =
      Done (map (\<lambda>j. (key_data_type k ! j, key_data_contents k ! j)) [0..<?n], concat (map encode_key_data ks) @ rest, T)"
    using decode_encode_slots [OF slots T] by (simp add: S)
  moreover have "decode_key_data (length ks) (concat (map encode_key_data ks) @ rest) T = Done (ks, rest, sz)"
    using Cons by (simp add: T_def)
  ultimately show ?case
    unfolding S_def [symmetric] loc using wf pad
    by (simp add: get_encoded KRB5_KDB_V1_KEY_DATA_ARRAY_def comp_def)
qed simp

text \<open>An entry that fits the record format.\<close>

definition wf_entry :: "krb5_db_entry \<Rightarrow> bool" where
  "wf_entry e \<longleftrightarrow>
     db_len e = KRB5_KDB_V1_BASE_LENGTH \<and>
     list_all is_i32 [db_max_life e, db_max_renewable_life e, db_expiration e, db_pw_expiration e,
       db_last_success e, db_last_failed e] \<and>
     0 \<le> db_fail_auth_count e \<and> db_fail_auth_count e < 2 ^ 32 \<and>
     db_n_tl_data e = int (length (db_tl_data e)) \<and> length (db_tl_data e) \<le> 32767 \<and> length (db_key_data e) \<le> 32767 \<and>
     list_all (\<lambda>t. is_i16 (tl_data_type t) \<and> wf_bytes (tl_data_contents t)) (db_tl_data e) \<and>
     list_all wf_key_data (db_key_data e) \<and>
     p_data (db_princ e) \<noteq> [] \<and> p_realm (db_princ e) \<noteq> [] \<and> p_type (db_princ e) = KRB5_NT_PRINCIPAL \<and>
     unparse_totalsize (db_princ e) \<le> 32767"

lemma unat_octet_of_char: "unat (word_of_nat (of_char c) :: octet) = of_char c"
  by (simp add: unat_of_nat)

lemma of_char_NUL: "c = NUL \<longleftrightarrow> of_char c = (0::nat)"
  by (cases c) (auto simp: NUL_def)

lemma octets_NUL: "0 \<in> set (octets s) \<longleftrightarrow> NUL \<in> set s"
proof -
  have "0 = (word_of_nat (of_char c) :: octet) \<longleftrightarrow> NUL = c" for c :: char
    using unat_octet_of_char [of c] of_char_NUL [of c] by (metis unat_eq_zero)
  then show ?thesis by (auto simp: octets_def image_iff)
qed

lemma octets_text_octets: "octets_text (octets s) = s"
  by (simp add: octets_def octets_text_def comp_def unat_octet_of_char)

lemma octets_text_append: "octets_text (xs @ ys) = octets_text xs @ octets_text ys"
  by (simp add: octets_text_def)

lemma octets_append: "octets (xs @ ys) = octets xs @ octets ys"
  by (simp add: octets_def)

text \<open>A printed name is found again in front of other data.\<close>

lemma unparse_parse_at:
  assumes "p_data p \<noteq> []" and "p_realm p \<noteq> []" and "p_type p = KRB5_NT_PRINCIPAL"
  obtains name where "krb5_unparse_name p = Some name" "length name = unparse_totalsize p"
    "parse_name_at (\<lambda>s. snd (krb5_parse_name gdr dr s)) (octets name @ rest) = Done p"
    "strlen (octets_text (octets name @ rest)) + 1 = length name" "last (octets name) = 0" "1 < length name"
proof -
  from assms(1) obtain c cs where d: "p_data p = c # cs" by (cases "p_data p") auto
  let ?u = "quote_string c @ tail_string cs (p_realm p)"
  have u: "krb5_unparse_name p = Some (?u @ [NUL])"
    by (simp add: krb5_unparse_name_eq unparse_write_Cons [OF d])
  have bytes: "octets_text (octets (?u @ [NUL]) @ rest) = ?u @ NUL # octets_text rest"
    by (simp add: octets_text_append octets_text_octets)
  show thesis
  proof (rule that [OF u])
    have "length (tail_string cs (p_realm p)) =
        quoted_size (p_realm p) + 1 + sum_list (map (\<lambda>c. quoted_size c + 1) cs)"
      by (induction cs) (simp_all add: length_quote_string)
    then show "length (?u @ [NUL]) = unparse_totalsize p"
      by (simp add: unparse_totalsize_def d length_quote_string)
    have "NUL \<in> set (?u @ [NUL])" by simp
    then have "0 \<in> set (octets (?u @ [NUL]) @ rest)" using octets_NUL by auto
    then show "parse_name_at (\<lambda>s. snd (krb5_parse_name gdr dr s)) (octets (?u @ [NUL]) @ rest) = Done p"
      using parse_printed [OF d assms(2), of gdr dr "octets_text rest"] assms(3)
      unfolding parse_name_at_def bytes by simp
    show "strlen (octets_text (octets (?u @ [NUL]) @ rest)) + 1 = length (?u @ [NUL])"
      unfolding bytes strlen_def using c_str_terminated [OF NUL_notin_printed [of c cs "p_realm p"]] by simp
    show "last (octets (?u @ [NUL])) = 0" by (simp add: octets_append octets_def NUL_def)
    show "1 < length (?u @ [NUL])" by (simp add: tail_string_def)
  qed
qed

lemma decode_encode_base:
  assumes "wf_entry e"
  shows "decode_base (encode_base e @ rest) =
    Done (e\<lparr>db_e_data := [], db_princ := \<lparr>p_realm = [], p_data = [], p_type = 0\<rparr>, db_tl_data := [], db_key_data := []\<rparr>,
      int (length (db_key_data e)), rest)"
proof -
  have i: "is_i32 (sint (db_attributes e))"
    using sint_greater_eq [of "db_attributes e"] sint_less [of "db_attributes e"] by (simp add: is_i32_def)
  have f: "get_int32 (krb5_kdb_encode_int32 (db_fail_auth_count e) @ r) = Done (i32 (db_fail_auth_count e), r)" for r
    by (simp add: get_int32_def decode_encode_int32)
  have "i32 (db_fail_auth_count e) mod 2 ^ 32 = db_fail_auth_count e"
    using assms by (simp add: wf_entry_def i32_def mod_simps)
  then show ?thesis
    using assms f unfolding wf_entry_def encode_base_def decode_base_def
    by (simp add: get_encoded i is_i16_def KRB5_KDB_V1_BASE_LENGTH_def)
qed

lemma length_tls: "int (length (concat (map encode_tl_data ts))) =
  sum_list (map (\<lambda>t. int (length (tl_data_contents t)) + 4) ts)"
  by (induction ts) (simp_all add: encode_tl_data_def)

lemma length_slots: "int (length (concat (map (encode_slot k) js))) =
  sum_list (map (\<lambda>j. int (length (key_data_contents k ! j)) + 4) js)"
  by (induction js) (simp_all add: encode_slot_def)

lemma length_keys: "int (length (concat (map encode_key_data ks))) =
  sum_list (map (\<lambda>k. 4 + sum_list (map (\<lambda>j. int (length (key_data_contents k ! j)) + 4) [0..<nat (key_data_ver k)])) ks)"
proof (induction ks)
  case (Cons k ks)
  then show ?case using length_slots [of k "[0..<nat (key_data_ver k)]"] by (simp add: encode_key_data_def)
qed simp

lemma encode_length:
  assumes "krb5_encode_princ_contents e = Done (n, bytes)"
  shows "n = int (length bytes)"
  using assms length_tls [of "db_tl_data e"] length_keys [of "db_key_data e"]
  by (auto simp: krb5_encode_princ_contents_def content_length_def encode_base_def octets_def
      KRB5_KDB_V1_BASE_LENGTH_def split: option.splits if_splits)

section \<open>Properties of the record format\<close>

text \<open>
  C15: decoding the record written for an entry without extra data gives the entry back, and the
  record has exactly the length that was computed for it.
\<close>

theorem decode_encode_entry:
  assumes "wf_entry e" and "db_e_data e = []"
  shows "\<exists>bytes. krb5_encode_princ_contents e = Done (int (length bytes), bytes) \<and>
    krb5_decode_princ_contents (\<lambda>s. snd (krb5_parse_name gdr dr s)) bytes = Done e"
proof -
  let ?tls = "concat (map encode_tl_data (db_tl_data e))" and ?keys = "concat (map encode_key_data (db_key_data e))"
  have wf: "p_data (db_princ e) \<noteq> []" "p_realm (db_princ e) \<noteq> []" "p_type (db_princ e) = KRB5_NT_PRINCIPAL"
    "unparse_totalsize (db_princ e) \<le> 32767"
    "list_all (\<lambda>t. is_i16 (tl_data_type t) \<and> wf_bytes (tl_data_contents t)) (db_tl_data e)"
    "list_all wf_key_data (db_key_data e)" "db_n_tl_data e = int (length (db_tl_data e))"
    "db_len e = KRB5_KDB_V1_BASE_LENGTH"
    using assms(1) by (auto simp: wf_entry_def)
  obtain name where n: "krb5_unparse_name (db_princ e) = Some name" "length name = unparse_totalsize (db_princ e)"
    "parse_name_at (\<lambda>s. snd (krb5_parse_name gdr dr s)) (octets name @ ?tls @ ?keys) = Done (db_princ e)"
    "strlen (octets_text (octets name @ ?tls @ ?keys)) + 1 = length name"
    using unparse_parse_at [OF wf(1-3)] by metis
  define bytes where "bytes = encode_base e @ krb5_kdb_encode_int16 (int (length name)) @ octets name @ ?tls @ ?keys"
  have i16: "is_i16 (int (length name))" using n(2) wf(4) by (simp add: is_i16_def)
  have ver: "\<not> list_ex (\<lambda>k. key_data_ver k > KRB5_KDB_V1_KEY_DATA_ARRAY) (db_key_data e)"
    using wf(6) by (auto simp: list_all_iff list_ex_iff wf_key_data_def KRB5_KDB_V1_KEY_DATA_ARRAY_def)
  have base: "length (encode_base e) = 38" by (simp add: encode_base_def)
  have "krb5_encode_princ_contents e = Done (content_length e name, bytes)"
    using n(1) wf(7,8) ver assms(2) i16 by (simp add: krb5_encode_princ_contents_def bytes_def i16_id)
  moreover from encode_length [OF this] have "content_length e name = int (length bytes)" .
  moreover have "krb5_decode_princ_contents (\<lambda>s. snd (krb5_parse_name gdr dr s)) bytes = Done e"
  proof -
    define k where "k = int (length ?keys)"
    define t where "t = int (length ?tls) + k"
    have sz: "int (length bytes) - KRB5_KDB_V1_BASE_LENGTH = int (length name) + 2 + t"
      by (simp add: bytes_def base k_def t_def KRB5_KDB_V1_BASE_LENGTH_def octets_def)
    have k: "0 \<le> k" "0 \<le> t" by (simp_all add: k_def t_def)
    have tl: "decode_tl_data (nat (db_n_tl_data e)) (?tls @ ?keys) t = Done (db_tl_data e, ?keys, k)"
      using decode_encode_tl [OF wf(5) k(1), of ?keys] wf(7) by (simp add: t_def)
    have ks: "decode_key_data (length (db_key_data e)) ?keys k = Done (db_key_data e, [], 0)"
      using decode_encode_keys [OF wf(6), of 0 "[]"] by (simp add: k_def)
    have drop: "drop (length name) (octets name @ ?tls @ ?keys) = ?tls @ ?keys" by (simp add: octets_def)
    show ?thesis
      unfolding krb5_decode_princ_contents_def Let_def sz
      using k tl ks n(3,4) drop i16 wf(8) assms(2)
      by (simp add: bytes_def decode_encode_base [OF assms(1)] get_bytes_def get_encoded)
  qed
  ultimately show ?thesis by metis
qed

definition sample_entry :: krb5_db_entry where
  "sample_entry =
     \<lparr>db_len = 38, db_attributes = KRB5_KDB_REQUIRES_PRE_AUTH, db_max_life = 36000, db_max_renewable_life = 0,
      db_expiration = 0, db_pw_expiration = 985000000, db_last_success = 0, db_last_failed = -1,
      db_fail_auth_count = 3, db_n_tl_data = 1, db_e_data = [],
      db_princ = \<lparr>p_realm = ''R'', p_data = [''joe''], p_type = KRB5_NT_PRINCIPAL\<rparr>,
      db_tl_data = [\<lparr>tl_data_type = 1, tl_data_contents = [1, 2, 3, 4]\<rparr>],
      db_key_data = [\<lparr>key_data_ver = 1, key_data_kvno = 2, key_data_type = [1, 0], key_data_contents = [[9, 8, 7], []]\<rparr>]\<rparr>"

theorem decode_encode_entry_witness:
  "\<exists>bytes. krb5_encode_princ_contents sample_entry = Done (int (length bytes), bytes) \<and>
    krb5_decode_princ_contents (\<lambda>s. snd (krb5_parse_name (Inl KRB5_PARSE_MALFORMED) None s)) bytes = Done sample_entry"
proof (rule decode_encode_entry)
  show "wf_entry sample_entry"
    by (simp add: wf_entry_def sample_entry_def KRB5_KDB_V1_BASE_LENGTH_def is_i32_def is_i16_def wf_bytes_def wf_key_data_def
        unparse_totalsize_def quoted_size_def needs_quote_def parse_chars upt_rec)
  show "db_e_data sample_entry = []" by (simp add: sample_entry_def)
qed

text \<open>
  Whatever entry is encoded, the bytes written are exactly as many as were allocated.
\<close>

theorem encode_fills_buffer:
  "case krb5_encode_princ_contents e of Done (n, bytes) \<Rightarrow> int (length bytes) = n | _ \<Rightarrow> True"
  using encode_length [of e] by (auto split: c_outcome.split)

lemma get_int_total:
  "2 \<le> length loc \<Longrightarrow> \<exists>i. get_int16 loc = Done (i, drop 2 loc)"
  "4 \<le> length loc \<Longrightarrow> \<exists>i. get_int32 loc = Done (i, drop 4 loc)"
proof -
  show "2 \<le> length loc \<Longrightarrow> \<exists>i. get_int16 loc = Done (i, drop 2 loc)"
    unfolding get_int16_def by (cases loc rule: krb5_kdb_decode_int16.cases) auto
  show "4 \<le> length loc \<Longrightarrow> \<exists>i. get_int32 loc = Done (i, drop 4 loc)"
    unfolding get_int32_def by (cases loc rule: krb5_kdb_decode_int32.cases) auto
qed

text \<open>
  \<open>within loc sz r\<close>: with \<open>sizeleft\<close> the length of what is left, the reader stays inside, and
  so it is again for what it leaves.
\<close>

definition within :: "octet list \<Rightarrow> int \<Rightarrow> ('a \<times> octet list \<times> int) c_outcome \<Rightarrow> bool" where
  "within loc sz r \<longleftrightarrow> (int (length loc) = sz \<longrightarrow>
     (case r of Done (_, loc', sz') \<Rightarrow> int (length loc') = sz' | Out_of_bounds \<Rightarrow> False | _ \<Rightarrow> True))"

lemma within_header:
  assumes "int (length loc) = sz" and "\<not> sz - 4 < 0"
  obtains i j where "get_int16 loc = Done (i, drop 2 loc)" "get_int16 (drop 2 loc) = Done (j, drop 4 loc)"
    "int (length (drop 4 loc)) = sz - 4"
proof -
  have len: "2 \<le> length loc" "2 \<le> length (drop 2 loc)" using assms by auto
  obtain i j where "get_int16 loc = Done (i, drop 2 loc)" "get_int16 (drop 2 loc) = Done (j, drop 2 (drop 2 loc))"
    using get_int_total(1) [OF len(1)] get_int_total(1) [OF len(2)] by metis
  then show thesis using that assms by (auto simp: of_nat_diff)
qed

lemma get_bytes_within:
  "0 \<le> n \<Longrightarrow> n \<le> int (length loc) \<Longrightarrow> get_bytes n loc = Done (take (nat n) loc, drop (nat n) loc)"
  by (simp add: get_bytes_def)

lemma decode_slots_within: "within loc sz (decode_slots n loc sz)"
proof (induction n arbitrary: loc sz)
  case 0
  then show ?case by (simp add: within_def)
next
  case (Suc n)
  show ?case
  proof (cases "int (length loc) = sz \<and> \<not> sz - 4 < 0")
    case True
    then obtain ty len where h: "get_int16 loc = Done (ty, drop 2 loc)" "get_int16 (drop 2 loc) = Done (len, drop 4 loc)"
      "int (length (drop 4 loc)) = sz - 4"
      using within_header by blast
    show ?thesis
    proof (cases "sz - 4 - len < 0 \<or> len < 0")
      case True
      with h show ?thesis by (auto simp: within_def)
    next
      case False
      then have "get_bytes len (drop 4 loc) = Done (take (nat len) (drop 4 loc), drop (nat len) (drop 4 loc))"
        using h(3) by (intro get_bytes_within) auto
      with Suc.IH [of "drop (nat len) (drop 4 loc)" "sz - 4 - len"] h False True show ?thesis
        by (cases "decode_slots n (drop (nat len) (drop 4 loc)) (sz - 4 - len)")
          (auto simp: within_def of_nat_diff)
    qed
  qed (auto simp: within_def)
qed

lemma within_bindO:
  assumes "within loc sz r" and "\<And>x loc' sz'. r = Done (x, loc', sz') \<Longrightarrow> within loc' sz' (f x loc' sz')"
  shows "within loc sz (bindO r (\<lambda>(x, loc', sz'). f x loc' sz'))"
  using assms by (cases r) (auto simp: within_def)

lemma decode_tl_slots:
  "decode_tl_data n loc sz = bindO (decode_slots n loc sz)
     (\<lambda>(ss, loc, sz). Done (map (\<lambda>(t, c). \<lparr>tl_data_type = t, tl_data_contents = c\<rparr>) ss, loc, sz))"
proof (induction n arbitrary: loc sz)
  case (Suc n)
  have bind: "bindO (bindO m f) g = bindO m (\<lambda>x. bindO (f x) g)"
    for m :: "'x c_outcome" and f :: "'x \<Rightarrow> 'y c_outcome" and g :: "'y \<Rightarrow> 'z c_outcome"
    by (cases m) auto
  show ?case
    by (simp add: Suc.IH bind case_prod_unfold if_distrib [of "\<lambda>m. bindO m _"] cong: if_cong)
qed simp

lemma decode_tl_within: "within loc sz (decode_tl_data n loc sz)"
  unfolding decode_tl_slots by (rule within_bindO [OF decode_slots_within]) (simp add: within_def)

lemma decode_key_within: "within loc sz (decode_key_data n loc sz)"
proof (induction n arbitrary: loc sz)
  case 0
  then show ?case by (simp add: within_def)
next
  case (Suc n)
  show ?case
  proof (cases "int (length loc) = sz \<and> \<not> sz - 4 < 0")
    case True
    then obtain ver kvno where h: "get_int16 loc = Done (ver, drop 2 loc)" "get_int16 (drop 2 loc) = Done (kvno, drop 4 loc)"
      "int (length (drop 4 loc)) = sz - 4"
      using within_header by blast
    let ?f = "\<lambda>ss loc sz. bindO (decode_key_data n loc sz) (\<lambda>(ks, loc, sz).
      Done (\<lparr>key_data_ver = ver, key_data_kvno = kvno, key_data_type = map fst ss @ replicate (2 - length ss) 0,
        key_data_contents = map snd ss @ replicate (2 - length ss) []\<rparr> # ks, loc, sz))"
    have "within (drop 4 loc) (sz - 4) (bindO (decode_slots (nat ver) (drop 4 loc) (sz - 4)) (\<lambda>(ss, loc, sz). ?f ss loc sz))"
      by (rule within_bindO [OF decode_slots_within], rule within_bindO [OF Suc.IH]) (simp add: within_def)
    with h True show ?thesis by (auto simp: within_def)
  qed (auto simp: within_def)
qed

text \<open>The base length stored in a record.\<close>

definition stored_len :: "octet list \<Rightarrow> int" where
  "stored_len content = (case content of b0 # b1 # _ \<Rightarrow> i16 (uint b0 + 2 ^ 8 * uint b1) | _ \<Rightarrow> 0)"

lemma get_int16_stored: "2 \<le> length loc \<Longrightarrow> get_int16 loc = Done (stored_len loc, drop 2 loc)"
  by (cases loc rule: krb5_kdb_decode_int16.cases) (simp_all add: get_int16_def stored_len_def)

text \<open>Of a record with all fixed fields only negative counts are refused.\<close>

lemma decode_base_result:
  assumes "38 \<le> length content"
  shows "if 0 \<le> stored_len (drop 34 content) \<and> 0 \<le> stored_len (drop 36 content)
    then \<exists>entry n. decode_base content = Done (entry, n, drop 38 content) \<and> db_len entry = stored_len content
    else decode_base content = Error KRB5_KDB_TRUNCATED_RECORD"
proof -
  have g: "\<exists>i. get_int32 (drop n content) = Done (i, drop (n + 4) content)" if "n + 4 \<le> 38" for n
    using get_int_total(2) [of "drop n content"] that assms by (simp add: add.commute)
  obtain i1 i2 i3 i4 i5 i6 i7 i8 where
    "get_int32 (drop 2 content) = Done (i1, drop 6 content)" "get_int32 (drop 6 content) = Done (i2, drop 10 content)"
    "get_int32 (drop 10 content) = Done (i3, drop 14 content)" "get_int32 (drop 14 content) = Done (i4, drop 18 content)"
    "get_int32 (drop 18 content) = Done (i5, drop 22 content)" "get_int32 (drop 22 content) = Done (i6, drop 26 content)"
    "get_int32 (drop 26 content) = Done (i7, drop 30 content)" "get_int32 (drop 30 content) = Done (i8, drop 34 content)"
    using g [of 2] g [of 6] g [of 10] g [of 14] g [of 18] g [of 22] g [of 26] g [of 30] by auto
  then show ?thesis
    using get_int16_stored [of content] get_int16_stored [of "drop 34 content"] get_int16_stored [of "drop 36 content"] assms
    by (simp add: decode_base_def)
qed

lemma decode_base_within:
  assumes "38 \<le> length content"
  shows "case decode_base content of
      Done (entry, n, loc) \<Rightarrow> loc = drop 38 content \<and> db_len entry = stored_len content
    | Out_of_bounds \<Rightarrow> False | _ \<Rightarrow> True"
  using decode_base_result [OF assms] by (auto split: if_splits)

lemma decode_rest_inside:
  assumes "int (length loc) = sz" and "0 < i" and "i \<le> sz"
  shows "bindO (decode_tl_data ntl (drop (nat i) loc) (sz - i)) (\<lambda>(tls, loc, sz).
    bindO (decode_key_data nkey loc sz) (\<lambda>(keys, loc, sz). Done (f tls keys))) \<noteq> Out_of_bounds"
proof -
  have "int (length (drop (nat i) loc)) = sz - i" using assms by simp
  with decode_tl_within [of "drop (nat i) loc" "sz - i" ntl] show ?thesis
  proof (cases "decode_tl_data ntl (drop (nat i) loc) (sz - i)")
    case (Done x)
    obtain tls loc' sz' where x: "x = (tls, loc', sz')" by (cases x) auto
    with decode_tl_within [of "drop (nat i) loc" "sz - i" ntl] \<open>int (length (drop (nat i) loc)) = sz - i\<close> Done
      decode_key_within [of loc' sz' nkey] show ?thesis
      by (cases "decode_key_data nkey loc' sz'") (auto simp: within_def)
  qed (auto simp: within_def)
qed

text \<open>
  C19: decoding never reads outside the record, provided the base length stored in it is not above
  the known one and the bytes from the principal name on contain a NUL; all other lengths in the
  record may be arbitrary.
\<close>

theorem decode_stays_inside:
  assumes "stored_len content \<le> KRB5_KDB_V1_BASE_LENGTH" and "0 \<in> set (drop 40 content)"
  shows "krb5_decode_princ_contents parse content \<noteq> Out_of_bounds"
proof -
  have len: "40 < length content" using assms(2) by (cases "length content \<le> 40") auto
  show ?thesis
  proof (cases "decode_base content")
    case (Done r)
    obtain entry n loc where r: "r = (entry, n, loc)" by (cases r) auto
    have loc: "loc = drop 38 content" "db_len entry = stored_len content"
      using decode_base_within [of content] len Done r by auto
    obtain i where i: "get_int16 (drop 38 content) = Done (i, drop 40 content)"
    proof -
      have "2 \<le> length (drop 38 content)" using len by simp
      from get_int_total(1) [OF this] that show thesis by auto
    qed
    have e: "get_bytes (max 0 (db_len entry - KRB5_KDB_V1_BASE_LENGTH)) loc = Done ([], loc)"
      using loc assms(1) by (simp add: get_bytes_def)
    define S where "S = int (length content) - KRB5_KDB_V1_BASE_LENGTH"
    have S: "\<not> S < 0" "\<not> S - 2 < 0" "int (length (drop 40 content)) = S - 2"
      using len by (simp_all add: S_def KRB5_KDB_V1_BASE_LENGTH_def)
    have "parse_name_at parse (drop 40 content) \<noteq> Out_of_bounds"
      using assms(2) by (auto simp: parse_name_at_def split: sum.splits)
    then show ?thesis
      using decode_rest_inside [OF S(3), where i = i and ntl = "nat (db_n_tl_data entry)" and nkey = "nat n"
          and f = "\<lambda>tls keys. entry\<lparr>db_e_data := [], db_princ := p, db_tl_data := tls, db_key_data := keys\<rparr>" for p]
      unfolding krb5_decode_princ_contents_def Let_def S_def [symmetric] Done r bindO.simps prod.case e
      unfolding loc(1) i if_not_P [OF S(1)] if_not_P [OF S(2)] bindO.simps prod.case
      by (cases "parse_name_at parse (drop 40 content)") auto
  qed (use decode_base_within [of content] len in \<open>auto simp: krb5_decode_princ_contents_def KRB5_KDB_V1_BASE_LENGTH_def\<close>)
qed

theorem decode_stays_inside_witness:
  "krb5_decode_princ_contents (\<lambda>_. Inl KRB5_PARSE_MALFORMED) (38 # 0 # replicate 44 0) \<noteq> Out_of_bounds"
  by (rule decode_stays_inside) (simp_all add: stored_len_def i16_def KRB5_KDB_V1_BASE_LENGTH_def)

text \<open>
  C40. A record that claims more base data than it has is read past its end: the extra data are
  copied without a look at the size.  Whatever the record holds otherwise, and whatever the name in
  it is parsed to, this happens for every record with all fixed fields whose stored length exceeds
  its size, unless one of the two counts before the extra data is negative.
\<close>

theorem decode_reads_past_end:
  assumes "38 \<le> length content" and "int (length content) < stored_len content"
  shows "krb5_decode_princ_contents parse content =
    (if 0 \<le> stored_len (drop 34 content) \<and> 0 \<le> stored_len (drop 36 content) then Out_of_bounds
     else Error KRB5_KDB_TRUNCATED_RECORD)"
proof -
  have "get_bytes (max 0 (stored_len content - KRB5_KDB_V1_BASE_LENGTH)) (drop 38 content) = Out_of_bounds"
    using assms by (simp add: get_bytes_def KRB5_KDB_V1_BASE_LENGTH_def)
  then show ?thesis
    using decode_base_result [OF assms(1)] assms(1)
    by (auto simp: krb5_decode_princ_contents_def KRB5_KDB_V1_BASE_LENGTH_def split: if_splits)
qed

theorem decode_reads_past_end_witness:
  "krb5_decode_princ_contents (\<lambda>_. Inl KRB5_PARSE_MALFORMED) (39 # replicate 37 0) = Out_of_bounds"
proof -
  have "38 \<le> length (39 # replicate 37 0 :: octet list)"
    "int (length (39 # replicate 37 0 :: octet list)) < stored_len (39 # replicate 37 0)"
    "0 \<le> stored_len (drop 34 (39 # replicate 37 0))" "0 \<le> stored_len (drop 36 (39 # replicate 37 0))"
    by code_simp+
  then show ?thesis using decode_reads_past_end [of "39 # replicate 37 0" "\<lambda>_. Inl KRB5_PARSE_MALFORMED"] by simp
qed

section \<open>Finding a key\<close>

text \<open>
  The loop of \<open>krb5_dbe_search_enctype\<close> from index \<open>i\<close> on; the best key so far is kept with its
  version and index, and is absent while \<open>maxkvno\<close> is -1.
\<close>

definition db_stype :: "krb5_key_data \<Rightarrow> int" where
  "db_stype k = (if key_data_ver k > 1 then key_data_type k ! 1 else KRB5_KDB_SALTTYPE_NORMAL)"

fun search_loop :: "int \<Rightarrow> int \<Rightarrow> int \<Rightarrow> (int \<times> krb5_key_data \<times> nat) option \<Rightarrow> nat \<Rightarrow> krb5_key_data list \<Rightarrow>
    (int \<times> krb5_key_data \<times> nat) option krb5_result" where
  "search_loop ktype stype kvno best i [] = Inr best"
| "search_loop ktype stype kvno best i (k # ks) =
     (case (if ktype \<ge> 0 then krb5_c_enctype_compare ktype (key_data_type k ! 0) else Inr True) of
        Inl ret \<Rightarrow> Inl ret
      | Inr similar \<Rightarrow>
          if similar \<and> (db_stype k = stype \<or> stype < 0) then
            (if kvno \<ge> 0 then
               (if kvno = key_data_kvno k then Inr (Some (kvno, k, i))
                else search_loop ktype stype kvno best (Suc i) ks)
             else if key_data_kvno k > (case best of Some (maxkvno, _) \<Rightarrow> maxkvno | None \<Rightarrow> -1)
             then search_loop ktype stype kvno (Some (key_data_kvno k, k, i)) (Suc i) ks
             else search_loop ktype stype kvno best (Suc i) ks)
          else search_loop ktype stype kvno best (Suc i) ks)"

definition max_kvno :: "krb5_key_data list \<Rightarrow> int" where
  "max_kvno ks = foldl (\<lambda>kvno k. if kvno < key_data_kvno k then key_data_kvno k else kvno) 0 ks"

definition krb5_dbe_search_enctype ::
  "krb5_db_entry \<Rightarrow> nat \<Rightarrow> int \<Rightarrow> int \<Rightarrow> int \<Rightarrow> (krb5_key_data \<times> nat) krb5_result" where
  "krb5_dbe_search_enctype entry start ktype stype kvno =
     (let kvno = (if kvno = -1 \<and> stype = -1 \<and> ktype = -1 then 0 else kvno);
          kvno = (if kvno = 0 then max_kvno (db_key_data entry) else kvno)
      in case search_loop ktype stype kvno None start (drop start (db_key_data entry)) of
           Inl ret \<Rightarrow> Inl ret
         | Inr None \<Rightarrow> Inl ENOENT
         | Inr (Some (_, datap, index)) \<Rightarrow> Inr (datap, index + 1))"

definition krb5_dbe_find_enctype :: "krb5_db_entry \<Rightarrow> int \<Rightarrow> int \<Rightarrow> int \<Rightarrow> krb5_key_data krb5_result" where
  "krb5_dbe_find_enctype entry ktype stype kvno =
     bindE (krb5_dbe_search_enctype entry 0 ktype stype kvno) (\<lambda>(datap, start). Inr datap)"

text \<open>The keys a search can return, for the version \<open>kvno\<close> that is looked for.\<close>

definition key_wanted :: "int \<Rightarrow> int \<Rightarrow> int \<Rightarrow> krb5_key_data \<Rightarrow> bool" where
  "key_wanted ktype stype kvno k \<longleftrightarrow>
     (ktype < 0 \<or> krb5_c_enctype_compare ktype (key_data_type k ! 0) = Inr True) \<and>
     (stype < 0 \<or> db_stype k = stype) \<and>
     (if kvno \<ge> 0 then key_data_kvno k = kvno else key_data_kvno k \<ge> 0)"

definition types_known :: "int \<Rightarrow> krb5_key_data list \<Rightarrow> bool" where
  "types_known ktype ks \<longleftrightarrow>
     ktype < 0 \<or> (valid_enctype ktype \<and> list_all (\<lambda>k. valid_enctype (key_data_type k ! 0)) ks)"

lemma types_known_Cons:
  assumes "types_known ktype (k # ks)"
  shows "types_known ktype ks"
    and "\<exists>b. (if ktype \<ge> 0 then krb5_c_enctype_compare ktype (key_data_type k ! 0) else Inr True) = Inr b"
  using assms enctype_compare_valid [of ktype "key_data_type k ! 0"] by (auto simp: types_known_def)

lemma search_loop_version:
  assumes "types_known ktype ks" and "kvno \<ge> 0"
  shows "\<exists>r. search_loop ktype stype kvno None i ks = Inr r \<and>
    (case r of None \<Rightarrow> \<not> list_ex (key_wanted ktype stype kvno) ks
     | Some (_, k, _) \<Rightarrow> k \<in> set ks \<and> key_wanted ktype stype kvno k)"
  using assms(1)
proof (induction ks arbitrary: i)
  case (Cons k ks)
  obtain b where b: "(if ktype \<ge> 0 then krb5_c_enctype_compare ktype (key_data_type k ! 0) else Inr True) = Inr b"
    using types_known_Cons(2) [OF Cons.prems] by blast
  obtain r where r: "search_loop ktype stype kvno None (Suc i) ks = Inr r"
    "case r of None \<Rightarrow> \<not> list_ex (key_wanted ktype stype kvno) ks
     | Some (_, k, _) \<Rightarrow> k \<in> set ks \<and> key_wanted ktype stype kvno k"
    using Cons.IH [OF types_known_Cons(1) [OF Cons.prems], of "Suc i"] by blast
  have w: "key_wanted ktype stype kvno k \<longleftrightarrow> b \<and> (db_stype k = stype \<or> stype < 0) \<and> kvno = key_data_kvno k"
    using b assms(2) by (auto simp: key_wanted_def split: if_splits)
  show ?case
  proof (cases "key_wanted ktype stype kvno k")
    case True
    with b w assms(2) show ?thesis by (simp split: if_splits)
  next
    case False
    with b w assms(2) have "search_loop ktype stype kvno None i (k # ks) = Inr r"
      using r(1) by (simp only: search_loop.simps sum.case) auto
    with False r(2) show ?thesis by (auto split: option.splits)
  qed
qed simp

definition newest_of :: "(krb5_key_data \<Rightarrow> bool) \<Rightarrow> (int \<times> krb5_key_data \<times> nat) option \<Rightarrow> krb5_key_data list \<Rightarrow>
    (int \<times> krb5_key_data \<times> nat) option \<Rightarrow> bool" where
  "newest_of P best ks r \<longleftrightarrow>
     (case r of None \<Rightarrow> best = None \<and> \<not> list_ex P ks
      | Some (m, k, j) \<Rightarrow> m = key_data_kvno k \<and> 0 \<le> m \<and> (r = best \<or> k \<in> set ks \<and> P k) \<and>
         (case best of Some (m', _) \<Rightarrow> m' \<le> m | None \<Rightarrow> True) \<and>
         list_all (\<lambda>k'. P k' \<longrightarrow> key_data_kvno k' \<le> m) ks)"

lemma newest_of_take:
  "newest_of P (Some (key_data_kvno k, k, i)) ks r \<Longrightarrow> P k \<Longrightarrow> 0 \<le> key_data_kvno k \<Longrightarrow>
   (case best of Some (m, _) \<Rightarrow> m | None \<Rightarrow> -1) < key_data_kvno k \<Longrightarrow> newest_of P best (k # ks) r"
  by (auto simp: newest_of_def split: option.splits)

lemma newest_of_skip:
  "newest_of P best ks r \<Longrightarrow> \<not> P k \<or> key_data_kvno k \<le> (case best of Some (m, _) \<Rightarrow> m | None \<Rightarrow> -1) \<Longrightarrow>
   (P k \<Longrightarrow> 0 \<le> key_data_kvno k) \<Longrightarrow> newest_of P best (k # ks) r"
  by (auto simp: newest_of_def split: option.splits)

lemma search_loop_newest:
  assumes "types_known ktype ks" and "kvno < 0"
    and "case best of Some (m, k, _) \<Rightarrow> m = key_data_kvno k \<and> 0 \<le> m | None \<Rightarrow> True"
  shows "\<exists>r. search_loop ktype stype kvno best i ks = Inr r \<and> newest_of (key_wanted ktype stype kvno) best ks r"
  using assms(1,3)
proof (induction ks arbitrary: i best)
  case Nil
  then show ?case by (auto simp: newest_of_def split: option.splits)
next
  case (Cons k ks)
  obtain b where b: "(if ktype \<ge> 0 then krb5_c_enctype_compare ktype (key_data_type k ! 0) else Inr True) = Inr b"
    using types_known_Cons(2) [OF Cons.prems(1)] by blast
  define m0 where "m0 = (case best of Some (m, _) \<Rightarrow> m | None \<Rightarrow> -1)"
  have m0: "-1 \<le> m0" using Cons.prems(2) by (auto simp: m0_def split: option.splits)
  have w: "key_wanted ktype stype kvno k \<longleftrightarrow> b \<and> (db_stype k = stype \<or> stype < 0) \<and> 0 \<le> key_data_kvno k"
    using b assms(2) by (auto simp: key_wanted_def split: if_splits)
  show ?case
  proof (cases "b \<and> (db_stype k = stype \<or> stype < 0) \<and> m0 < key_data_kvno k")
    case True
    then have step: "search_loop ktype stype kvno best i (k # ks) =
        search_loop ktype stype kvno (Some (key_data_kvno k, k, i)) (Suc i) ks"
      using b assms(2) by (simp only: search_loop.simps sum.case) (auto simp: m0_def split: option.splits)
    from Cons.IH [OF types_known_Cons(1) [OF Cons.prems(1)], of "Some (key_data_kvno k, k, i)" "Suc i"] True m0 w show ?thesis
      unfolding step by (fastforce simp: m0_def intro!: newest_of_take)
  next
    case False
    then have step: "search_loop ktype stype kvno best i (k # ks) = search_loop ktype stype kvno best (Suc i) ks"
      using b assms(2) by (simp only: search_loop.simps sum.case) (auto simp: m0_def split: option.splits)
    from Cons.IH [OF types_known_Cons(1) [OF Cons.prems(1)], of best "Suc i"] Cons.prems(2) False m0 w show ?thesis
      unfolding step by (auto simp: m0_def intro!: newest_of_skip)
  qed
qed

definition search_kvno :: "krb5_db_entry \<Rightarrow> int \<Rightarrow> int \<Rightarrow> int \<Rightarrow> int" where
  "search_kvno entry ktype stype kvno =
     (if kvno = 0 \<or> kvno = -1 \<and> stype = -1 \<and> ktype = -1 then max_kvno (db_key_data entry) else kvno)"

text \<open>
  With known encryption types, \<open>krb5_dbe_find_enctype\<close> returns a key of the entry that has the
  requested type, salt type and version, the version 0 standing for the highest version of the
  entry; for a negative version it returns a key of the highest version among those that
  match.  It returns \<open>ENOENT\<close> exactly when no key qualifies, and nothing else can fail.
\<close>

theorem find_enctype_correct:
  assumes "types_known ktype (db_key_data entry)"
  shows "let v = search_kvno entry ktype stype kvno; P = key_wanted ktype stype v
    in case krb5_dbe_find_enctype entry ktype stype kvno of
      Inr k \<Rightarrow> k \<in> set (db_key_data entry) \<and> P k \<and>
        (v < 0 \<longrightarrow> list_all (\<lambda>k'. P k' \<longrightarrow> key_data_kvno k' \<le> key_data_kvno k) (db_key_data entry))
    | Inl e \<Rightarrow> e = ENOENT \<and> \<not> list_ex P (db_key_data entry)"
proof -
  let ?kvno = "search_kvno entry ktype stype kvno"
  have eq: "krb5_dbe_find_enctype entry ktype stype kvno =
      (case search_loop ktype stype ?kvno None 0 (db_key_data entry) of
         Inl ret \<Rightarrow> Inl ret | Inr None \<Rightarrow> Inl ENOENT | Inr (Some (_, k, _)) \<Rightarrow> Inr k)"
    by (auto simp: krb5_dbe_find_enctype_def krb5_dbe_search_enctype_def search_kvno_def Let_def bindE_def
        split: sum.split option.split)
  show ?thesis
  proof (cases "0 \<le> ?kvno")
    case True
    with search_loop_version [OF assms(1) True, of stype 0] show ?thesis
      unfolding eq Let_def by (auto split: option.splits)
  next
    case False
    then have "?kvno < 0" by simp
    from search_loop_newest [OF assms(1) this, of None stype 0] False show ?thesis
      unfolding eq Let_def newest_of_def by (auto split: option.splits)
  qed
qed

theorem find_enctype_correct_witness:
  "case krb5_dbe_find_enctype sample_entry 3 (-1) (-1) of
     Inr k \<Rightarrow> k \<in> set (db_key_data sample_entry) \<and> key_data_kvno k = 2 | Inl _ \<Rightarrow> False"
proof -
  have t: "types_known 3 (db_key_data sample_entry)" by code_simp
  moreover have "list_ex (key_wanted 3 (-1) (search_kvno sample_entry 3 (-1) (-1))) (db_key_data sample_entry)"
    by code_simp
  ultimately show ?thesis
    using find_enctype_correct [OF t, of "-1" "-1"]
    by (auto simp: sample_entry_def Let_def split: sum.splits)
qed

section \<open>Properties of tagged data\<close>

text \<open>
  The date and the principal of the last modification, and the date of the last password
  change, are read back as they were stored, whatever other tagged data are updated in between.
\<close>

theorem tagged_data_roundtrip:
  assumes "p_data p \<noteq> []" and "p_realm p \<noteq> []" and "p_type p = KRB5_NT_PRINCIPAL"
    and "unparse_totalsize p + 4 \<le> 32767" and "is_i32 date" and "is_i32 stamp"
    and "list_all (\<lambda>t. tl_data_type t \<noteq> KRB5_TL_MOD_PRINC \<and> tl_data_type t \<noteq> KRB5_TL_LAST_PWD_CHANGE) others"
  shows "\<exists>entry'. krb5_dbe_update_mod_princ_data entry date p = Done entry' \<and>
    (let final = foldl krb5_dbe_update_tl_data (krb5_dbe_update_last_pwd_change entry' stamp) others
     in krb5_dbe_lookup_mod_princ_data (\<lambda>s. snd (krb5_parse_name gdr dr s)) final = Done (date, p) \<and>
        krb5_dbe_lookup_last_pwd_change final = Done stamp)"
proof -
  obtain name where n: "krb5_unparse_name p = Some name" "length name = unparse_totalsize p"
    "parse_name_at (\<lambda>s. snd (krb5_parse_name gdr dr s)) (octets name @ []) = Done p" "last (octets name) = 0" "1 < length name"
    using unparse_parse_at [OF assms(1-3)] by metis
  have len: "length (octets name) = length name" by (simp add: octets_def)
  let ?buf = "krb5_kdb_encode_int32 date @ octets name"
  define entry' where "entry' = krb5_dbe_update_tl_data entry \<lparr>tl_data_type = KRB5_TL_MOD_PRINC, tl_data_contents = ?buf\<rparr>"
  define final where "final = foldl krb5_dbe_update_tl_data (krb5_dbe_update_last_pwd_change entry' stamp) others"
  have "i16 (int (length ?buf)) = int (length ?buf)" using assms(4) n(2) len by (intro i16_id) (simp add: is_i16_def)
  then have e': "krb5_dbe_update_mod_princ_data entry date p = Done entry'"
    using n(1) by (simp add: krb5_dbe_update_mod_princ_data_def Let_def entry'_def)
  have none: "find (\<lambda>t. tl_data_type t = ty) (rev others) = None" if "ty \<in> {KRB5_TL_MOD_PRINC, KRB5_TL_LAST_PWD_CHANGE}" for ty
    using that assms(7) by (auto simp: find_None_iff list_all_iff)
  have mod_princ: "krb5_dbe_lookup_tl_data final KRB5_TL_MOD_PRINC = ?buf"
    using none by (simp add: final_def tl.lookup_after_updates krb5_dbe_update_last_pwd_change_def tl.lookup_update entry'_def
        KRB5_TL_MOD_PRINC_def KRB5_TL_LAST_PWD_CHANGE_def)
  have pwd: "krb5_dbe_lookup_tl_data final KRB5_TL_LAST_PWD_CHANGE = krb5_kdb_encode_int32 stamp"
    using none by (simp add: final_def tl.lookup_after_updates krb5_dbe_update_last_pwd_change_def tl.lookup_update)
  have "octets name \<noteq> []" using n(5) len by auto
  then have "krb5_dbe_lookup_mod_princ_data (\<lambda>s. snd (krb5_parse_name gdr dr s)) final = Done (date, p)"
    using n len assms(5) decode_encode_int32 [of date "octets name"]
    by (simp add: krb5_dbe_lookup_mod_princ_data_def mod_princ i32_id)
  moreover have "krb5_dbe_lookup_last_pwd_change final = Done stamp"
    using decode_encode_int32 [of stamp "[]"] assms(6) by (simp add: krb5_dbe_lookup_last_pwd_change_def pwd i32_id)
  ultimately show ?thesis using e' by (simp add: final_def Let_def)
qed

theorem tagged_data_roundtrip_witness:
  "\<exists>entry'. krb5_dbe_update_mod_princ_data sample_entry 985000000 (db_princ sample_entry) = Done entry' \<and>
    (let final = foldl krb5_dbe_update_tl_data (krb5_dbe_update_last_pwd_change entry' 17)
           [\<lparr>tl_data_type = 3, tl_data_contents = [5]\<rparr>]
     in krb5_dbe_lookup_mod_princ_data (\<lambda>s. snd (krb5_parse_name (Inl KRB5_PARSE_MALFORMED) None s)) final =
          Done (985000000, db_princ sample_entry) \<and>
        krb5_dbe_lookup_last_pwd_change final = Done 17)"
  by (rule tagged_data_roundtrip)
    (simp_all add: sample_entry_def is_i32_def KRB5_TL_MOD_PRINC_def KRB5_TL_LAST_PWD_CHANGE_def
      unparse_totalsize_def quoted_size_def needs_quote_def parse_chars)

text \<open>
  Every update keeps the list of tagged data consistent: \<open>n_tl_data\<close> is its length, which is what
  \<open>krb5_encode_princ_contents\<close> insists on, and no type occurs twice.
\<close>

theorem tagged_data_invariant:
  assumes "wf_tl entry" and "length (db_tl_data entry) + length ts \<le> 32767"
  shows "wf_tl (foldl krb5_dbe_update_tl_data entry ts)"
  using assms
proof (induction ts arbitrary: entry)
  case (Cons t ts)
  have "length (db_tl_data (krb5_dbe_update_tl_data entry t)) \<le> Suc (length (db_tl_data entry))"
    by (rule update_tl_data_length)
  with Cons.IH [OF update_tl_data_wf [OF Cons.prems(1)]] Cons.prems(2) show ?case by simp
qed simp

theorem tagged_data_invariant_witness:
  "wf_tl (foldl krb5_dbe_update_tl_data sample_entry [\<lparr>tl_data_type = 1, tl_data_contents = []\<rparr>, \<lparr>tl_data_type = 7, tl_data_contents = [1]\<rparr>])"
  by (rule tagged_data_invariant) (simp_all add: wf_tl_def sample_entry_def)

end
