(* ===== verification/Kdc_Validate.thy ===== *)
theory Kdc_Validate
  imports Krb5_Principal Kdb_Xdr
begin

text \<open>
  The KDC's checks of a request (\<open>kdc/kdc_util.c\<close>: \<open>validate_as_request\<close>,
  \<open>validate_tgs_request\<close>), the local policy hooks (\<open>kdc/policy.c\<close>), the choice of the session
  key type, salts, the join of authorization data, and the reader that cuts the request body
  out of the raw ASN.1 stream (\<open>asn1length\<close>, \<open>fetch_asn1_field\<close>).

  A validator returns a protocol error number and stores a status text; \<open>None\<close> is the return
  of 0 with the status untouched.  The build options are the default ones: without
  \<open>KRBCONF_VAGUE_ERRORS\<close>, with \<open>USE_RCACHE\<close>.
\<close>

section \<open>Request checks\<close>

type_synonym verdict = "(int \<times> string) option"

text \<open>
  The shape of both validators: a row of tests, the first one that applies decides.
\<close>

fun first_failure :: "(bool \<times> int \<times> string) list \<Rightarrow> verdict" where
  "first_failure [] = None"
| "first_failure ((failed, errcode, status) # rest) =
     (if failed then Some (errcode, status) else first_failure rest)"

lemma first_failure_None [simp]: "first_failure checks = None \<longleftrightarrow> (\<forall>(failed, e, s) \<in> set checks. \<not> failed)"
  by (induction checks rule: first_failure.induct) auto

lemma first_failure_code: "first_failure checks = Some (e, s) \<Longrightarrow> (True, e, s) \<in> set checks"
  by (induction checks rule: first_failure.induct) (auto split: if_splits)

definition AS_OPTIONS_HANDLED :: flags where [krb5_flags]:
  "AS_OPTIONS_HANDLED = KDC_OPT_FORWARDABLE OR KDC_OPT_PROXIABLE OR KDC_OPT_ALLOW_POSTDATE OR
     KDC_OPT_POSTDATED OR KDC_OPT_RENEWABLE OR KDC_OPT_RENEWABLE_OK"

definition against_local_policy_as ::
  "krb5_kdc_req \<Rightarrow> krb5_db_entry \<Rightarrow> krb5_db_entry \<Rightarrow> krb5_timestamp \<Rightarrow> verdict" where
  "against_local_policy_as request client server kdc_time = None"

definition against_local_policy_tgs :: "krb5_kdc_req \<Rightarrow> krb5_db_entry \<Rightarrow> krb5_ticket \<Rightarrow> verdict" where
  "against_local_policy_tgs request server ticket = None"

definition check_hot_list :: "krb5_ticket \<Rightarrow> krb5_error_code" where
  "check_hot_list ticket = 0"

definition verdict_else :: "verdict \<Rightarrow> verdict \<Rightarrow> verdict" where
  "verdict_else v w = (case v of None \<Rightarrow> w | Some r \<Rightarrow> Some r)"

lemma verdict_else_None [simp]: "verdict_else v w = None \<longleftrightarrow> v = None \<and> w = None"
  by (simp add: verdict_else_def split: option.splits)

definition validate_as_request ::
  "krb5_kdc_req \<Rightarrow> krb5_db_entry \<Rightarrow> krb5_db_entry \<Rightarrow> krb5_timestamp \<Rightarrow> verdict" where
  "validate_as_request request client server kdc_time =
     (let opt = isflagset (rq_kdc_options request);
          cattr = isflagset (db_attributes client);
          sattr = isflagset (db_attributes server)
      in verdict_else (first_failure
       [(rq_kdc_options request AND NOT AS_OPTIONS_HANDLED \<noteq> 0,
           KDC_ERR_BADOPTION, ''INVALID AS OPTIONS''),
        (db_pw_expiration client \<noteq> 0 \<and> db_pw_expiration client < kdc_time \<and>
           \<not> sattr KRB5_KDB_PWCHANGE_SERVICE,
           KDC_ERR_KEY_EXP, ''CLIENT KEY EXPIRED''),
        (db_expiration client \<noteq> 0 \<and> db_expiration client < kdc_time,
           KDC_ERR_NAME_EXP, ''CLIENT EXPIRED''),
        (db_expiration server \<noteq> 0 \<and> db_expiration server < kdc_time,
           KDC_ERR_SERVICE_EXP, ''SERVICE EXPIRED''),
        (cattr KRB5_KDB_REQUIRES_PWCHANGE \<and> \<not> sattr KRB5_KDB_PWCHANGE_SERVICE,
           KDC_ERR_KEY_EXP, ''REQUIRED PWCHANGE''),
        ((opt KDC_OPT_ALLOW_POSTDATE \<or> opt KDC_OPT_POSTDATED) \<and>
           (cattr KRB5_KDB_DISALLOW_POSTDATED \<or> sattr KRB5_KDB_DISALLOW_POSTDATED),
           KDC_ERR_CANNOT_POSTDATE, ''POSTDATE NOT ALLOWED''),
        (opt KDC_OPT_FORWARDABLE \<and>
           (cattr KRB5_KDB_DISALLOW_FORWARDABLE \<or> sattr KRB5_KDB_DISALLOW_FORWARDABLE),
           KDC_ERR_POLICY, ''FORWARDABLE NOT ALLOWED''),
        (opt KDC_OPT_RENEWABLE \<and>
           (cattr KRB5_KDB_DISALLOW_RENEWABLE \<or> sattr KRB5_KDB_DISALLOW_RENEWABLE),
           KDC_ERR_POLICY, ''RENEWABLE NOT ALLOWED''),
        (opt KDC_OPT_PROXIABLE \<and>
           (cattr KRB5_KDB_DISALLOW_PROXIABLE \<or> sattr KRB5_KDB_DISALLOW_PROXIABLE),
           KDC_ERR_POLICY, ''PROXIABLE NOT ALLOWED''),
        (cattr KRB5_KDB_DISALLOW_ALL_TIX, KDC_ERR_C_PRINCIPAL_UNKNOWN, ''CLIENT LOCKED OUT''),
        (sattr KRB5_KDB_DISALLOW_ALL_TIX, KDC_ERR_S_PRINCIPAL_UNKNOWN, ''SERVICE LOCKED OUT''),
        (sattr KRB5_KDB_DISALLOW_SVR, KDC_ERR_S_PRINCIPAL_UNKNOWN, ''SERVICE NOT ALLOWED'')])
       (against_local_policy_as request server client kdc_time))"

definition TGS_OPTIONS_HANDLED :: flags where [krb5_flags]:
  "TGS_OPTIONS_HANDLED = KDC_OPT_FORWARDABLE OR KDC_OPT_FORWARDED OR KDC_OPT_PROXIABLE OR
     KDC_OPT_PROXY OR KDC_OPT_ALLOW_POSTDATE OR KDC_OPT_POSTDATED OR KDC_OPT_RENEWABLE OR
     KDC_OPT_RENEWABLE_OK OR KDC_OPT_ENC_TKT_IN_SKEY OR KDC_OPT_RENEW OR KDC_OPT_VALIDATE"

definition NO_TGT_OPTION :: flags where [krb5_flags]:
  "NO_TGT_OPTION = KDC_OPT_FORWARDED OR KDC_OPT_PROXY OR KDC_OPT_RENEW OR KDC_OPT_VALIDATE"

text \<open>
  \<open>validate_tgs_request\<close>, in the three stretches of the function: which ticket may be
  presented, which options it and the server's entry allow, and the remaining checks.  The
  requested server \<open>rserver\<close> is \<open>request->server\<close>, \<open>tkt\<close> the decrypted part of the ticket.
\<close>

definition tgs_ticket_checks ::
  "krb5_kdc_req \<Rightarrow> krb5_principal \<Rightarrow> krb5_db_entry \<Rightarrow> krb5_ticket \<Rightarrow> krb5_timestamp \<Rightarrow>
     (bool \<times> int \<times> string) list" where
  "tgs_ticket_checks request rserver server ticket kdc_time =
     [(rq_kdc_options request AND NOT TGS_OPTIONS_HANDLED \<noteq> 0,
         KDC_ERR_BADOPTION, ''INVALID TGS OPTIONS''),
      (db_expiration server \<noteq> 0 \<and> db_expiration server < kdc_time,
         KDC_ERR_SERVICE_EXP, ''SERVICE EXPIRED'')] @
     (if rq_kdc_options request AND NO_TGT_OPTION \<noteq> 0 then
        [(\<not> krb5_principal_compare (tk_server ticket) rserver,
            KDC_ERR_SERVER_NOMATCH, ''SERVER DIDN'T MATCH TICKET FOR RENEW/FORWARD/ETC'')]
      else
        [(krb5_princ_size (tk_server ticket) \<noteq> 2, KRB_AP_ERR_NOT_US, ''BAD TGS SERVER LENGTH''),
         (\<not> krb5_is_tgs_principal (tk_server ticket), KRB_AP_ERR_NOT_US, ''BAD TGS SERVER NAME''),
         (krb5_princ_component (tk_server ticket) 1 \<noteq> Some (p_realm rserver),
            KRB_AP_ERR_NOT_US, ''BAD TGS SERVER INSTANCE''),
         (isflagset (db_attributes server) KRB5_KDB_DISALLOW_TGT_BASED,
            KDC_ERR_POLICY, ''TGT BASED NOT ALLOWED'')])"

definition tgs_option_checks ::
  "krb5_kdc_req \<Rightarrow> krb5_principal \<Rightarrow> krb5_db_entry \<Rightarrow> krb5_enc_tkt_part \<Rightarrow>
     (bool \<times> int \<times> string) list" where
  "tgs_option_checks request rserver server tkt =
     (let opt = isflagset (rq_kdc_options request); tflag = isflagset (et_flags tkt);
          sattr = isflagset (db_attributes server)
      in
      [((opt KDC_OPT_FORWARDED \<or> opt KDC_OPT_FORWARDABLE) \<and> \<not> tflag TKT_FLG_FORWARDABLE,
          KDC_ERR_BADOPTION, ''TGT NOT FORWARDABLE''),
       ((opt KDC_OPT_PROXY \<or> opt KDC_OPT_PROXIABLE) \<and> \<not> tflag TKT_FLG_PROXIABLE,
          KDC_ERR_BADOPTION, ''TGT NOT PROXIABLE''),
       ((opt KDC_OPT_ALLOW_POSTDATE \<or> opt KDC_OPT_POSTDATED) \<and> \<not> tflag TKT_FLG_MAY_POSTDATE,
          KDC_ERR_BADOPTION, ''TGT NOT POSTDATABLE''),
       (opt KDC_OPT_VALIDATE \<and> \<not> tflag TKT_FLG_INVALID,
          KDC_ERR_BADOPTION, ''VALIDATE VALID TICKET''),
       ((opt KDC_OPT_RENEW \<or> opt KDC_OPT_RENEWABLE) \<and> \<not> tflag TKT_FLG_RENEWABLE,
          KDC_ERR_BADOPTION, ''TICKET NOT RENEWABLE''),
       (opt KDC_OPT_PROXY \<and> (p_data rserver = [] \<or> hd (p_data rserver) \<noteq> KRB5_TGS_NAME),
          KDC_ERR_BADOPTION, ''CAN'T PROXY TGT''),
       (opt KDC_OPT_FORWARDABLE \<and> sattr KRB5_KDB_DISALLOW_FORWARDABLE,
          KDC_ERR_POLICY, ''NON-FORWARDABLE TICKET''),
       (opt KDC_OPT_RENEWABLE \<and> sattr KRB5_KDB_DISALLOW_RENEWABLE,
          KDC_ERR_POLICY, ''NON-RENEWABLE TICKET''),
       (opt KDC_OPT_PROXIABLE \<and> sattr KRB5_KDB_DISALLOW_PROXIABLE,
          KDC_ERR_POLICY, ''NON-PROXIABLE TICKET''),
       (opt KDC_OPT_ALLOW_POSTDATE \<and> sattr KRB5_KDB_DISALLOW_POSTDATED,
          KDC_ERR_CANNOT_POSTDATE, ''NON-POSTDATABLE TICKET''),
       (opt KDC_OPT_ENC_TKT_IN_SKEY \<and> sattr KRB5_KDB_DISALLOW_DUP_SKEY,
          KDC_ERR_POLICY, ''DUP_SKEY DISALLOWED''),
       (sattr KRB5_KDB_DISALLOW_ALL_TIX, KDC_ERR_S_PRINCIPAL_UNKNOWN, ''SERVER LOCKED OUT''),
       (sattr KRB5_KDB_DISALLOW_SVR, KDC_ERR_S_PRINCIPAL_UNKNOWN, ''SERVER NOT ALLOWED'')])"

definition tgs_state_checks ::
  "krb5_kdc_req \<Rightarrow> krb5_principal \<Rightarrow> krb5_db_entry \<Rightarrow> krb5_ticket \<Rightarrow> krb5_enc_tkt_part \<Rightarrow>
     krb5_timestamp \<Rightarrow> (bool \<times> int \<times> string) list" where
  "tgs_state_checks request tgs_server server ticket tkt kdc_time =
     (let opt = isflagset (rq_kdc_options request); tflag = isflagset (et_flags tkt);
          sattr = isflagset (db_attributes server)
      in
      [(check_hot_list ticket \<noteq> 0, KRB_AP_ERR_REPEAT, ''HOT_LIST''),
       (opt KDC_OPT_VALIDATE \<and> starttime (et_times tkt) > kdc_time,
          KRB_AP_ERR_TKT_NYV, ''NOT_YET_VALID''),
       (opt KDC_OPT_RENEW \<and> renew_till (et_times tkt) < kdc_time,
          KRB_AP_ERR_TKT_EXPIRED, ''TKT_EXPIRED''),
       (opt KDC_OPT_ENC_TKT_IN_SKEY \<and> rq_second_ticket request = [],
          KDC_ERR_BADOPTION, ''NO_2ND_TKT''),
       (opt KDC_OPT_ENC_TKT_IN_SKEY \<and>
          \<not> krb5_principal_compare (tk_server (hd (rq_second_ticket request))) tgs_server,
          KDC_ERR_POLICY, ''2ND_TKT_NOT_TGS''),
       (sattr KRB5_KDB_REQUIRES_HW_AUTH \<and> \<not> tflag TKT_FLG_HW_AUTH,
          KRB_ERR_GENERIC, ''NO HW PREAUTH''),
       (sattr KRB5_KDB_REQUIRES_PRE_AUTH \<and> \<not> tflag TKT_FLG_PRE_AUTH,
          KRB_ERR_GENERIC, ''NO PREAUTH'')])"

definition validate_tgs_request ::
  "krb5_kdc_req \<Rightarrow> krb5_principal \<Rightarrow> krb5_principal \<Rightarrow> krb5_db_entry \<Rightarrow> krb5_ticket \<Rightarrow>
     krb5_enc_tkt_part \<Rightarrow> krb5_timestamp \<Rightarrow> verdict" where
  "validate_tgs_request request rserver tgs_server server ticket tkt kdc_time =
     verdict_else (first_failure (tgs_ticket_checks request rserver server ticket kdc_time @
                                  tgs_option_checks request rserver server tkt @
                                  tgs_state_checks request tgs_server server ticket tkt kdc_time))
       (against_local_policy_tgs request server ticket)"

section \<open>Encryption types, salts, authorization data, log names\<close>

definition dbentry_has_key_for_enctype :: "krb5_db_entry \<Rightarrow> krb5_enctype \<Rightarrow> bool" where
  "dbentry_has_key_for_enctype client enctype =
     (case krb5_dbe_find_enctype client enctype (-1) 0 of Inl retval \<Rightarrow> False | Inr datap \<Rightarrow> True)"

definition dbentry_supports_enctype :: "krb5_db_entry \<Rightarrow> krb5_enctype \<Rightarrow> bool" where
  "dbentry_supports_enctype client enctype =
     (if enctype = ENCTYPE_DES_CBC_MD5 then isflagset (db_attributes client) KRB5_KDB_SUPPORT_DESMD5
      else if enctype = ENCTYPE_DES_CBC_CRC then True
      else dbentry_has_key_for_enctype client enctype)"

fun select_session_keytype :: "krb5_db_entry \<Rightarrow> krb5_enctype list \<Rightarrow> krb5_enctype" where
  "select_session_keytype server [] = 0"
| "select_session_keytype server (ktype # ktypes) =
     (if \<not> valid_enctype ktype then select_session_keytype server ktypes
      else if dbentry_supports_enctype server ktype then ktype
      else select_session_keytype server ktypes)"

text \<open>A salt with length -1 is \<open>None\<close>.\<close>

definition get_salt_from_key :: "krb5_principal \<Rightarrow> krb5_key_data \<Rightarrow> octet list option" where
  "get_salt_from_key client client_key =
     (if key_data_ver client_key = 1 then None
      else let stype = key_data_type client_key ! 1 in
        if stype = KRB5_KDB_SALTTYPE_NORMAL then None
        else if stype = KRB5_KDB_SALTTYPE_V4 then Some []
        else if stype = KRB5_KDB_SALTTYPE_NOREALM
        then Some (octets (krb5_principal2salt_norealm (Some client)))
        else if stype = KRB5_KDB_SALTTYPE_AFS3 \<or> stype = KRB5_KDB_SALTTYPE_ONLYREALM
        then Some (octets (p_realm client))
        else if stype = KRB5_KDB_SALTTYPE_SPECIAL then Some (key_data_contents client_key ! 1)
        else None)"

fun copy_authdata :: "krb5_authdata list option list \<Rightarrow> krb5_authdata list" where
  "copy_authdata [] = []"
| "copy_authdata (None # ptrs) = copy_authdata ptrs"
| "copy_authdata (Some ptr # ptrs) = ptr @ copy_authdata ptrs"

definition concat_authorization_data ::
  "krb5_authdata list option \<Rightarrow> krb5_authdata list option \<Rightarrow> krb5_authdata list" where
  "concat_authorization_data first second = copy_authdata [first, second]"

definition NAME_LENGTH_LIMIT :: nat where
  "NAME_LENGTH_LIMIT = 128"

text \<open>The C string a name buffer holds after \<open>limit_string\<close>.\<close>

definition limit_string :: "string \<Rightarrow> string" where
  "limit_string name =
     (if strlen name < NAME_LENGTH_LIMIT then c_str name
      else take (NAME_LENGTH_LIMIT - 4) name @ ''...'')"

section \<open>The raw request body\<close>

text \<open>
  \<open>fetch_asn1_field\<close> and \<open>asn1length\<close> walk over the received bytes with pointers and without
  knowing where the packet ends.  A pointer is an index into the packet \<open>buf\<close>, a read at or
  behind its end is \<open>Out_of_bounds\<close>, and a return of -1 is \<open>Error (-1)\<close>.

  \<open>asn1length\<close> calls itself in a loop for an indefinite length.  The fuel of the model bounds the
  depth of the chain of calls and rounds, not their number, and \<open>None\<close> means that it is used up.
  \<open>asn1length\<close> itself takes more fuel than the octets of the packet allow for
  (\<open>asn1length_f_eq\<close>): every call and every round moves forward until the contents are measured or
  a read behind the packet ends the model with \<open>Out_of_bounds\<close>.  What the C code does from there
  on depends on the memory behind the packet and is not claimed.
\<close>

definition byte_at :: "octet list \<Rightarrow> nat \<Rightarrow> octet c_outcome" where
  "byte_at buf p = (if p < length buf then Done (buf ! p) else Out_of_bounds)"

fun length_bytes :: "octet list \<Rightarrow> nat \<Rightarrow> nat \<Rightarrow> int \<Rightarrow> (int \<times> nat) c_outcome" where
  "length_bytes buf astream 0 len = Done (len, astream)"
| "length_bytes buf astream (Suc blen) len =
     bindO (byte_at buf astream) (\<lambda>b. length_bytes buf (astream + 1) blen (len * 256 + uint b))"

definition bindF :: "'a c_outcome option \<Rightarrow> ('a \<Rightarrow> 'b c_outcome option) \<Rightarrow> 'b c_outcome option" where
  "bindF m f = (case m of None \<Rightarrow> None | Some (Done x) \<Rightarrow> f x | Some (Error e) \<Rightarrow> Some (Error e)
     | Some Aborted \<Rightarrow> Some Aborted | Some Out_of_bounds \<Rightarrow> Some Out_of_bounds)"

fun asn1length_f :: "nat \<Rightarrow> octet list \<Rightarrow> nat \<Rightarrow> (int \<times> nat) c_outcome option"
and indefinite_f :: "nat \<Rightarrow> octet list \<Rightarrow> nat \<Rightarrow> nat c_outcome option" where
  "asn1length_f 0 buf astream = None"
| "asn1length_f (Suc n) buf astream =
     bindF (Some (byte_at buf astream)) (\<lambda>b.
       if b AND 0x80 \<noteq> 0 then
         (let blen = unat (b AND 0x7f) in
          if blen > 3 then Some (Error (-1))
          else bindF (Some (length_bytes buf (astream + 1) blen 0)) (\<lambda>(len, astream).
            if len = 0 then
              bindF (indefinite_f n buf (astream + 1)) (\<lambda>p. Some (Done (int p - int astream, astream)))
            else Some (Done (len, astream))))
       else Some (Done (uint b, astream + 1)))"
| "indefinite_f 0 buf p = None"
| "indefinite_f (Suc n) buf p =
     bindF (asn1length_f n buf p) (\<lambda>(sublen, p).
       let p = p + nat sublen in
       bindF (Some (byte_at buf p)) (\<lambda>b.
         if b = 0 then
           bindF (Some (byte_at buf (p + 1))) (\<lambda>c.
             if c = 0 then Some (Done (p + 2)) else indefinite_f n buf (p + 1))
         else indefinite_f n buf (p + 1)))"

definition asn1length :: "octet list \<Rightarrow> nat \<Rightarrow> (int \<times> nat) c_outcome" where
  "asn1length buf astream =
     (case asn1length_f (2 * length buf + 1) buf astream of Some r \<Rightarrow> r | None \<Rightarrow> Aborted)"

lemma bindF_simps [simp]:
  "bindF None f = None"
  "bindF (Some (Done x)) f = f x"
  "bindF (Some (Error e)) f = Some (Error e)"
  "bindF (Some Aborted) f = Some Aborted"
  "bindF (Some Out_of_bounds) f = Some Out_of_bounds"
  by (simp_all add: bindF_def)

lemma bindF_eq_Done: "bindF m f = Some (Done y) \<longleftrightarrow> (\<exists>x. m = Some (Done x) \<and> f x = Some (Done y))"
  by (cases "(m, f)" rule: prod.exhaust) (auto simp: bindF_def split: option.splits c_outcome.splits)

lemma bindF_eq_None: "bindF m f = None \<longleftrightarrow> m = None \<or> (\<exists>x. m = Some (Done x) \<and> f x = None)"
  by (auto simp: bindF_def split: option.splits c_outcome.splits)

lemma bindF_more:
  assumes "bindF m f = Some r" and "\<And>s. m = Some s \<Longrightarrow> m' = Some s"
    and "\<And>x s. f x = Some s \<Longrightarrow> f' x = Some s"
  shows "bindF m' f' = Some r"
  using assms by (auto simp: bindF_def split: option.splits c_outcome.splits)

lemma byte_at_Done: "byte_at buf p = Done b \<longleftrightarrow> p < length buf \<and> b = buf ! p"
  by (auto simp: byte_at_def)

lemma length_bytes_advances:
  "length_bytes buf a blen len = Done (l, a') \<Longrightarrow> 0 \<le> len \<Longrightarrow> a \<le> a' \<and> 0 \<le> l"
  by (induction buf a blen len rule: length_bytes.induct) (fastforce simp: bindO_eq_Done)+

lemma asn1length_f_advances:
  "asn1length_f n buf a = Some (Done (len, a')) \<Longrightarrow> a < a'"
  "indefinite_f n buf p = Some (Done q) \<Longrightarrow> p + 2 < q"
  by (induction n buf a and n buf p arbitrary: len a' and q rule: asn1length_f_indefinite_f.induct)
    (fastforce simp: bindF_eq_Done Let_def split: if_splits dest!: length_bytes_advances)+

lemma fuel_more_both:
  "(\<forall>a r. asn1length_f n buf a = Some r \<longrightarrow> asn1length_f (Suc n) buf a = Some r) \<and>
   (\<forall>p q. indefinite_f n buf p = Some q \<longrightarrow> indefinite_f (Suc n) buf p = Some q)"
proof (induction n)
  case (Suc n)
  have "asn1length_f (Suc (Suc n)) buf a = Some r" if *: "asn1length_f (Suc n) buf a = Some r" for a r
    unfolding asn1length_f.simps(2) [of "Suc n"]
    by (rule bindF_more [OF * [unfolded asn1length_f.simps(2)]])
      (use Suc in \<open>auto simp: Let_def simp del: asn1length_f.simps indefinite_f.simps split: if_splits
        elim!: bindF_more\<close>)
  moreover have "indefinite_f (Suc (Suc n)) buf p = Some q" if *: "indefinite_f (Suc n) buf p = Some q" for p q
    unfolding indefinite_f.simps(2) [of "Suc n"]
    by (rule bindF_more [OF * [unfolded indefinite_f.simps(2)]])
      (use Suc in \<open>auto simp: Let_def simp del: asn1length_f.simps indefinite_f.simps split: if_splits
        elim!: bindF_more\<close>)
  ultimately show ?case by blast
qed simp_all

lemma fuel_more:
  assumes "n \<le> m" and "asn1length_f n buf a = Some r"
  shows "asn1length_f m buf a = Some r"
  using assms(1) by (induction rule: dec_induct) (use assms(2) fuel_more_both in blast)+

lemma fuel_enough_both:
  "(\<forall>a. 2 * (length buf - a) < n \<longrightarrow> asn1length_f n buf a \<noteq> None) \<and>
   (\<forall>p. 2 * (length buf - p) + 1 < n \<longrightarrow> indefinite_f n buf p \<noteq> None)"
proof (induction n)
  case (Suc n)
  have "asn1length_f (Suc n) buf a \<noteq> None" if "2 * (length buf - a) < Suc n" for a
  proof
    assume "asn1length_f (Suc n) buf a = None"
    then obtain l b where "length_bytes buf (a + 1) l 0 = Done (0, b)" "a < length buf"
      "indefinite_f n buf (Suc b) = None"
      by (auto simp: bindF_eq_None byte_at_Done Let_def split: if_splits)
    moreover from this have "2 * (length buf - Suc b) + 1 < n"
      using that length_bytes_advances [of buf "a + 1" l 0 0 b] by auto
    ultimately show False using Suc by blast
  qed
  moreover have "indefinite_f (Suc n) buf p \<noteq> None" if "2 * (length buf - p) + 1 < Suc n" for p
  proof
    assume "indefinite_f (Suc n) buf p = None"
    then consider "asn1length_f n buf p = None"
      | len p' where "asn1length_f n buf p = Some (Done (len, p'))" "p' + nat len < length buf"
          "indefinite_f n buf (Suc (p' + nat len)) = None"
      by (auto simp: bindF_eq_None byte_at_Done Let_def split: if_splits)
    then show False
    proof cases
      case 2
      then have "2 * (length buf - Suc (p' + nat len)) + 1 < n"
        using that asn1length_f_advances(1) [OF 2(1)] by auto
      then show False using Suc 2(3) by blast
    qed (use Suc that in auto)
  qed
  ultimately show ?case by blast
qed simp_all

lemma asn1length_f_eq: "2 * length buf < n \<Longrightarrow> asn1length_f n buf a = Some (asn1length buf a)"
  using fuel_enough_both [of buf "2 * length buf + 1"] fuel_more [of "2 * length buf + 1" n buf a]
  by (auto simp: asn1length_def simp del: asn1length_f.simps split: option.split)

lemma asn1length_advances: "asn1length buf a = Done (len, a') \<Longrightarrow> a < a'"
  using asn1length_f_eq [of buf "2 * length buf + 1" a] asn1length_f_advances(1)
  by (simp del: asn1length_f.simps)

definition ASN1_CLASS_CTX :: octet where
  "ASN1_CLASS_CTX = 2"

definition asn1_id_constructed :: "octet \<Rightarrow> bool" where
  "asn1_id_constructed x \<longleftrightarrow> x AND 0x20 \<noteq> 0"

definition asn1_id_class :: "octet \<Rightarrow> octet" where
  "asn1_id_class x = drop_bit 6 (x AND 0xc0)"

definition asn1_id_tag :: "octet \<Rightarrow> int" where
  "asn1_id_tag x = uint (x AND 0x1f)"

text \<open>
  The search loop of \<open>fetch_asn1_field\<close>; the result is the place and the length of the field.
\<close>

function fetch_loop :: "octet list \<Rightarrow> nat \<Rightarrow> int \<Rightarrow> nat \<Rightarrow> nat \<Rightarrow> nat \<Rightarrow> int \<Rightarrow> int \<Rightarrow>
    (nat \<times> int) c_outcome" where
  "fetch_loop buf level field estream astream levels lastlevel classes =
     (if astream < estream then
        bindO (byte_at buf astream) (\<lambda>b.
          if \<not> asn1_id_constructed b then Error (-1)
          else
            let ctx = (asn1_id_class b = ASN1_CLASS_CTX); tag = asn1_id_tag b;
                deeper = (ctx \<and> tag \<le> lastlevel);
                levels = (if deeper then levels + 1 else levels);
                classes = (if deeper then -1 else classes);
                lastlevel = (if ctx then tag else lastlevel);
                ours = (ctx \<and> levels = level)
            in if ours \<and> tag = field then
                 bindO (byte_at buf (astream + 1)) (\<lambda>savelen.
                 bindO (asn1length buf (astream + 1)) (\<lambda>(len, astream).
                   Done (astream, if savelen = 0x80 then len - 2 else len)))
               else if ours \<and> tag \<le> classes then Error (-1)
               else
                 bindO (asn1length buf (astream + 1)) (\<lambda>(len, astream).
                   fetch_loop buf level field estream
                     (if levels = level then astream + nat len else astream) levels lastlevel
                     (if ours then tag else classes)))
      else Error (-1))"
  by pat_completeness auto
termination
  by (relation "measure (\<lambda>(buf, level, field, estream, astream, _). estream - astream)")
    (auto dest!: asn1length_advances)

declare fetch_loop.simps [simp del]

definition fetch_asn1_field :: "octet list \<Rightarrow> nat \<Rightarrow> int \<Rightarrow> (nat \<times> int) c_outcome" where
  "fetch_asn1_field buf level field =
     bindO (asn1length buf 1) (\<lambda>(len, astream).
       fetch_loop buf level field (1 + nat len) astream 0 1000 (-1))"

subsection \<open>Reading the stream an encoder writes\<close>

text \<open>
  Distinguished encoding as the standard prescribes it: the shortest form of the length, and
  the fields of a sequence under their context tags.
\<close>

definition der_length :: "nat \<Rightarrow> octet list" where
  "der_length n =
     (if n < 128 then [word_of_nat n]
      else if n < 256 then [0x81, word_of_nat n]
      else if n < 65536 then [0x82, word_of_nat (n div 256), word_of_nat n]
      else [0x83, word_of_nat (n div 65536), word_of_nat (n div 256), word_of_nat n])"

definition der_field :: "nat \<times> octet list \<Rightarrow> octet list" where
  "der_field f = (0xA0 + word_of_nat (fst f)) # der_length (length (snd f)) @ snd f"

definition der_sequence :: "(nat \<times> octet list) list \<Rightarrow> octet list" where
  "der_sequence fs = (let body = concat (map der_field fs) in 0x30 # der_length (length body) @ body)"

text \<open>A message: its application tag around a sequence.\<close>

definition der_message :: "octet \<Rightarrow> (nat \<times> octet list) list \<Rightarrow> octet list" where
  "der_message app fs = app # der_length (length (der_sequence fs)) @ der_sequence fs"

lemma uint_octet_nat: "uint (word_of_nat n :: octet) = int (n mod 256)"
  by (simp add: unsigned_of_nat take_bit_eq_mod zmod_int)

lemma length_byte_short: "n < 128 \<Longrightarrow> (word_of_nat n :: octet) AND 0x80 = 0"
proof -
  have "\<forall>n \<in> set [0..<128]. (word_of_nat n :: octet) AND 0x80 = 0" by code_simp
  then show "n < 128 \<Longrightarrow> ?thesis" by simp
qed

lemma der_tag_byte:
  assumes "t < 31"
  shows "asn1_id_constructed (0xA0 + word_of_nat t)" "asn1_id_class (0xA0 + word_of_nat t) = ASN1_CLASS_CTX"
    "asn1_id_tag (0xA0 + word_of_nat t) = int t"
proof -
  have "\<forall>t \<in> set [0..<31]. asn1_id_constructed (0xA0 + word_of_nat t) \<and>
      asn1_id_class (0xA0 + word_of_nat t) = ASN1_CLASS_CTX \<and> asn1_id_tag (0xA0 + word_of_nat t) = int t"
    by code_simp
  then show "asn1_id_constructed (0xA0 + word_of_nat t)"
    "asn1_id_class (0xA0 + word_of_nat t) = ASN1_CLASS_CTX" "asn1_id_tag (0xA0 + word_of_nat t) = int t"
    using assms by simp_all
qed

lemma byte_at_inside: "k < length xs \<Longrightarrow> byte_at (pre @ xs @ post) (length pre + k) = Done (xs ! k)"
  by (simp add: byte_at_def nth_append)

lemma bytes_value:
  "256 \<le> n \<Longrightarrow> n < 65536 \<Longrightarrow> (n div 256 mod 256) * 256 + n mod 256 = (n::nat)"
  "65536 \<le> n \<Longrightarrow> n < 16777216 \<Longrightarrow>
     ((n div 65536 mod 256) * 256 + n div 256 mod 256) * 256 + n mod 256 = (n::nat)"
proof -
  have 1: "(n div 256) * 256 + n mod 256 = n" for n :: nat by simp
  have 2: "n div 65536 = n div 256 div 256" for n :: nat by (simp add: div_mult2_eq [symmetric])
  show "256 \<le> n \<Longrightarrow> n < 65536 \<Longrightarrow> (n div 256 mod 256) * 256 + n mod 256 = n"
    by (simp only: mod_less 1 div_less_iff_less_mult)
  show "65536 \<le> n \<Longrightarrow> n < 16777216 \<Longrightarrow>
     ((n div 65536 mod 256) * 256 + n div 256 mod 256) * 256 + n mod 256 = n"
    by (simp only: 2 mod_less 1 div_less_iff_less_mult)
qed

lemma length_bytes_list:
  "length_bytes (pre @ xs @ post) (length pre) (length xs) len =
     Done (foldl (\<lambda>l b. l * 256 + uint b) len xs, length pre + length xs)"
proof (induction xs arbitrary: pre len)
  case (Cons x xs)
  from Cons [of "pre @ [x]"] byte_at_inside [of 0 "x # xs" pre post] show ?case by simp
qed simp

lemma asn1length_short:
  assumes "b AND 0x80 = 0"
  shows "asn1length (pre @ [b] @ post) (length pre) = Done (uint b, length pre + 1)"
  using assms byte_at_inside [of 0 "[b]" pre post] by (simp add: asn1length_def)

lemma asn1length_long:
  assumes "b AND 0x80 \<noteq> 0" and "unat (b AND 0x7f) = length xs" and "length xs \<le> 3"
    and "foldl (\<lambda>l b. l * 256 + uint b) 0 xs = len" and "len \<noteq> 0"
  shows "asn1length (pre @ (b # xs) @ post) (length pre) = Done (len, length pre + length (b # xs))"
  using assms byte_at_inside [of 0 "b # xs" pre post] length_bytes_list [of "pre @ [b]" xs post 0]
  by (simp add: asn1length_def)

lemma asn1length_der:
  assumes "n < 16777216"
  shows "asn1length (pre @ der_length n @ post) (length pre) = Done (int n, length pre + length (der_length n))"
proof -
  consider "n < 128" | "128 \<le> n" "n < 256" | "256 \<le> n" "n < 65536" | "65536 \<le> n"
    by linarith
  then show ?thesis
  proof cases
    case 1
    then show ?thesis
      using asn1length_short [OF length_byte_short [OF 1]] by (simp add: der_length_def uint_octet_nat)
  next
    case 2
    then have d: "der_length n = [0x81, word_of_nat n]" by (simp add: der_length_def)
    show ?thesis
      unfolding d by (rule asn1length_long) (use 2 in \<open>simp_all add: uint_octet_nat\<close>)
  next
    case 3
    then have d: "der_length n = [0x82, word_of_nat (n div 256), word_of_nat n]"
      by (simp add: der_length_def)
    have "int (n div 256 mod 256) * 256 + int (n mod 256) = int n"
      using arg_cong [OF bytes_value(1) [OF 3], of int] by (simp only: of_nat_add of_nat_mult of_nat_numeral)
    then show ?thesis
      unfolding d by (intro asn1length_long) (use 3 in \<open>simp_all add: uint_octet_nat del: of_nat_mod\<close>)
  next
    case 4
    then have d: "der_length n = [0x83, word_of_nat (n div 65536), word_of_nat (n div 256), word_of_nat n]"
      by (simp add: der_length_def)
    have "(int (n div 65536 mod 256) * 256 + int (n div 256 mod 256)) * 256 + int (n mod 256) = int n"
      using arg_cong [OF bytes_value(2) [OF 4 assms], of int]
      by (simp only: of_nat_add of_nat_mult of_nat_numeral)
    moreover have "n div 65536 mod 256 = n div 65536"
      using assms by simp
    ultimately show ?thesis
      unfolding d by (intro asn1length_long) (use 4 in \<open>simp_all only: foldl_Cons foldl_Nil uint_octet_nat, simp_all\<close>)
  qed
qed

lemma length_der_length: "1 \<le> length (der_length n)" "length (der_length n) \<le> 4"
  by (simp_all add: der_length_def)

lemma der_length_nonempty: "der_length n \<noteq> []"
  by (simp add: der_length_def)

lemma asn1length_der_at:
  assumes "n < 16777216" and "buf = pre @ b # der_length n @ post"
  shows "asn1length buf (length pre + 1) = Done (int n, length pre + 1 + length (der_length n))"
  using asn1length_der [OF assms(1), of "pre @ [b]" post] assms(2) by simp

text \<open>
  The search passes over the fields in front of the wanted one: below the level it is looking
  for only before the first field, and afterwards with the tag of the last field in
  \<open>lastlevel\<close> and \<open>classes\<close>.
\<close>

definition level_state :: "nat \<Rightarrow> int \<Rightarrow> int \<Rightarrow> (nat \<times> octet list) list \<Rightarrow> bool" where
  "level_state levels lastlevel classes fs \<longleftrightarrow>
     (levels = 0 \<and> lastlevel = 1000) \<or>
     (levels = 1 \<and> lastlevel = classes \<and> (\<forall>f \<in> set fs. lastlevel < int (fst f)))"

lemma fetch_step:
  assumes buf: "buf = pre @ der_field (t, c) @ post" and small: "t < 31" "length c < 16777216"
    and state: "level_state levels lastlevel classes ((t, c) # fs)" and more: "length pre < estream"
    and other: "int t \<noteq> field"
  shows "fetch_loop buf 1 field estream (length pre) levels lastlevel classes =
    fetch_loop buf 1 field estream (length (pre @ der_field (t, c))) 1 (int t) (int t)"
proof -
  define id :: octet where "id = 0xA0 + word_of_nat t"
  have buf': "buf = pre @ id # der_length (length c) @ c @ post"
    using buf by (simp add: der_field_def id_def)
  have b: "byte_at buf (length pre) = Done id"
    using byte_at_inside [of 0 "id # der_length (length c) @ c" pre post] buf' by simp
  have place: "length (pre @ der_field (t, c)) = length pre + 1 + length (der_length (length c)) + length c"
    by (simp add: der_field_def)
  show ?thesis
    using asn1length_der_at [OF small(2) buf'] state more other small(1)
    unfolding fetch_loop.simps [of buf 1 field estream "length pre"] b place
    by (auto simp: der_tag_byte [OF small(1), folded id_def] level_state_def Let_def)
qed

lemma fetch_found:
  assumes buf: "buf = pre @ der_field (t, c) @ post" and small: "t < 31" "length c < 16777216"
    and state: "level_state levels lastlevel classes ((t, c) # fs)" and more: "length pre < estream"
  shows "fetch_loop buf 1 (int t) estream (length pre) levels lastlevel classes =
    Done (length pre + 1 + length (der_length (length c)), int (length c))"
proof -
  define id :: octet where "id = 0xA0 + word_of_nat t"
  have buf': "buf = pre @ id # der_length (length c) @ c @ post"
    using buf by (simp add: der_field_def id_def)
  have b: "byte_at buf (length pre) = Done id"
    using byte_at_inside [of 0 "id # der_length (length c) @ c" pre post] buf' by simp
  have "der_length n ! 0 \<noteq> 0x80" for n
    using length_byte_short [of n] by (cases "n < 128") (auto simp: der_length_def)
  then have b': "byte_at buf (length pre + 1) = Done (der_length (length c) ! 0)"
      "der_length (length c) ! 0 \<noteq> 0x80"
    using byte_at_inside [of 0 "der_length (length c)" "pre @ [id]" "c @ post"] buf'
      der_length_nonempty by auto
  show ?thesis
    using asn1length_der_at [OF small(2) buf'] state more b' small(1)
    unfolding fetch_loop.simps [of buf 1 "int t" estream "length pre"] b
    by (auto simp: der_tag_byte [OF small(1), folded id_def] level_state_def Let_def)
qed

lemma fetch_fields:
  assumes "level_state levels lastlevel classes (before @ (t, c) # after)"
    and "sorted_wrt (<) (map fst (before @ (t, c) # after))"
    and "\<forall>f \<in> set (before @ (t, c) # after). fst f < 31 \<and> length (snd f) < 16777216"
    and "buf = pre @ concat (map der_field (before @ (t, c) # after))"
    and "length pre + length (concat (map der_field before)) < estream"
  shows "fetch_loop buf 1 (int t) estream (length pre) levels lastlevel classes =
    Done (length pre + length (concat (map der_field before)) + 1 + length (der_length (length c)), int (length c))"
  using assms
proof (induction before arbitrary: pre levels lastlevel classes)
  case Nil
  then show ?case
    using fetch_found [of buf pre t c "concat (map der_field after)" levels lastlevel classes after estream]
    by simp
next
  case (Cons f before)
  obtain u d where f: "f = (u, d)" by (cases f)
  have "fetch_loop buf 1 (int t) estream (length pre) levels lastlevel classes =
      fetch_loop buf 1 (int t) estream (length (pre @ der_field (u, d))) 1 (int u) (int u)"
    by (rule fetch_step [where fs = "before @ (t, c) # after"]) (use Cons.prems f in auto)
  also have "\<dots> = Done (length (pre @ der_field (u, d)) + length (concat (map der_field before)) + 1 +
      length (der_length (length c)), int (length c))"
    by (rule Cons.IH) (use Cons.prems f in \<open>auto simp: level_state_def\<close>)
  finally show ?case by (simp add: f)
qed

lemma fetch_enters_sequence:
  assumes "buf = app # der_length m @ 0x30 # der_length n @ body" and "m < 16777216" "n < 16777216"
    and "1 + length (der_length m) < estream"
  shows "fetch_loop buf 1 field estream (1 + length (der_length m)) 0 1000 (-1) =
    fetch_loop buf 1 field estream (2 + length (der_length m) + length (der_length n)) 0 1000 (-1)"
proof -
  have b: "byte_at buf (1 + length (der_length m)) = Done 0x30"
    using byte_at_inside [of 0 "[0x30]" "app # der_length m" "der_length n @ body"] assms(1) by simp
  have "asn1length buf (1 + length (der_length m) + 1) = Done (int n, 2 + length (der_length m) + length (der_length n))"
    using asn1length_der [OF assms(3), of "app # der_length m @ [0x30]" body] assms(1) by simp
  moreover have "asn1_id_constructed 0x30" "asn1_id_class 0x30 \<noteq> ASN1_CLASS_CTX"
    by (simp_all add: asn1_id_constructed_def asn1_id_class_def ASN1_CLASS_CTX_def)
  ultimately show ?thesis
    unfolding fetch_loop.simps [of buf 1 field estream "1 + length (der_length m)"] b
    using assms(4) by (simp add: Let_def)
qed

section \<open>Properties\<close>

text \<open>
  C28. The request body the KDC checks the client's checksum against is the one the client
  sent: in a message encoded by the distinguished rules with its fields in the order of their
  tags, \<open>fetch_asn1_field\<close> at level 1 returns the place and length of the contents of the field
  with the wanted tag, for every field of at least three bytes, and the contents found there
  are the contents of that field.
\<close>

theorem fetch_asn1_field_correct:
  assumes "sorted_wrt (<) (map fst fs)" and "\<forall>f \<in> set fs. fst f < 31"
    and "length (der_message app fs) < 16777216" and "(t, c) \<in> set fs" and "3 \<le> length c"
  shows "\<exists>start. fetch_asn1_field (der_message app fs) 1 (int t) = Done (start, int (length c)) \<and>
    take (length c) (drop start (der_message app fs)) = c"
proof -
  obtain before after where fs: "fs = before @ (t, c) # after"
    using assms(4) by (meson split_list)
  define m n pre where "m = length (der_sequence fs)" and "n = length (concat (map der_field fs))"
    and "pre = app # der_length m @ 0x30 # der_length n"
  define buf where "buf = der_message app fs"
  have buf: "buf = pre @ concat (map der_field fs)"
    by (simp add: buf_def pre_def m_def n_def der_message_def der_sequence_def Let_def)
  have m: "m = 1 + length (der_length n) + n"
    by (simp add: m_def n_def der_sequence_def Let_def)
  have small: "m < 16777216" "n < 16777216"
    using assms(3) m by (simp_all add: der_message_def m_def)
  have sizes: "\<forall>f \<in> set fs. length (snd f) < 16777216"
  proof
    fix f assume "f \<in> set fs"
    then have "length (der_field f) \<le> n"
      unfolding n_def by (auto simp: length_concat intro!: member_le_sum_list)
    then show "length (snd f) < 16777216" using small by (simp add: der_field_def)
  qed
  have n: "n = length (concat (map der_field before)) + 1 + length (der_length (length c)) + length c +
      length (concat (map der_field after))"
    by (simp add: n_def fs der_field_def)
  have room: "length pre + length (concat (map der_field before)) < 1 + m"
    using m n length_der_length(2) [of m] length_der_length(1) [of "length c"] assms(5)
    by (simp add: pre_def)
  have len: "length pre = 2 + length (der_length m) + length (der_length n)"
    by (simp add: pre_def)
  have "asn1length buf 1 = Done (int m, 1 + length (der_length m))"
    using asn1length_der [OF small(1), of "[app]" "0x30 # der_length n @ concat (map der_field fs)"]
    by (simp add: buf pre_def)
  then have "fetch_asn1_field buf 1 (int t) =
      fetch_loop buf 1 (int t) (1 + m) (1 + length (der_length m)) 0 1000 (-1)"
    by (simp add: fetch_asn1_field_def)
  also have "\<dots> = fetch_loop buf 1 (int t) (1 + m) (length pre) 0 1000 (-1)"
    unfolding len by (rule fetch_enters_sequence [where body = "concat (map der_field fs)"])
      (use small length_der_length [of m] m n assms(5) in \<open>auto simp: buf pre_def\<close>)
  also have "\<dots> = Done (length pre + length (concat (map der_field before)) + 1 + length (der_length (length c)),
      int (length c))"
    by (rule fetch_fields [where after = after])
      (use assms fs buf sizes room in \<open>auto simp: level_state_def\<close>)
  finally show ?thesis
    using buf by (auto simp: fs der_field_def buf_def)
qed

definition sample_request_fields :: "(nat \<times> octet list) list" where
  "sample_request_fields = [(1, [2, 1, 5]), (2, [2, 1, 12]), (3, [0x30, 0]), (4, 0x30 # 0x82 # replicate 300 7)]"

theorem fetch_asn1_field_correct_witness:
  "\<exists>start. fetch_asn1_field (der_message 0x6c sample_request_fields) 1 4 = Done (start, 302) \<and>
     take 302 (drop start (der_message 0x6c sample_request_fields)) = 0x30 # 0x82 # replicate 300 7"
  using fetch_asn1_field_correct [of sample_request_fields "0x6c" 4 "0x30 # 0x82 # replicate 300 7"]
  by (simp add: sample_request_fields_def der_message_def der_sequence_def der_field_def der_length_def)

text \<open>
  The session key type is the client's first choice the KDC and the server can use:
  \<open>select_session_keytype\<close> returns the first type of the request that is in the KDC's table
  and that the server's entry supports, and 0 exactly when there is none.
\<close>

theorem select_session_keytype_first:
  "select_session_keytype server ktypes =
     (case find (\<lambda>k. valid_enctype k \<and> dbentry_supports_enctype server k) ktypes of
        None \<Rightarrow> 0 | Some k \<Rightarrow> k) \<and>
   (select_session_keytype server ktypes = 0 \<longleftrightarrow>
      find (\<lambda>k. valid_enctype k \<and> dbentry_supports_enctype server k) ktypes = None)"
proof (induction server ktypes rule: select_session_keytype.induct)
  case (2 server k ktypes)
  moreover have "valid_enctype k \<Longrightarrow> k \<noteq> 0"
    by (auto simp: valid_enctypes)
  ultimately show ?case
    by (cases "valid_enctype k"; cases "dbentry_supports_enctype server k") simp_all
qed simp

text \<open>
  A request with the \<open>PROXY\<close> option is accepted only for a ticket-granting service: the
  test that is to keep ticket-granting tickets from being proxied has its comparison the
  wrong way round, and refuses every other server.
\<close>

theorem proxy_accepted_only_for_tgt:
  assumes "isflagset (rq_kdc_options request) KDC_OPT_PROXY"
    and "validate_tgs_request request rserver tgs_server server ticket tkt kdc_time = None"
  shows "krb5_is_tgs_principal rserver"
proof -
  have "p_data rserver \<noteq> [] \<and> hd (p_data rserver) = KRB5_TGS_NAME"
    using assms unfolding validate_tgs_request_def
    by (simp add: tgs_option_checks_def Let_def ball_Un)
  then show ?thesis
    by (cases "p_data rserver")
      (simp_all add: krb5_is_tgs_principal_def krb5_princ_component_def KRB5_TGS_NAME_def KRB5_TGS_NAME_SIZE_def)
qed

definition sample_tgs_principal :: krb5_principal where
  "sample_tgs_principal = \<lparr>p_realm = ''ATHENA.MIT.EDU'', p_data = [''krbtgt'', ''ATHENA.MIT.EDU''], p_type = 2\<rparr>"

definition sample_client :: krb5_principal where
  "sample_client = \<lparr>p_realm = ''ATHENA.MIT.EDU'', p_data = [''jis''], p_type = 1\<rparr>"

definition sample_key_data :: "int \<Rightarrow> krb5_key_data" where
  "sample_key_data ktype =
     \<lparr>key_data_ver = 1, key_data_kvno = 3, key_data_type = [ktype, 0], key_data_contents = [[1, 2, 3, 4, 5, 6, 7, 8], []]\<rparr>"

definition sample_db_entry :: "krb5_principal \<Rightarrow> flags \<Rightarrow> krb5_db_entry" where
  "sample_db_entry p attr =
     \<lparr>db_len = 38, db_attributes = attr, db_max_life = 36000, db_max_renewable_life = 604800,
      db_expiration = 0, db_pw_expiration = 0, db_last_success = 0, db_last_failed = 0,
      db_fail_auth_count = 0, db_n_tl_data = 0, db_e_data = [], db_princ = p, db_tl_data = [],
      db_key_data = [sample_key_data 1]\<rparr>"

definition sample_kdc_req :: "krb5_principal \<Rightarrow> flags \<Rightarrow> krb5_kdc_req" where
  "sample_kdc_req server options =
     \<lparr>rq_padata = None, rq_kdc_options = options, rq_client = Some sample_client, rq_server = Some server,
      rq_from = 0, rq_till = 1086400, rq_rtime = 0, rq_nonce = 42, rq_ktype = [16, 1], rq_addresses = None,
      rq_authdata = None, rq_second_ticket = []\<rparr>"

definition sample_tkt_part :: "flags \<Rightarrow> krb5_enc_tkt_part" where
  "sample_tkt_part fl =
     \<lparr>et_flags = fl, et_session = \<lparr>kb_enctype = 1, kb_contents = [8, 7, 6, 5, 4, 3, 2, 1]\<rparr>, et_client = sample_client,
      et_transited = \<lparr>tr_type = 1, tr_contents = []\<rparr>,
      et_times = \<lparr>authtime = 999000, starttime = 999000, endtime = 1035000, renew_till = 1600000\<rparr>,
      et_caddrs = None, et_authdata = None\<rparr>"

definition sample_ticket :: "flags \<Rightarrow> krb5_ticket" where
  "sample_ticket fl =
     \<lparr>tk_server = sample_tgs_principal, tk_enc_part = \<lparr>ed_enctype = 1, ed_kvno = 3, ed_ciphertext = []\<rparr>,
      tk_enc_part2 = Some (sample_tkt_part fl)\<rparr>"

theorem proxy_accepted_only_for_tgt_witness:
  "validate_tgs_request (sample_kdc_req sample_tgs_principal KDC_OPT_PROXY) sample_tgs_principal
     sample_tgs_principal (sample_db_entry sample_tgs_principal 0) (sample_ticket TKT_FLG_PROXIABLE)
     (sample_tkt_part TKT_FLG_PROXIABLE) 1000000 = None \<and>
   krb5_is_tgs_principal sample_tgs_principal"
proof -
  have "isflagset (rq_kdc_options (sample_kdc_req sample_tgs_principal KDC_OPT_PROXY)) KDC_OPT_PROXY"
    by code_simp
  moreover have "validate_tgs_request (sample_kdc_req sample_tgs_principal KDC_OPT_PROXY) sample_tgs_principal
     sample_tgs_principal (sample_db_entry sample_tgs_principal 0) (sample_ticket TKT_FLG_PROXIABLE)
     (sample_tkt_part TKT_FLG_PROXIABLE) 1000000 = None"
    by code_simp
  ultimately show ?thesis
    using proxy_accepted_only_for_tgt by blast
qed

end
