(* ===== verification/Kdc_Env.thy ===== *)
theory Kdc_Env
  imports Kdc_Validate
begin

text \<open>
  What the KDC's handlers work with: the remaining message structures of
  \<open>include/krb5.hin\<close> and \<open>include/k5-int.h\<close>, the realm's data (\<open>kdc/extern.h\<close>), and the
  services the handlers call that are not part of this development, as functions in three
  records: the database, the clock and the replay cache (\<open>kdc_realm\<close>), the encryption library
  (\<open>kdc_crypto\<close>) and the ASN.1 encoders and decoders (\<open>kdc_codec\<close>).

  A handler's control flow is a \<open>handler\<close> value: it continues, or jumps to the error exit with
  a code, a status text and error data, or has undefined behaviour (a null pointer is
  followed, or memory outside an object is accessed).
\<close>

section \<open>Messages\<close>

record krb5_authenticator =
  au_client :: krb5_principal
  au_checksum :: "krb5_checksum option"
  au_cusec :: int
  au_ctime :: krb5_timestamp
  au_subkey :: "krb5_keyblock option"
  au_seq_number :: int
  au_authorization_data :: "krb5_authdata list option"

record krb5_last_req_entry =
  lr_type :: int
  lr_value :: krb5_timestamp

record krb5_enc_kdc_rep_part =
  rp_session :: krb5_keyblock
  rp_last_req :: "krb5_last_req_entry list"
  rp_nonce :: int
  rp_key_exp :: krb5_timestamp
  rp_flags :: flags
  rp_times :: krb5_ticket_times
  rp_server :: krb5_principal
  rp_caddrs :: "krb5_address list option"

text \<open>
  The encrypted part of a reply is made by \<open>krb5_encode_kdc_rep\<close>; the handlers set its
  encryption type only.
\<close>

record krb5_kdc_rep =
  kr_msg_type :: int
  kr_padata :: "krb5_pa_data list option"
  kr_client :: krb5_principal
  kr_ticket :: krb5_ticket
  kr_enc_part_enctype :: krb5_enctype

record krb5_error =
  er_ctime :: krb5_timestamp
  er_cusec :: int
  er_susec :: int
  er_stime :: krb5_timestamp
  er_error :: int
  er_client :: "krb5_principal option"
  er_server :: "krb5_principal option"
  er_text :: string
  er_e_data :: "octet list"

record krb5_ap_req =
  ap_options :: flags
  ap_ticket :: krb5_ticket
  ap_authenticator :: krb5_enc_data

record krb5_donot_replay =
  dr_server :: string
  dr_client :: string
  dr_cusec :: int
  dr_ctime :: krb5_timestamp

record krb5_predicted_sam_response =
  psr_sam_key :: krb5_keyblock
  psr_sam_flags :: flags
  psr_stime :: krb5_timestamp
  psr_susec :: int
  psr_client :: krb5_principal

record krb5_sam_challenge =
  sc_sam_type :: int
  sc_sam_flags :: flags
  sc_sam_type_name :: string
  sc_sam_track_id :: "octet list"
  sc_sam_challenge_label :: string
  sc_sam_challenge :: string
  sc_sam_response_prompt :: string
  sc_sam_nonce :: int

record krb5_sam_response =
  sr_sam_track_id :: "octet list"
  sr_sam_enc_nonce_or_ts :: krb5_enc_data
  sr_sam_patimestamp :: krb5_timestamp

section \<open>Services\<close>

text \<open>
  A lookup returns the entries found, at most the one that was asked for, and whether there
  are more.  \<open>pa_timeofday\<close> is the clock as it is read while a preauthentication element is
  checked.  \<open>rc_store\<close> is the replay cache's answer to a record.
\<close>

record kdc_realm =
  realm_maxlife :: krb5_deltat
  realm_maxrlife :: krb5_deltat
  realm_tgsprinc :: krb5_principal
  db_get_principal :: "krb5_principal \<Rightarrow> (krb5_db_entry list \<times> bool) krb5_result"
  timeofday :: "krb5_timestamp krb5_result"
  us_timeofday :: "(krb5_timestamp \<times> int) krb5_result"
  pa_timeofday :: "krb5_pa_data \<Rightarrow> krb5_timestamp krb5_result"
  clockskew :: krb5_deltat
  rc_lifetime :: krb5_deltat
  rc_store :: "krb5_donot_replay \<Rightarrow> krb5_error_code"
  error_message :: "int \<Rightarrow> string"

text \<open>
  The first argument of \<open>c_make_random_key\<close> numbers the calls made for one request.
  \<open>dbekd_decrypt_key_data\<close> works under the master key.
\<close>

record kdc_crypto =
  c_make_random_key :: "nat \<Rightarrow> krb5_enctype \<Rightarrow> krb5_keyblock krb5_result"
  c_encrypt :: "krb5_keyblock \<Rightarrow> int \<Rightarrow> octet list \<Rightarrow> (octet list) krb5_result"
  c_decrypt :: "krb5_keyblock \<Rightarrow> int \<Rightarrow> krb5_enc_data \<Rightarrow> (octet list) krb5_result"
  c_string_to_key :: "krb5_enctype \<Rightarrow> string \<Rightarrow> krb5_keyblock krb5_result"
  c_verify_checksum :: "krb5_keyblock \<Rightarrow> int \<Rightarrow> octet list \<Rightarrow> krb5_checksum \<Rightarrow> bool krb5_result"
  valid_cksumtype :: "int \<Rightarrow> bool"
  is_coll_proof_cksum :: "int \<Rightarrow> bool"
  dbekd_decrypt_key_data :: "krb5_key_data \<Rightarrow> krb5_keyblock krb5_result"
  encrypt_tkt_part :: "krb5_keyblock \<Rightarrow> krb5_enc_tkt_part \<Rightarrow> krb5_enc_data krb5_result"
  decrypt_tkt_part :: "krb5_keyblock \<Rightarrow> krb5_ticket \<Rightarrow> krb5_enc_tkt_part krb5_result"
  fixup_key_parity :: "octet list \<Rightarrow> octet list"
  is_weak_key :: "octet list \<Rightarrow> bool"
  psr_key :: krb5_keyblock

record kdc_codec =
  decode_enc_data :: "octet list \<Rightarrow> krb5_enc_data krb5_result"
  decode_pa_enc_ts :: "octet list \<Rightarrow> krb5_timestamp krb5_result"
  decode_sam_response :: "octet list \<Rightarrow> krb5_sam_response krb5_result"
  decode_predicted_sam_response :: "octet list \<Rightarrow> krb5_predicted_sam_response krb5_result"
  decode_enc_sam_response_enc :: "octet list \<Rightarrow> krb5_timestamp krb5_result"
  decode_authdata :: "octet list \<Rightarrow> krb5_authdata list krb5_result"
  decode_ap_req :: "octet list \<Rightarrow> krb5_ap_req krb5_result"
  encode_etype_info :: "(krb5_enctype \<times> octet list option) list \<Rightarrow> (octet list) krb5_result"
  encode_padata_sequence :: "krb5_pa_data list \<Rightarrow> (octet list) krb5_result"
  encode_predicted_sam_response :: "krb5_predicted_sam_response \<Rightarrow> (octet list) krb5_result"
  encode_sam_challenge :: "krb5_sam_challenge \<Rightarrow> (octet list) krb5_result"
  encode_kdc_req_body :: "krb5_kdc_req \<Rightarrow> (octet list) krb5_result"
  encode_kdc_rep :: "krb5_enc_kdc_rep_part \<Rightarrow> bool \<Rightarrow> krb5_keyblock \<Rightarrow> krb5_kdc_rep \<Rightarrow> (octet list) krb5_result"
  mk_error :: "krb5_error \<Rightarrow> (octet list) krb5_result"

definition kdc_infinity :: krb5_timestamp where
  "kdc_infinity = KRB5_INT32_MAX"

section \<open>Control flow of a handler\<close>

datatype 'a handler = Continue 'a | Errout krb5_error_code string "octet list" | Undefined

fun bindH :: "'a handler \<Rightarrow> ('a \<Rightarrow> 'b handler) \<Rightarrow> 'b handler" where
  "bindH (Continue x) f = f x"
| "bindH (Errout errcode status e_data) f = Errout errcode status e_data"
| "bindH Undefined f = Undefined"

definition tryH :: "'a krb5_result \<Rightarrow> string \<Rightarrow> 'a handler" where
  "tryH r status = (case r of Inl errcode \<Rightarrow> Errout errcode status [] | Inr x \<Rightarrow> Continue x)"

definition checkH :: "bool \<Rightarrow> krb5_error_code \<Rightarrow> string \<Rightarrow> unit handler" where
  "checkH failed errcode status = (if failed then Errout errcode status [] else Continue ())"

lemma bindH_eq_Continue: "bindH m f = Continue y \<longleftrightarrow> (\<exists>x. m = Continue x \<and> f x = Continue y)"
  by (cases m) simp_all

lemma bindH_eq_Errout:
  "bindH m f = Errout e s d \<longleftrightarrow> m = Errout e s d \<or> (\<exists>x. m = Continue x \<and> f x = Errout e s d)"
  by (cases m) auto

lemma tryH_eq_Continue: "tryH r s = Continue x \<longleftrightarrow> r = Inr x"
  by (simp add: tryH_def split: sum.split)

lemma checkH_eq_Continue: "checkH b e s = Continue u \<longleftrightarrow> \<not> b"
  by (simp add: checkH_def)

lemmas handler_continue = bindH_eq_Continue tryH_eq_Continue checkH_eq_Continue

text \<open>A name that is printed for the log; printing a name without components is undefined.\<close>

definition unparseH :: "krb5_principal \<Rightarrow> string handler" where
  "unparseH p = (case krb5_unparse_name p of None \<Rightarrow> Undefined | Some name \<Rightarrow> Continue (limit_string name))"

text \<open>
  The error exit common to both handlers: the code becomes a protocol error number.
\<close>

definition protocol_error :: "krb5_error_code \<Rightarrow> int" where
  "protocol_error errcode =
     (let errcode = errcode - ERROR_TABLE_BASE_krb5
      in if errcode < 0 \<or> errcode > 128 then KRB_ERR_GENERIC else errcode)"

lemma protocol_error_range: "0 \<le> protocol_error e" "protocol_error e \<le> 128"
  by (simp_all add: protocol_error_def Let_def KRB_ERR_GENERIC_def)

lemma protocol_error_table:
  "0 \<le> n \<Longrightarrow> n \<le> 128 \<Longrightarrow> protocol_error (n + ERROR_TABLE_BASE_krb5) = n"
  by (simp add: protocol_error_def)

section \<open>A concrete environment\<close>

text \<open>
  Services the statements about the handlers can be evaluated on: a cipher that puts the key
  in front of the text, a database with one client and the ticket-granting service, and a
  fixed clock.
\<close>

definition sample_number :: "octet list \<Rightarrow> int" where
  "sample_number bs = foldl (\<lambda>n b. n * 256 + uint b) 0 bs"

definition sample_seal :: "krb5_keyblock \<Rightarrow> octet list \<Rightarrow> octet list" where
  "sample_seal key plain = kb_contents key @ plain"

definition sample_open :: "krb5_keyblock \<Rightarrow> octet list \<Rightarrow> (octet list) krb5_result" where
  "sample_open key cipher =
     (let n = length (kb_contents key) in
      if take n cipher = kb_contents key then Inr (drop n cipher) else Inl KRB5KRB_AP_ERR_BAD_INTEGRITY)"

definition sample_realm :: "flags \<Rightarrow> kdc_realm" where
  "sample_realm attr =
     \<lparr>realm_maxlife = 86400, realm_maxrlife = 604800, realm_tgsprinc = sample_tgs_principal,
      db_get_principal = (\<lambda>p. if p_data p = p_data sample_client then Inr ([sample_db_entry sample_client attr], False)
        else if p_data p = p_data sample_tgs_principal then Inr ([sample_db_entry sample_tgs_principal 0], False)
        else Inr ([], False)),
      timeofday = Inr 1000000, us_timeofday = Inr (1000000, 0), pa_timeofday = (\<lambda>pa. Inr 1000001),
      clockskew = 300, rc_lifetime = 1200, rc_store = (\<lambda>rep. 0), error_message = (\<lambda>e. ''error'')\<rparr>"

definition sample_crypto :: kdc_crypto where
  "sample_crypto =
     \<lparr>c_make_random_key = (\<lambda>n e. Inr \<lparr>kb_enctype = e, kb_contents = replicate 8 (word_of_nat (9 + n))\<rparr>),
      c_encrypt = (\<lambda>key usage plain. Inr (sample_seal key plain)),
      c_decrypt = (\<lambda>key usage enc. sample_open key (ed_ciphertext enc)),
      c_string_to_key = (\<lambda>e s. Inr \<lparr>kb_enctype = e, kb_contents = octets s\<rparr>),
      c_verify_checksum = (\<lambda>key usage bytes cksum. Inr (cksum_contents cksum = bytes)),
      valid_cksumtype = (\<lambda>t. True), is_coll_proof_cksum = (\<lambda>t. True),
      dbekd_decrypt_key_data = (\<lambda>k. Inr \<lparr>kb_enctype = key_data_type k ! 0, kb_contents = key_data_contents k ! 0\<rparr>),
      encrypt_tkt_part = (\<lambda>key tkt. Inr \<lparr>ed_enctype = kb_enctype key, ed_kvno = 0, ed_ciphertext = kb_contents key\<rparr>),
      decrypt_tkt_part = (\<lambda>key ticket. Inr (sample_tkt_part 0)),
      fixup_key_parity = (\<lambda>k. k), is_weak_key = (\<lambda>k. False),
      psr_key = \<lparr>kb_enctype = 1, kb_contents = [1]\<rparr>\<rparr>"

definition sample_codec :: kdc_codec where
  "sample_codec =
     \<lparr>decode_enc_data = (\<lambda>bs. Inr \<lparr>ed_enctype = 1, ed_kvno = 0, ed_ciphertext = bs\<rparr>),
      decode_pa_enc_ts = (\<lambda>bs. Inr (sample_number bs)),
      decode_sam_response = (\<lambda>bs. Inl 1), decode_predicted_sam_response = (\<lambda>bs. Inl 1),
      decode_enc_sam_response_enc = (\<lambda>bs. Inl 1), decode_authdata = (\<lambda>bs. Inr []),
      decode_ap_req = (\<lambda>bs. Inr \<lparr>ap_options = 0, ap_ticket = sample_ticket 0,
        ap_authenticator = \<lparr>ed_enctype = 1, ed_kvno = 0, ed_ciphertext = bs\<rparr>\<rparr>),
      encode_etype_info = (\<lambda>entries. Inr (map (\<lambda>e. word_of_int (fst e)) entries)),
      encode_padata_sequence = (\<lambda>pas. Inr (map (\<lambda>pa. word_of_int (pa_type pa)) pas)),
      encode_predicted_sam_response = (\<lambda>psr. Inr []), encode_sam_challenge = (\<lambda>sc. Inr []),
      encode_kdc_req_body = (\<lambda>request. Inr []),
      encode_kdc_rep = (\<lambda>part subkey key rep. Inr [word_of_int (kr_msg_type rep)]),
      mk_error = (\<lambda>err. Inr [word_of_int (er_error err)])\<rparr>"

text \<open>An encrypted timestamp for the client's key, of the second 1000000.\<close>

definition sample_timestamp :: krb5_pa_data where
  "sample_timestamp = \<lparr>pa_type = 2, pa_contents = [1, 2, 3, 4, 5, 6, 7, 8] @ [15, 66, 64]\<rparr>"

end
