(* ===== verification/Kdc_Preauth.thy ===== *)
theory Kdc_Preauth
  imports Kdc_Env
begin

text \<open>
  Preauthentication in the KDC (\<open>kdc/kdc_preauth.c\<close>): the table of systems, the check of the
  elements of a request, the hints sent back when preauthentication is required, and the
  elements returned with a reply; with the procedures for encrypted timestamps, salts and the
  single-use authentication mechanism (SAM).
\<close>

section \<open>The table of systems\<close>

datatype edata_proc = Get_etype_info | Get_sam_edata
datatype verify_proc = Verify_enc_timestamp | Verify_sam_response
datatype return_proc = Return_pw_salt | Return_sam_data

record krb5_preauth_systems =
  ps_name :: string
  ps_type :: int
  ps_flags :: flags
  ps_get_edata :: "edata_proc option"
  ps_verify_padata :: "verify_proc option"
  ps_return_padata :: "return_proc option"

definition KRB5_PADATA_AP_REQ :: int where "KRB5_PADATA_AP_REQ = 1"
definition KRB5_PADATA_ENC_TIMESTAMP :: int where "KRB5_PADATA_ENC_TIMESTAMP = 2"
definition KRB5_PADATA_PW_SALT :: int where "KRB5_PADATA_PW_SALT = 3"
definition KRB5_PADATA_AFS3_SALT :: int where "KRB5_PADATA_AFS3_SALT = 10"
definition KRB5_PADATA_ETYPE_INFO :: int where "KRB5_PADATA_ETYPE_INFO = 11"
definition KRB5_PADATA_SAM_CHALLENGE :: int where "KRB5_PADATA_SAM_CHALLENGE = 12"
definition KRB5_PADATA_SAM_RESPONSE :: int where "KRB5_PADATA_SAM_RESPONSE = 13"

lemmas padata_types = KRB5_PADATA_AP_REQ_def KRB5_PADATA_ENC_TIMESTAMP_def KRB5_PADATA_PW_SALT_def
  KRB5_PADATA_AFS3_SALT_def KRB5_PADATA_ETYPE_INFO_def KRB5_PADATA_SAM_CHALLENGE_def KRB5_PADATA_SAM_RESPONSE_def

definition PA_HARDWARE :: flags where "PA_HARDWARE = 0x00000001"
definition PA_REQUIRED :: flags where "PA_REQUIRED = 0x00000002"
definition PA_SUFFICIENT :: flags where "PA_SUFFICIENT = 0x00000004"
definition PA_PSEUDO :: flags where "PA_PSEUDO = 0x00000008"

definition KRB5_PREAUTH_BAD_TYPE :: krb5_error_code where "KRB5_PREAUTH_BAD_TYPE = krb5_err 208"

definition preauth_systems :: "krb5_preauth_systems list" where
  "preauth_systems =
     [\<lparr>ps_name = ''timestamp'', ps_type = KRB5_PADATA_ENC_TIMESTAMP, ps_flags = 0,
       ps_get_edata = None, ps_verify_padata = Some Verify_enc_timestamp, ps_return_padata = None\<rparr>,
      \<lparr>ps_name = ''etype-info'', ps_type = KRB5_PADATA_ETYPE_INFO, ps_flags = 0,
       ps_get_edata = Some Get_etype_info, ps_verify_padata = None, ps_return_padata = None\<rparr>,
      \<lparr>ps_name = ''pw-salt'', ps_type = KRB5_PADATA_PW_SALT, ps_flags = PA_PSEUDO,
       ps_get_edata = None, ps_verify_padata = None, ps_return_padata = Some Return_pw_salt\<rparr>,
      \<lparr>ps_name = ''sam-response'', ps_type = KRB5_PADATA_SAM_RESPONSE, ps_flags = 0,
       ps_get_edata = None, ps_verify_padata = Some Verify_sam_response, ps_return_padata = Some Return_sam_data\<rparr>,
      \<lparr>ps_name = ''sam-challenge'', ps_type = KRB5_PADATA_SAM_CHALLENGE, ps_flags = PA_HARDWARE,
       ps_get_edata = Some Get_sam_edata, ps_verify_padata = None, ps_return_padata = None\<rparr>]"

definition find_pa_system :: "int \<Rightarrow> krb5_preauth_systems krb5_result" where
  "find_pa_system type =
     (case find (\<lambda>ap. ps_type ap = type) preauth_systems of
        None \<Rightarrow> Inl KRB5_PREAUTH_BAD_TYPE | Some ap \<Rightarrow> Inr ap)"

text \<open>The status text for a missing kind of preauthentication; \<open>None\<close> is the null pointer.\<close>

definition missing_required_preauth :: "krb5_db_entry \<Rightarrow> krb5_db_entry \<Rightarrow> krb5_enc_tkt_part \<Rightarrow> string option" where
  "missing_required_preauth client server enc_tkt_reply =
     (if isflagset (db_attributes client) KRB5_KDB_REQUIRES_PRE_AUTH \<and>
         \<not> isflagset (et_flags enc_tkt_reply) TKT_FLG_PRE_AUTH then Some ''NEEDED_PREAUTH''
      else if isflagset (db_attributes client) KRB5_KDB_REQUIRES_HW_AUTH \<and>
         \<not> isflagset (et_flags enc_tkt_reply) TKT_FLG_HW_AUTH then Some ''NEEDED_HW_PREAUTH''
      else None)"

section \<open>Encrypted timestamps\<close>

lemma search_loop_index:
  "search_loop ktype stype kvno best i ks = Inr (Some (m, d, j)) \<Longrightarrow>
     best = Some (m, d, j) \<or> (i \<le> j \<and> j < i + length ks \<and> d \<in> set ks)"
proof (induction ks arbitrary: best i)
  case (Cons k ks)
  have step: "search_loop ktype stype kvno best i (k # ks) = Inr (Some (m, d, j)) \<Longrightarrow>
      search_loop ktype stype kvno best (Suc i) ks = Inr (Some (m, d, j)) \<or>
      search_loop ktype stype kvno (Some (key_data_kvno k, k, i)) (Suc i) ks = Inr (Some (m, d, j)) \<or>
      (d, j) = (k, i)"
    by (simp split: sum.splits if_splits)
  show ?case
    using step [OF Cons.prems] Cons.IH [of best "Suc i"] Cons.IH [of "Some (key_data_kvno k, k, i)" "Suc i"]
    by auto
qed simp

lemma search_enctype_advances:
  assumes "krb5_dbe_search_enctype entry start ktype stype kvno = Inr (k, next)"
  shows "start < next \<and> next \<le> length (db_key_data entry) \<and> k \<in> set (db_key_data entry)"
proof -
  from assms obtain v m j where
    "search_loop ktype stype v None start (drop start (db_key_data entry)) = Inr (Some (m, k, j))" "next = j + 1"
    by (auto simp: krb5_dbe_search_enctype_def Let_def split: sum.splits option.splits prod.splits)
  then show ?thesis
    by (auto dest!: search_loop_index in_set_dropD)
qed

lemma search_enctype_decreases:
  "krb5_dbe_search_enctype entry start ktype stype kvno = Inr (k, next) \<Longrightarrow>
     length (db_key_data entry) - next < length (db_key_data entry) - start"
  using search_enctype_advances by fastforce

definition KRB5_KEYUSAGE_AS_REQ_PA_ENC_TS :: int where "KRB5_KEYUSAGE_AS_REQ_PA_ENC_TS = 1"

text \<open>
  The loop over the client's keys of the type the timestamp is encrypted in, until one
  decrypts it; the result is the plain text.
\<close>

function try_client_keys :: "kdc_crypto \<Rightarrow> krb5_db_entry \<Rightarrow> krb5_enc_data \<Rightarrow> nat \<Rightarrow> (octet list) krb5_result" where
  "try_client_keys crypto client enc_data start =
     (case krb5_dbe_search_enctype client start (ed_enctype enc_data) (-1) 0 of
        Inl retval \<Rightarrow> Inl retval
      | Inr (client_key, start) \<Rightarrow>
          (case dbekd_decrypt_key_data crypto client_key of
             Inl retval \<Rightarrow> Inl retval
           | Inr key \<Rightarrow>
               (case c_decrypt crypto (key\<lparr>kb_enctype := ed_enctype enc_data\<rparr>)
                       KRB5_KEYUSAGE_AS_REQ_PA_ENC_TS enc_data of
                  Inr plain \<Rightarrow> Inr plain
                | Inl _ \<Rightarrow> try_client_keys crypto client enc_data start)))"
  by pat_completeness auto
termination
  by (relation "measure (\<lambda>(crypto, client, enc_data, start). length (db_key_data client) - start)")
    (auto dest: search_enctype_decreases)

declare try_client_keys.simps [simp del]

definition verify_enc_timestamp ::
  "kdc_realm \<Rightarrow> kdc_crypto \<Rightarrow> kdc_codec \<Rightarrow> krb5_db_entry \<Rightarrow> krb5_enc_tkt_part \<Rightarrow> krb5_pa_data \<Rightarrow>
     krb5_enc_tkt_part krb5_result" where
  "verify_enc_timestamp realm crypto codec client enc_tkt_reply pa =
     bindE (decode_enc_data codec (pa_contents pa)) (\<lambda>enc_data.
     bindE (try_client_keys crypto client enc_data 0) (\<lambda>enc_ts_data.
     bindE (decode_pa_enc_ts codec enc_ts_data) (\<lambda>patimestamp.
     bindE (pa_timeofday realm pa) (\<lambda>timenow.
       if abs (i32 (timenow - patimestamp)) > clockskew realm then Inl KRB5KRB_AP_ERR_SKEW
       else Inr (enc_tkt_reply\<lparr>et_flags := setflag (et_flags enc_tkt_reply) TKT_FLG_PRE_AUTH\<rparr>)))))"

section \<open>Salt information\<close>

text \<open>
  \<open>get_etype_info\<close>: one entry per key of the newest version, two for a key of single DES.  An
  entry is an encryption type with its salt.
\<close>

definition etype_entries :: "krb5_principal \<Rightarrow> krb5_key_data \<Rightarrow> (krb5_enctype \<times> octet list option) list" where
  "etype_entries client client_key =
     (let db_etype = key_data_type client_key ! 0;
          db_etype = (if db_etype = ENCTYPE_DES_CBC_MD4 \<or> db_etype = ENCTYPE_DES_CBC_MD5
                      then ENCTYPE_DES_CBC_CRC else db_etype);
          salt = get_salt_from_key client client_key
      in (db_etype, salt) #
           (if db_etype = ENCTYPE_DES_CBC_CRC then [(ENCTYPE_DES_CBC_MD5, salt)] else []))"

function etype_info_loop ::
  "krb5_principal \<Rightarrow> krb5_db_entry \<Rightarrow> nat \<Rightarrow> (krb5_enctype \<times> octet list option) list krb5_result" where
  "etype_info_loop rclient client start =
     (case krb5_dbe_search_enctype client start (-1) (-1) 0 of
        Inl retval \<Rightarrow> if retval = ENOENT then Inr [] else Inl retval
      | Inr (client_key, start) \<Rightarrow>
          (case etype_info_loop rclient client start of
             Inl retval \<Rightarrow> Inl retval
           | Inr rest \<Rightarrow> Inr (etype_entries rclient client_key @ rest)))"
  by pat_completeness auto
termination
  by (relation "measure (\<lambda>(rclient, client, start). length (db_key_data client) - start)")
    (auto dest: search_enctype_decreases)

declare etype_info_loop.simps [simp del]

definition get_etype_info :: "kdc_codec \<Rightarrow> krb5_principal \<Rightarrow> krb5_db_entry \<Rightarrow> (octet list) krb5_result" where
  "get_etype_info codec rclient client =
     bindE (etype_info_loop rclient client 0) (encode_etype_info codec)"

text \<open>\<open>Inr None\<close> sends no element.\<close>

definition return_pw_salt :: "krb5_principal \<Rightarrow> krb5_key_data \<Rightarrow> krb5_pa_data option" where
  "return_pw_salt rclient client_key =
     (let stype = key_data_type client_key ! 1;
          pa = (\<lambda>t c. Some \<lparr>pa_type = t, pa_contents = c\<rparr>)
      in if key_data_ver client_key = 1 \<or> stype = KRB5_KDB_SALTTYPE_NORMAL then None
         else if stype = KRB5_KDB_SALTTYPE_V4 then pa KRB5_PADATA_PW_SALT []
         else if stype = KRB5_KDB_SALTTYPE_NOREALM
         then pa KRB5_PADATA_PW_SALT (octets (krb5_principal2salt_norealm (Some rclient)))
         else if stype = KRB5_KDB_SALTTYPE_AFS3
         then pa KRB5_PADATA_AFS3_SALT (octets (p_realm rclient) @ [0])
         else if stype = KRB5_KDB_SALTTYPE_ONLYREALM then pa KRB5_PADATA_PW_SALT (octets (p_realm rclient))
         else if stype = KRB5_KDB_SALTTYPE_SPECIAL then pa KRB5_PADATA_PW_SALT (key_data_contents client_key ! 1)
         else None)"

section \<open>Single-use authentication\<close>

definition PA_SAM_TYPE_DIGI_PATH :: int where "PA_SAM_TYPE_DIGI_PATH = 2"
definition PA_SAM_TYPE_SECURID :: int where "PA_SAM_TYPE_SECURID = 5"
definition PA_SAM_TYPE_GRAIL :: int where "PA_SAM_TYPE_GRAIL = 128"
definition KRB5_SAM_USE_SAD_AS_KEY :: flags where "KRB5_SAM_USE_SAD_AS_KEY = 0x80000000"
definition KRB5_SAM_SEND_ENCRYPTED_SAD :: flags where "KRB5_SAM_SEND_ENCRYPTED_SAD = 0x40000000"
definition KRB5_SAM_MUST_PK_ENCRYPT_SAD :: flags where "KRB5_SAM_MUST_PK_ENCRYPT_SAD = 0x20000000"
definition ENCTYPE_UNKNOWN :: krb5_enctype where "ENCTYPE_UNKNOWN = 0x1ff"
definition ENCTYPE_DES3_CBC_SHA :: krb5_enctype where "ENCTYPE_DES3_CBC_SHA = 5"

definition sam_inst_map :: "(string \<times> int) list" where
  "sam_inst_map = [(''SNK4'', PA_SAM_TYPE_DIGI_PATH), (''SECURID'', PA_SAM_TYPE_SECURID), (''GRAIL'', PA_SAM_TYPE_GRAIL)]"

text \<open>
  The probe of \<open>get_sam_edata\<close>: the client's name with each instance of the table added to it;
  the first one in the database decides the type.
\<close>

fun sam_probe :: "kdc_realm \<Rightarrow> krb5_principal \<Rightarrow> (string \<times> int) list \<Rightarrow> (int \<times> krb5_db_entry) option" where
  "sam_probe realm rclient [] = None"
| "sam_probe realm rclient ((name, sam_type) # rest) =
     (case db_get_principal realm (rclient\<lparr>p_data := p_data rclient @ [name]\<rparr>) of
        Inr (assoc # _, _) \<Rightarrow> Some (sam_type, assoc)
      | _ \<Rightarrow> sam_probe realm rclient rest)"

text \<open>The digits of the Digital Pathways exchange: six digits out, eight digits expected.\<close>

definition snk4_challenge :: "octet list \<Rightarrow> string" where
  "snk4_challenge key = map (\<lambda>b. char_of (48 + (unat b div 2) mod 10)) (take 6 key)"

definition snk4_nibble :: "octet \<Rightarrow> octet" where
  "snk4_nibble n = (if n > 9 then drop_bit 2 (n - 1) else n)"

definition snk4_response :: "octet list \<Rightarrow> string" where
  "snk4_response outputblock = concat (map (\<lambda>b.
     [char_of (48 + unat (snk4_nibble (drop_bit 4 b AND 0xf))), char_of (48 + unat (snk4_nibble (b AND 0xf)))])
     (take 4 outputblock))"

text \<open>
  The end shared by both cases of the \<open>switch\<close>: the predicted response is sealed under the
  KDC's own key into the tracking id of the challenge.
\<close>

definition sam_seal ::
  "kdc_crypto \<Rightarrow> kdc_codec \<Rightarrow> krb5_predicted_sam_response \<Rightarrow> string \<Rightarrow> krb5_sam_challenge \<Rightarrow>
     (octet list) krb5_result" where
  "sam_seal crypto codec psr secret sc =
     bindE (c_string_to_key crypto ENCTYPE_DES_CBC_MD5 secret) (\<lambda>sam_key.
     bindE (encode_predicted_sam_response codec (psr\<lparr>psr_sam_key := sam_key\<rparr>)) (\<lambda>scratch.
     bindE (c_encrypt crypto (psr_key crypto) 0 scratch) (\<lambda>track_id.
       encode_sam_challenge codec (sc\<lparr>sc_sam_track_id := track_id\<rparr>))))"

definition sam_challenge_for ::
  "kdc_crypto \<Rightarrow> kdc_codec \<Rightarrow> int \<Rightarrow> krb5_keyblock \<Rightarrow> krb5_predicted_sam_response \<Rightarrow> (octet list) krb5_result" where
  "sam_challenge_for crypto codec sam_type encrypting_key psr =
     (let sc = \<lparr>sc_sam_type = sam_type, sc_sam_flags = KRB5_SAM_USE_SAD_AS_KEY, sc_sam_type_name = [],
                sc_sam_track_id = [], sc_sam_challenge_label = [], sc_sam_challenge = [],
                sc_sam_response_prompt = [], sc_sam_nonce = 0\<rparr>
      in if sam_type = PA_SAM_TYPE_GRAIL then
           sam_seal crypto codec psr ''12345''
             (sc\<lparr>sc_sam_type_name := ''Experimental System'',
                 sc_sam_challenge_label := ''experimental challenge label'',
                 sc_sam_challenge := ''12345'', sc_sam_response_prompt := ''response prompt''\<rparr>)
         else if sam_type = PA_SAM_TYPE_DIGI_PATH then
           bindE (c_make_random_key crypto 1 ENCTYPE_DES_CBC_CRC) (\<lambda>session_key.
             if length (kb_contents session_key) \<noteq> 8 then Inl KRB5KDC_ERR_ETYPE_NOSUPP
             else
               let challenge = snk4_challenge (kb_contents session_key) in
               bindE (c_encrypt crypto (encrypting_key\<lparr>kb_enctype := ENCTYPE_DES_CBC_RAW\<rparr>) 0
                        (octets challenge @ [0, 0])) (\<lambda>outputblock.
                 sam_seal crypto codec psr (snk4_response outputblock)
                   (sc\<lparr>sc_sam_type_name := ''Digital Pathways'',
                       sc_sam_challenge_label := ''Enter the following on your keypad'',
                       sc_sam_challenge := challenge,
                       sc_sam_response_prompt := ''Enter the displayed response''\<rparr>)))
         else Inr [])"

definition get_sam_edata ::
  "kdc_realm \<Rightarrow> kdc_crypto \<Rightarrow> kdc_codec \<Rightarrow> krb5_principal \<Rightarrow> (octet list) krb5_result" where
  "get_sam_edata realm crypto codec rclient =
     (case sam_probe realm rclient sam_inst_map of
        None \<Rightarrow> Inl KRB5_PREAUTH_BAD_TYPE
      | Some (sam_type, assoc) \<Rightarrow>
          bindE (krb5_dbe_find_enctype assoc ENCTYPE_DES_CBC_RAW KRB5_KDB_SALTTYPE_NORMAL 0) (\<lambda>assoc_key.
          bindE (dbekd_decrypt_key_data crypto assoc_key) (\<lambda>encrypting_key.
          bindE (us_timeofday realm) (\<lambda>(stime, susec).
            sam_challenge_for crypto codec sam_type encrypting_key
              \<lparr>psr_sam_key = \<lparr>kb_enctype = 0, kb_contents = []\<rparr>, psr_sam_flags = KRB5_SAM_USE_SAD_AS_KEY,
               psr_stime = stime, psr_susec = susec, psr_client = rclient\<rparr>))))"

text \<open>
  The predicted response back out of the client's answer; the first half of
  \<open>verify_sam_response\<close> and of \<open>return_sam_data\<close>.
\<close>

definition open_track_id ::
  "kdc_crypto \<Rightarrow> kdc_codec \<Rightarrow> krb5_pa_data \<Rightarrow> (krb5_sam_response \<times> krb5_predicted_sam_response) krb5_result" where
  "open_track_id crypto codec pa =
     bindE (decode_sam_response codec (pa_contents pa)) (\<lambda>sr.
     bindE (c_decrypt crypto (psr_key crypto) 0
              \<lparr>ed_enctype = ENCTYPE_UNKNOWN, ed_kvno = 0, ed_ciphertext = sr_sam_track_id sr\<rparr>) (\<lambda>scratch.
     bindE (decode_predicted_sam_response codec scratch) (\<lambda>psr. Inr (sr, psr))))"

definition of_result :: "'a krb5_result \<Rightarrow> 'a c_outcome" where
  "of_result r = (case r of Inl e \<Rightarrow> Error e | Inr x \<Rightarrow> Done x)"

definition of_name :: "string option \<Rightarrow> string c_outcome" where
  "of_name n = (case n of None \<Rightarrow> Out_of_bounds | Some s \<Rightarrow> Done s)"

definition verify_sam_response ::
  "kdc_realm \<Rightarrow> kdc_crypto \<Rightarrow> kdc_codec \<Rightarrow> krb5_principal \<Rightarrow> krb5_enc_tkt_part \<Rightarrow> krb5_pa_data \<Rightarrow>
     krb5_enc_tkt_part c_outcome" where
  "verify_sam_response realm crypto codec rclient enc_tkt_reply pa =
     bindO (of_result (open_track_id crypto codec pa)) (\<lambda>(sr, psr).
     bindO (of_name (krb5_unparse_name rclient)) (\<lambda>princ_req.
     bindO (of_name (krb5_unparse_name (psr_client psr))) (\<lambda>princ_psr.
       if princ_req \<noteq> princ_psr then Error KRB5KDC_ERR_PREAUTH_FAILED
       else bindO (of_result (pa_timeofday realm pa)) (\<lambda>timenow.
         if i32 (timenow - psr_stime psr) > rc_lifetime realm then Error KRB5KDC_ERR_PREAUTH_FAILED
         else let retval = rc_store realm \<lparr>dr_server = ''SAM/rc'', dr_client = princ_psr,
                             dr_cusec = psr_susec psr, dr_ctime = psr_stime psr\<rparr>
           in if retval \<noteq> 0 then Error retval
              else bindO (of_result (c_decrypt crypto (psr_sam_key psr) 0 (sr_sam_enc_nonce_or_ts sr))) (\<lambda>scratch.
                bindO (of_result (decode_enc_sam_response_enc codec scratch)) (\<lambda>sam_timestamp.
                  if sam_timestamp \<noteq> sr_sam_patimestamp sr then Error KRB5KDC_ERR_PREAUTH_FAILED
                  else if abs (i32 (timenow - sr_sam_patimestamp sr)) > clockskew realm
                  then Error KRB5KRB_AP_ERR_SKEW
                  else Done (enc_tkt_reply\<lparr>et_flags := setflag (et_flags enc_tkt_reply) TKT_FLG_HW_AUTH\<rparr>)))))))"

text \<open>
  The key the reply is encrypted in, as \<open>return_sam_data\<close> changes it.  A DES key of less than
  8, a triple DES key of less than 24 bytes would be written past its end.
\<close>

definition xor_keys :: "octet list \<Rightarrow> octet list \<Rightarrow> octet list" where
  "xor_keys p q = map2 (XOR) p q @ drop (length q) p"

definition correct_des_key :: "kdc_crypto \<Rightarrow> octet list \<Rightarrow> octet list" where
  "correct_des_key crypto k =
     (let k = fixup_key_parity crypto k in if is_weak_key crypto k then k[7 := k ! 7 XOR 0xf0] else k)"

definition mix_sam_key :: "kdc_crypto \<Rightarrow> krb5_keyblock \<Rightarrow> krb5_keyblock \<Rightarrow> krb5_keyblock c_outcome" where
  "mix_sam_key crypto key sam_key =
     (let k = xor_keys (kb_contents key) (kb_contents sam_key); etype = kb_enctype key in
      if etype = ENCTYPE_DES_CBC_CRC \<or> etype = ENCTYPE_DES_CBC_MD4 \<or> etype = ENCTYPE_DES_CBC_MD5 \<or>
         etype = ENCTYPE_DES_CBC_RAW then
        (if length k < 8 then Out_of_bounds
         else Done (key\<lparr>kb_contents := correct_des_key crypto (take 8 k) @ drop 8 k\<rparr>))
      else if etype = ENCTYPE_DES3_CBC_SHA \<or> etype = ENCTYPE_DES3_CBC_RAW \<or> etype = ENCTYPE_DES3_CBC_SHA1 then
        (if length k < 24 then Out_of_bounds
         else Done (key\<lparr>kb_contents :=
           concat (map (\<lambda>i. correct_des_key crypto (take 8 (drop (i * 8) k))) [0, 1, 2]) @ drop 24 k\<rparr>))
      else Error KRB5KDC_ERR_PREAUTH_FAILED)"

definition return_sam_data ::
  "kdc_crypto \<Rightarrow> kdc_codec \<Rightarrow> krb5_pa_data option \<Rightarrow> krb5_keyblock \<Rightarrow> krb5_keyblock c_outcome" where
  "return_sam_data crypto codec in_padata encrypting_key =
     (case in_padata of
        None \<Rightarrow> Done encrypting_key
      | Some pa \<Rightarrow>
          bindO (of_result (open_track_id crypto codec pa)) (\<lambda>(sr, psr).
            if isflagset (psr_sam_flags psr) KRB5_SAM_MUST_PK_ENCRYPT_SAD then Error KRB5KDC_ERR_PREAUTH_FAILED
            else if isflagset (psr_sam_flags psr) KRB5_SAM_SEND_ENCRYPTED_SAD then Done encrypting_key
            else if isflagset (psr_sam_flags psr) KRB5_SAM_USE_SAD_AS_KEY then Done (psr_sam_key psr)
            else mix_sam_key crypto encrypting_key (psr_sam_key psr)))"

section \<open>Driving the systems\<close>

definition get_edata ::
  "kdc_realm \<Rightarrow> kdc_crypto \<Rightarrow> kdc_codec \<Rightarrow> krb5_principal \<Rightarrow> krb5_db_entry \<Rightarrow> edata_proc \<Rightarrow>
     (octet list) krb5_result" where
  "get_edata realm crypto codec rclient client p =
     (case p of Get_etype_info \<Rightarrow> get_etype_info codec rclient client
      | Get_sam_edata \<Rightarrow> get_sam_edata realm crypto codec rclient)"

text \<open>The hint of one system, if it gives one.\<close>

definition preauth_hint ::
  "kdc_realm \<Rightarrow> kdc_crypto \<Rightarrow> kdc_codec \<Rightarrow> krb5_principal \<Rightarrow> krb5_db_entry \<Rightarrow> krb5_preauth_systems \<Rightarrow>
     krb5_pa_data option" where
  "preauth_hint realm crypto codec rclient client ap =
     (let hw_only = isflagset (db_attributes client) KRB5_KDB_REQUIRES_HW_AUTH in
      if hw_only \<and> ps_flags ap AND PA_HARDWARE = 0 then None
      else if ps_flags ap AND PA_PSEUDO \<noteq> 0 then None
      else case ps_get_edata ap of
          None \<Rightarrow> Some \<lparr>pa_type = ps_type ap, pa_contents = []\<rparr>
        | Some p \<Rightarrow> (case get_edata realm crypto codec rclient client p of
              Inl retval \<Rightarrow> None
            | Inr contents \<Rightarrow> Some \<lparr>pa_type = ps_type ap, pa_contents = contents\<rparr>))"

definition get_preauth_hint_list ::
  "kdc_realm \<Rightarrow> kdc_crypto \<Rightarrow> kdc_codec \<Rightarrow> krb5_principal \<Rightarrow> krb5_db_entry \<Rightarrow> octet list" where
  "get_preauth_hint_list realm crypto codec rclient client =
     (case encode_padata_sequence codec
             (List.map_filter (preauth_hint realm crypto codec rclient client) preauth_systems) of
        Inl retval \<Rightarrow> [] | Inr edat \<Rightarrow> edat)"

definition verify_padata ::
  "kdc_realm \<Rightarrow> kdc_crypto \<Rightarrow> kdc_codec \<Rightarrow> krb5_principal \<Rightarrow> krb5_db_entry \<Rightarrow> verify_proc \<Rightarrow>
     krb5_enc_tkt_part \<Rightarrow> krb5_pa_data \<Rightarrow> krb5_enc_tkt_part c_outcome" where
  "verify_padata realm crypto codec rclient client p enc_tkt_reply pa =
     (case p of
        Verify_enc_timestamp \<Rightarrow> of_result (verify_enc_timestamp realm crypto codec client enc_tkt_reply pa)
      | Verify_sam_response \<Rightarrow> verify_sam_response realm crypto codec rclient enc_tkt_reply pa)"

text \<open>
  The loop of \<open>check_padata\<close> with its variables \<open>pa_ok\<close> and \<open>pa_found\<close> and the ticket the
  systems mark.
\<close>

fun check_padata_loop ::
  "kdc_realm \<Rightarrow> kdc_crypto \<Rightarrow> kdc_codec \<Rightarrow> krb5_principal \<Rightarrow> krb5_db_entry \<Rightarrow> krb5_pa_data list \<Rightarrow>
     bool \<Rightarrow> nat \<Rightarrow> krb5_enc_tkt_part \<Rightarrow> (bool \<times> nat \<times> krb5_enc_tkt_part) c_outcome" where
  "check_padata_loop realm crypto codec rclient client [] pa_ok pa_found tkt = Done (pa_ok, pa_found, tkt)"
| "check_padata_loop realm crypto codec rclient client (pa # rest) pa_ok pa_found tkt =
     (case find_pa_system (pa_type pa) of
        Inl _ \<Rightarrow> check_padata_loop realm crypto codec rclient client rest pa_ok pa_found tkt
      | Inr pa_sys \<Rightarrow>
          (case ps_verify_padata pa_sys of
             None \<Rightarrow> check_padata_loop realm crypto codec rclient client rest pa_ok pa_found tkt
           | Some p \<Rightarrow>
               (case verify_padata realm crypto codec rclient client p tkt pa of
                  Done tkt' \<Rightarrow>
                    if ps_flags pa_sys AND PA_SUFFICIENT \<noteq> 0 then Done (True, Suc pa_found, tkt')
                    else check_padata_loop realm crypto codec rclient client rest True (Suc pa_found) tkt'
                | Error retval \<Rightarrow>
                    if ps_flags pa_sys AND PA_REQUIRED \<noteq> 0 then Done (False, Suc pa_found, tkt)
                    else check_padata_loop realm crypto codec rclient client rest pa_ok (Suc pa_found) tkt
                | Aborted \<Rightarrow> Aborted
                | Out_of_bounds \<Rightarrow> Out_of_bounds)))"

definition check_padata ::
  "kdc_realm \<Rightarrow> kdc_crypto \<Rightarrow> kdc_codec \<Rightarrow> krb5_principal \<Rightarrow> krb5_db_entry \<Rightarrow> krb5_pa_data list option \<Rightarrow>
     krb5_enc_tkt_part \<Rightarrow> krb5_enc_tkt_part c_outcome" where
  "check_padata realm crypto codec rclient client padata tkt =
     (case padata of
        None \<Rightarrow> Done tkt
      | Some pas \<Rightarrow>
          bindO (check_padata_loop realm crypto codec rclient client pas False 0 tkt) (\<lambda>(pa_ok, pa_found, tkt).
            if pa_ok then Done tkt
            else if pa_found = 0 \<and> \<not> isflagset (db_attributes client) KRB5_KDB_REQUIRES_PRE_AUTH \<and>
                    \<not> isflagset (db_attributes client) KRB5_KDB_REQUIRES_HW_AUTH then Done tkt
            else Error KRB5KDC_ERR_PREAUTH_FAILED))"

text \<open>
  \<open>return_padata\<close>: the elements to send, and the key the reply is to be encrypted in.
\<close>

fun return_padata_loop ::
  "kdc_crypto \<Rightarrow> kdc_codec \<Rightarrow> krb5_principal \<Rightarrow> krb5_pa_data list option \<Rightarrow> krb5_key_data \<Rightarrow>
     krb5_preauth_systems list \<Rightarrow> krb5_keyblock \<Rightarrow> (krb5_pa_data list \<times> krb5_keyblock) c_outcome" where
  "return_padata_loop crypto codec rclient padata client_key [] key = Done ([], key)"
| "return_padata_loop crypto codec rclient padata client_key (ap # aps) key =
     (case ps_return_padata ap of
        None \<Rightarrow> return_padata_loop crypto codec rclient padata client_key aps key
      | Some Return_pw_salt \<Rightarrow>
          bindO (return_padata_loop crypto codec rclient padata client_key aps key) (\<lambda>(rest, key').
            Done ((case return_pw_salt rclient client_key of None \<Rightarrow> [] | Some pa \<Rightarrow> [pa]) @ rest, key'))
      | Some Return_sam_data \<Rightarrow>
          bindO (return_sam_data crypto codec
                   (case padata of None \<Rightarrow> None | Some pas \<Rightarrow> find (\<lambda>pa. pa_type pa = ps_type ap) pas) key)
            (\<lambda>key'. return_padata_loop crypto codec rclient padata client_key aps key'))"

definition return_padata ::
  "kdc_crypto \<Rightarrow> kdc_codec \<Rightarrow> krb5_principal \<Rightarrow> krb5_pa_data list option \<Rightarrow> krb5_key_data \<Rightarrow> krb5_keyblock \<Rightarrow>
     (krb5_pa_data list option \<times> krb5_keyblock) c_outcome" where
  "return_padata crypto codec rclient padata client_key encrypting_key =
     bindO (return_padata_loop crypto codec rclient padata client_key preauth_systems encrypting_key)
       (\<lambda>(send_pa_list, key). Done (if send_pa_list = [] then None else Some send_pa_list, key))"

section \<open>Properties\<close>

text \<open>
  What an accepted element proves.  For an encrypted timestamp: it decrypts, under one of the
  client's keys, to a time within the clock skew of the KDC's clock.  For a SAM response: the
  tracking id opens under the KDC's own key to a prediction made for the same client, not
  longer ago than the life of the replay cache and not in it, and the response decrypts under
  the predicted key to its own timestamp, within the clock skew.
\<close>

definition timestamp_proof :: "kdc_realm \<Rightarrow> kdc_crypto \<Rightarrow> kdc_codec \<Rightarrow> krb5_db_entry \<Rightarrow> krb5_pa_data \<Rightarrow> bool" where
  "timestamp_proof realm crypto codec client pa \<longleftrightarrow>
     (\<exists>enc k key plain ts now. decode_enc_data codec (pa_contents pa) = Inr enc \<and>
        k \<in> set (db_key_data client) \<and> dbekd_decrypt_key_data crypto k = Inr key \<and>
        c_decrypt crypto (key\<lparr>kb_enctype := ed_enctype enc\<rparr>) KRB5_KEYUSAGE_AS_REQ_PA_ENC_TS enc = Inr plain \<and>
        decode_pa_enc_ts codec plain = Inr ts \<and> pa_timeofday realm pa = Inr now \<and>
        abs (i32 (now - ts)) \<le> clockskew realm)"

definition sam_proof :: "kdc_realm \<Rightarrow> kdc_crypto \<Rightarrow> kdc_codec \<Rightarrow> krb5_principal \<Rightarrow> krb5_pa_data \<Rightarrow> bool" where
  "sam_proof realm crypto codec rclient pa \<longleftrightarrow>
     (\<exists>sr psr now name plain. open_track_id crypto codec pa = Inr (sr, psr) \<and>
        krb5_unparse_name rclient = Some name \<and> krb5_unparse_name (psr_client psr) = Some name \<and>
        pa_timeofday realm pa = Inr now \<and> i32 (now - psr_stime psr) \<le> rc_lifetime realm \<and>
        rc_store realm \<lparr>dr_server = ''SAM/rc'', dr_client = name, dr_cusec = psr_susec psr, dr_ctime = psr_stime psr\<rparr> = 0 \<and>
        c_decrypt crypto (psr_sam_key psr) 0 (sr_sam_enc_nonce_or_ts sr) = Inr plain \<and>
        decode_enc_sam_response_enc codec plain = Inr (sr_sam_patimestamp sr) \<and>
        abs (i32 (now - sr_sam_patimestamp sr)) \<le> clockskew realm)"

lemma try_client_keys_sound:
  "try_client_keys crypto client enc start = Inr plain \<Longrightarrow>
     \<exists>k \<in> set (db_key_data client). \<exists>key. dbekd_decrypt_key_data crypto k = Inr key \<and>
       c_decrypt crypto (key\<lparr>kb_enctype := ed_enctype enc\<rparr>) KRB5_KEYUSAGE_AS_REQ_PA_ENC_TS enc = Inr plain"
proof (induction crypto client enc start rule: try_client_keys.induct)
  case (1 crypto client enc start)
  obtain k nxt key where k: "krb5_dbe_search_enctype client start (ed_enctype enc) (-1) 0 = Inr (k, nxt)"
      "dbekd_decrypt_key_data crypto k = Inr key"
    using 1(2) by (subst (asm) try_client_keys.simps) (auto split: sum.splits prod.splits)
  show ?case
  proof (cases "c_decrypt crypto (key\<lparr>kb_enctype := ed_enctype enc\<rparr>) KRB5_KEYUSAGE_AS_REQ_PA_ENC_TS enc")
    case (Inl e)
    then have "try_client_keys crypto client enc nxt = Inr plain"
      using 1(2) k by (subst (asm) try_client_keys.simps) simp
    then show ?thesis using 1(1) [OF k(1) refl k(2) Inl] by simp
  next
    case (Inr p)
    then have "p = plain" using 1(2) k by (subst (asm) try_client_keys.simps) simp
    then show ?thesis using Inr k search_enctype_advances [OF k(1)] by auto
  qed
qed

lemma of_result_Done: "of_result r = Done x \<longleftrightarrow> r = Inr x"
  by (simp add: of_result_def split: sum.split)

lemma of_name_Done: "of_name n = Done x \<longleftrightarrow> n = Some x"
  by (simp add: of_name_def split: option.split)

lemma verify_enc_timestamp_sound:
  assumes "verify_enc_timestamp realm crypto codec client tkt pa = Inr tkt'"
  shows "timestamp_proof realm crypto codec client pa"
    "tkt' = tkt\<lparr>et_flags := setflag (et_flags tkt) TKT_FLG_PRE_AUTH\<rparr>"
  using assms unfolding verify_enc_timestamp_def timestamp_proof_def
  by (auto simp: bindE_eq_Inr not_less dest!: try_client_keys_sound split: if_splits)

lemma verify_sam_response_sound:
  assumes "verify_sam_response realm crypto codec rclient tkt pa = Done tkt'"
  shows "sam_proof realm crypto codec rclient pa \<and> tkt' = tkt\<lparr>et_flags := setflag (et_flags tkt) TKT_FLG_HW_AUTH\<rparr>"
  using assms unfolding verify_sam_response_def sam_proof_def
  by (auto simp: bindO_eq_Done of_result_Done of_name_Done not_less Let_def split: if_splits)

lemma find_pa_system_verify:
  assumes "find_pa_system t = Inr ap" and "ps_verify_padata ap = Some p"
  shows "t = (case p of Verify_enc_timestamp \<Rightarrow> KRB5_PADATA_ENC_TIMESTAMP | Verify_sam_response \<Rightarrow> KRB5_PADATA_SAM_RESPONSE)"
    and "ps_flags ap = 0"
  using assms by (auto simp: find_pa_system_def preauth_systems_def padata_types split: if_splits)

text \<open>
  The state of the loop that \<open>check_padata\<close> keeps: the ticket is the one it started with but
  for flags, no flag is lost, and a new one is one of the two and backed by an element.
\<close>

definition flags_backed ::
  "kdc_realm \<Rightarrow> kdc_crypto \<Rightarrow> kdc_codec \<Rightarrow> krb5_principal \<Rightarrow> krb5_db_entry \<Rightarrow> krb5_pa_data set \<Rightarrow>
     krb5_enc_tkt_part \<Rightarrow> krb5_enc_tkt_part \<Rightarrow> bool" where
  "flags_backed realm crypto codec rclient client pas tkt tkt' \<longleftrightarrow>
     (\<exists>fl. tkt' = tkt\<lparr>et_flags := fl\<rparr> \<and> (\<forall>f. isflagset (et_flags tkt) f \<longrightarrow> isflagset fl f) \<and>
       (\<forall>f. isflagset fl f \<longrightarrow> isflagset (et_flags tkt) f \<or>
         (isflagset TKT_FLG_PRE_AUTH f \<and>
           (\<exists>pa \<in> pas. pa_type pa = KRB5_PADATA_ENC_TIMESTAMP \<and> timestamp_proof realm crypto codec client pa)) \<or>
         (isflagset TKT_FLG_HW_AUTH f \<and>
           (\<exists>pa \<in> pas. pa_type pa = KRB5_PADATA_SAM_RESPONSE \<and> sam_proof realm crypto codec rclient pa))))"

lemma flags_backed_refl: "flags_backed realm crypto codec rclient client pas tkt tkt"
  by (auto simp: flags_backed_def intro!: exI [of _ "et_flags tkt"])

lemma flags_backed_step:
  assumes "verify_padata realm crypto codec rclient client p tkt pa = Done tkt'"
    and "find_pa_system (pa_type pa) = Inr ap" and "ps_verify_padata ap = Some p" and "pa \<in> pas"
    and "flags_backed realm crypto codec rclient client pas tkt' tkt''"
  shows "flags_backed realm crypto codec rclient client pas tkt tkt''"
proof (cases p)
  case Verify_enc_timestamp
  then have "timestamp_proof realm crypto codec client pa"
      "tkt' = tkt\<lparr>et_flags := setflag (et_flags tkt) TKT_FLG_PRE_AUTH\<rparr>"
      "pa_type pa = KRB5_PADATA_ENC_TIMESTAMP"
    using assms(1) find_pa_system_verify(1) [OF assms(2,3)] verify_enc_timestamp_sound
    by (auto simp: verify_padata_def of_result_Done)
  then show ?thesis
    using assms(4,5) unfolding flags_backed_def by (auto simp: isflagset_setflag)
next
  case Verify_sam_response
  then have "sam_proof realm crypto codec rclient pa"
      "tkt' = tkt\<lparr>et_flags := setflag (et_flags tkt) TKT_FLG_HW_AUTH\<rparr>"
      "pa_type pa = KRB5_PADATA_SAM_RESPONSE"
    using assms(1) find_pa_system_verify(1) [OF assms(2,3)] verify_sam_response_sound
    by (auto simp: verify_padata_def)
  then show ?thesis
    using assms(4,5) unfolding flags_backed_def by (auto simp: isflagset_setflag)
qed

lemma check_padata_loop_backed:
  "check_padata_loop realm crypto codec rclient client pas ok found tkt = Done (ok', found', tkt') \<Longrightarrow>
     set pas \<subseteq> all \<Longrightarrow> flags_backed realm crypto codec rclient client all tkt tkt'"
proof (induction pas arbitrary: ok found tkt)
  case (Cons pa pas)
  show ?case
  proof (cases "find_pa_system (pa_type pa)")
    case (Inl e)
    then show ?thesis using Cons by auto
  next
    case (Inr ap)
    show ?thesis
    proof (cases "ps_verify_padata ap")
      case None
      then show ?thesis using Cons Inr by auto
    next
      case (Some p)
      show ?thesis
      proof (cases "verify_padata realm crypto codec rclient client p tkt pa")
        case (Done tkt1)
        then show ?thesis
          using Cons Inr Some find_pa_system_verify(2) [OF Inr Some]
          by (auto intro!: flags_backed_step [OF Done Inr Some])
      qed (use Cons Inr Some find_pa_system_verify(2) [OF Inr Some] in auto)
    qed
  qed
qed (simp add: flags_backed_refl)

lemma check_padata_backed:
  assumes "check_padata realm crypto codec rclient client padata tkt = Done tkt'"
  shows "flags_backed realm crypto codec rclient client (case padata of None \<Rightarrow> {} | Some pas \<Rightarrow> set pas) tkt tkt'"
  using assms by (auto simp: check_padata_def flags_backed_refl bindO_eq_Done
      split: option.splits if_splits dest!: check_padata_loop_backed [OF _ subset_refl])



text \<open>
  The entries \<open>get_etype_info\<close> collects fit its array of twice the number of keys plus one
  for the terminating null pointer.
\<close>

theorem etype_info_fits:
  "etype_info_loop rclient client start = Inr entries \<Longrightarrow>
     length entries \<le> 2 * (length (db_key_data client) - start)"
proof (induction rclient client start arbitrary: entries rule: etype_info_loop.induct)
  case (1 rclient client start)
  show ?case
  proof (cases "krb5_dbe_search_enctype client start (-1) (-1) 0")
    case (Inl e)
    then show ?thesis using 1(2) by (subst (asm) etype_info_loop.simps) (simp split: if_splits)
  next
    case (Inr r)
    then obtain k nxt where r: "krb5_dbe_search_enctype client start (-1) (-1) 0 = Inr (k, nxt)"
      by (cases r) simp
    from 1(2) r obtain rest where rest: "etype_info_loop rclient client nxt = Inr rest"
        "entries = etype_entries rclient k @ rest"
      by (subst (asm) etype_info_loop.simps) (auto split: sum.splits)
    have "length (etype_entries rclient k) \<le> 2"
      by (simp add: etype_entries_def Let_def)
    then show ?thesis
      using 1(1) [OF r refl rest(1)] rest(2) search_enctype_decreases [OF r] by simp
  qed
qed

theorem etype_info_fits_witness:
  "etype_info_loop sample_client (sample_db_entry sample_client 0) 0 = Inr [(1, None), (3, None)] \<and>
   length [(1::int, None :: octet list option), (3, None)] \<le> 2 * (1 - 0)"
proof -
  have "etype_info_loop sample_client (sample_db_entry sample_client 0) 0 = Inr [(1, None), (3, None)]"
    by code_simp
  then show ?thesis
    using etype_info_fits [of sample_client "sample_db_entry sample_client 0" 0 "[(1, None), (3, None)]"]
    by (simp add: sample_db_entry_def)
qed

text \<open>
  The expected response of the Digital Pathways exchange is a string of eight decimal
  digits, and the arithmetic on a hexadecimal digit is the table the source gives for it: 0 to
  9 stay, 10 to 12 become 2, 13 to 15 become 3.
\<close>

theorem snk4_response_digits:
  assumes "4 \<le> length block"
  shows "length (snk4_response block) = 8 \<and> set (snk4_response block) \<subseteq> set ''0123456789'' \<and>
    (\<forall>n < 16. snk4_nibble (word_of_nat n) = (if n < 10 then word_of_nat n else if n < 13 then 2 else 3))"
proof -
  have nibbles: "\<forall>n \<in> set [0..<16]. snk4_nibble (word_of_nat n) =
      (if n < 10 then word_of_nat n else if n < 13 then 2 else 3) \<and>
      char_of (48 + unat (snk4_nibble (word_of_nat n))) \<in> set ''0123456789''"
    by code_simp
  have "char_of (48 + unat (snk4_nibble (b AND 0xf))) \<in> set ''0123456789''" for b :: octet
  proof -
    have "unat (b AND 0xf) < 16"
      using word_and_le1 [of b "0xf"] by (simp add: word_le_nat_alt)
    then have "unat (b AND 0xf) \<in> set [0..<16]" by simp
    from bspec [OF nibbles this, THEN conjunct2] show ?thesis
      by (simp only: of_nat_unat ucast_id)
  qed
  then have "set (snk4_response block) \<subseteq> set ''0123456789''"
    unfolding snk4_response_def by auto
  moreover have "length (snk4_response block) = 8"
    using assms by (simp add: snk4_response_def length_concat comp_def sum_list_triv)
  ultimately show ?thesis using nibbles by auto
qed

theorem snk4_response_digits_witness:
  "snk4_response [0x1a, 0xff, 0x90, 0xcd] = ''12339023'' \<and>
   set (snk4_response [0x1a, 0xff, 0x90, 0xcd]) \<subseteq> set ''0123456789''"
proof -
  have "snk4_response [0x1a, 0xff, 0x90, 0xcd] = ''12339023''" by code_simp
  then show ?thesis
    using snk4_response_digits [of "[0x1a, 0xff, 0x90, 0xcd]"] by simp
qed

text \<open>
  For a client whose device is listed as \<open>SECURID\<close> the challenge is empty: the table of
  instances has the type, the \<open>switch\<close> of \<open>get_sam_edata\<close> has no case for it, and the hint goes
  out without contents.
\<close>

theorem securid_challenge_empty:
  assumes "sam_probe realm rclient sam_inst_map = Some (PA_SAM_TYPE_SECURID, assoc)"
    and "krb5_dbe_find_enctype assoc ENCTYPE_DES_CBC_RAW KRB5_KDB_SALTTYPE_NORMAL 0 = Inr k"
    and "dbekd_decrypt_key_data crypto k = Inr key" and "us_timeofday realm = Inr t"
  shows "get_sam_edata realm crypto codec rclient = Inr []"
  using assms by (cases t) (simp add: get_sam_edata_def sam_challenge_for_def PA_SAM_TYPE_SECURID_def
      PA_SAM_TYPE_GRAIL_def PA_SAM_TYPE_DIGI_PATH_def)

definition sample_securid_realm :: kdc_realm where
  "sample_securid_realm = (sample_realm 0)\<lparr>db_get_principal := (\<lambda>p.
     if p_data p = [''jis'', ''SECURID''] then Inr ([(sample_db_entry p 0)\<lparr>db_key_data := [sample_key_data 4]\<rparr>], False)
     else Inr ([], False))\<rparr>"

theorem securid_challenge_empty_witness:
  "get_sam_edata sample_securid_realm sample_crypto sample_codec sample_client = Inr []"
  by (rule securid_challenge_empty [where k = "sample_key_data 4" and
        key = "\<lparr>kb_enctype = 4, kb_contents = [1, 2, 3, 4, 5, 6, 7, 8]\<rparr>" and t = "(1000000, 0)" and
        assoc = "(sample_db_entry (sample_client\<lparr>p_data := [''jis'', ''SECURID'']\<rparr>) 0)\<lparr>db_key_data := [sample_key_data 4]\<rparr>"])
    code_simp+

end
