(* ===== verification/Kdc_AS.thy ===== *)
theory Kdc_AS
  imports Kdc_Preauth
begin

text \<open>
  The authentication service (\<open>kdc/do_as_req.c\<close>): \<open>process_as_req\<close> in the stretches of the
  function, from the lookup of the two principals to the encoded reply, and
  \<open>prepare_error_as\<close>.  Log messages are left out; the printing of the names for them is kept
  for the case it is undefined.
\<close>

section \<open>The handler\<close>

text \<open>The checks in front of the lookups.\<close>

definition as_names :: "krb5_kdc_req \<Rightarrow> (krb5_principal \<times> krb5_principal) handler" where
  "as_names request =
     (case rq_client request of
        None \<Rightarrow> Errout KRB5KDC_ERR_C_PRINCIPAL_UNKNOWN ''NULL_CLIENT'' []
      | Some rclient \<Rightarrow>
          bindH (unparseH rclient) (\<lambda>cname.
            case rq_server request of
              None \<Rightarrow> Errout KRB5KDC_ERR_S_PRINCIPAL_UNKNOWN ''NULL_SERVER'' []
            | Some rserver \<Rightarrow> bindH (unparseH rserver) (\<lambda>sname. Continue (rclient, rserver))))"

definition lookup_one ::
  "kdc_realm \<Rightarrow> krb5_principal \<Rightarrow> string \<Rightarrow> string \<Rightarrow> string \<Rightarrow> krb5_error_code \<Rightarrow> krb5_db_entry handler" where
  "lookup_one realm p looking non_unique not_found unknown =
     bindH (tryH (db_get_principal realm p) looking) (\<lambda>(entries, several).
       if several then Errout KRB5KDC_ERR_PRINCIPAL_NOT_UNIQUE non_unique []
       else case entries of [e] \<Rightarrow> Continue e | _ \<Rightarrow> Errout unknown not_found [])"

definition as_lookup ::
  "kdc_realm \<Rightarrow> krb5_principal \<Rightarrow> krb5_principal \<Rightarrow> (krb5_db_entry \<times> krb5_db_entry \<times> krb5_timestamp) handler" where
  "as_lookup realm rclient rserver =
     bindH (lookup_one realm rclient ''LOOKING_UP_CLIENT'' ''NON-UNIQUE_CLIENT'' ''CLIENT_NOT_FOUND''
              KRB5KDC_ERR_C_PRINCIPAL_UNKNOWN) (\<lambda>client.
     bindH (lookup_one realm rserver ''LOOKING_UP_SERVER'' ''NON-UNIQUE_SERVER'' ''SERVER_NOT_FOUND''
              KRB5KDC_ERR_S_PRINCIPAL_UNKNOWN) (\<lambda>server.
     bindH (tryH (timeofday realm) ''TIMEOFDAY'') (\<lambda>kdc_time. Continue (client, server, kdc_time))))"

definition as_validate ::
  "kdc_crypto \<Rightarrow> krb5_kdc_req \<Rightarrow> krb5_db_entry \<Rightarrow> krb5_db_entry \<Rightarrow> krb5_timestamp \<Rightarrow> krb5_keyblock handler" where
  "as_validate crypto request client server kdc_time =
     (case validate_as_request request client server kdc_time of
        Some (errcode, status) \<Rightarrow> Errout (errcode + ERROR_TABLE_BASE_krb5) status []
      | None \<Rightarrow>
          let useenctype = select_session_keytype server (rq_ktype request) in
          if useenctype = 0 then Errout KRB5KDC_ERR_ETYPE_NOSUPP ''BAD_ENCRYPTION_TYPE'' []
          else tryH (c_make_random_key crypto 0 useenctype) ''RANDOM_KEY_FAILED'')"

definition set_if :: "bool \<Rightarrow> flags \<Rightarrow> flags \<Rightarrow> flags" where
  "set_if c f fl = (if c then setflag fl f else fl)"

text \<open>
  The ticket's flags and times.  \<open>as_renewable\<close> is the request after the \<open>RENEWABLE_OK\<close> option
  has been looked at, which may have turned it into a request for a renewable ticket.
\<close>

definition as_flags :: "krb5_kdc_req \<Rightarrow> flags" where
  "as_flags request =
     (let opt = isflagset (rq_kdc_options request) in
      set_if (opt KDC_OPT_POSTDATED) TKT_FLG_INVALID (set_if (opt KDC_OPT_POSTDATED) TKT_FLG_POSTDATED
        (set_if (opt KDC_OPT_ALLOW_POSTDATE) TKT_FLG_MAY_POSTDATE
          (set_if (opt KDC_OPT_PROXIABLE) TKT_FLG_PROXIABLE
            (set_if (opt KDC_OPT_FORWARDABLE) TKT_FLG_FORWARDABLE (setflag 0 TKT_FLG_INITIAL))))))"

definition as_starttime :: "krb5_kdc_req \<Rightarrow> krb5_timestamp \<Rightarrow> krb5_timestamp" where
  "as_starttime request kdc_time =
     (if isflagset (rq_kdc_options request) KDC_OPT_POSTDATED then rq_from request else kdc_time)"

definition as_endtime ::
  "kdc_realm \<Rightarrow> krb5_kdc_req \<Rightarrow> krb5_db_entry \<Rightarrow> krb5_db_entry \<Rightarrow> krb5_timestamp \<Rightarrow> krb5_timestamp" where
  "as_endtime realm request client server kdc_time =
     (let start = as_starttime request kdc_time;
          until = (if rq_till request = 0 then kdc_infinity else rq_till request)
      in min until (min (i32 (start + db_max_life client))
           (min (i32 (start + db_max_life server)) (i32 (start + realm_maxlife realm)))))"

definition as_renewable ::
  "kdc_realm \<Rightarrow> krb5_kdc_req \<Rightarrow> krb5_db_entry \<Rightarrow> krb5_db_entry \<Rightarrow> krb5_timestamp \<Rightarrow> krb5_kdc_req" where
  "as_renewable realm request client server kdc_time =
     (if isflagset (rq_kdc_options request) KDC_OPT_RENEWABLE_OK \<and>
         \<not> isflagset (db_attributes client) KRB5_KDB_DISALLOW_RENEWABLE \<and>
         as_endtime realm request client server kdc_time < rq_till request
      then request\<lparr>rq_kdc_options := setflag (rq_kdc_options request) KDC_OPT_RENEWABLE, rq_rtime := rq_till request\<rparr>
      else request)"

definition as_ticket ::
  "kdc_realm \<Rightarrow> krb5_kdc_req \<Rightarrow> krb5_principal \<Rightarrow> krb5_db_entry \<Rightarrow> krb5_db_entry \<Rightarrow> krb5_timestamp \<Rightarrow>
     krb5_keyblock \<Rightarrow> krb5_enc_tkt_part" where
  "as_ticket realm request rclient client server kdc_time session_key =
     (let request' = as_renewable realm request client server kdc_time;
          renewable = isflagset (rq_kdc_options request') KDC_OPT_RENEWABLE;
          rtime = (if rq_rtime request' = 0 then kdc_infinity else rq_rtime request');
          start = as_starttime request kdc_time
      in \<lparr>et_flags = set_if renewable TKT_FLG_RENEWABLE (as_flags request),
          et_session = session_key, et_client = rclient,
          et_transited = \<lparr>tr_type = KRB5_DOMAIN_X500_COMPRESS, tr_contents = []\<rparr>,
          et_times = \<lparr>authtime = kdc_time, starttime = (if start = kdc_time then 0 else start),
            endtime = as_endtime realm request client server kdc_time,
            renew_till = (if renewable then min rtime (i32 (start + min (db_max_renewable_life client)
                (min (db_max_renewable_life server) (realm_maxrlife realm)))) else 0)\<rparr>,
          et_caddrs = rq_addresses request, et_authdata = None\<rparr>)"

definition as_preauth ::
  "kdc_realm \<Rightarrow> kdc_crypto \<Rightarrow> kdc_codec \<Rightarrow> krb5_kdc_req \<Rightarrow> krb5_principal \<Rightarrow> krb5_db_entry \<Rightarrow> krb5_db_entry \<Rightarrow>
     krb5_enc_tkt_part \<Rightarrow> krb5_enc_tkt_part handler" where
  "as_preauth realm crypto codec request rclient client server enc_tkt_reply =
     bindH (case check_padata realm crypto codec rclient client (rq_padata request) enc_tkt_reply of
              Done tkt \<Rightarrow> Continue tkt
            | Error errcode \<Rightarrow> Errout errcode ''PREAUTH_FAILED'' []
            | _ \<Rightarrow> Undefined) (\<lambda>tkt.
       case missing_required_preauth client server tkt of
         Some status \<Rightarrow> Errout KRB5KDC_ERR_PREAUTH_REQUIRED status
                          (get_preauth_hint_list realm crypto codec rclient client)
       | None \<Rightarrow> Continue tkt)"

text \<open>The ticket encrypted in the server's key; the TGS does the same under another status.\<close>

definition encrypt_for_server ::
  "kdc_crypto \<Rightarrow> krb5_db_entry \<Rightarrow> krb5_principal \<Rightarrow> krb5_enc_tkt_part \<Rightarrow> string \<Rightarrow> krb5_ticket handler" where
  "encrypt_for_server crypto server rserver tkt status =
     bindH (tryH (krb5_dbe_find_enctype server (-1) (-1) 0) ''FINDING_SERVER_KEY'') (\<lambda>server_key.
     bindH (tryH (dbekd_decrypt_key_data crypto server_key) ''DECRYPT_SERVER_KEY'') (\<lambda>key.
       let key = (if kb_enctype key = ENCTYPE_DES_CBC_CRC \<and>
                     isflagset (db_attributes server) KRB5_KDB_SUPPORT_DESMD5
                  then key\<lparr>kb_enctype := ENCTYPE_DES_CBC_MD5\<rparr> else key)
       in bindH (tryH (encrypt_tkt_part crypto key tkt) status) (\<lambda>enc.
            Continue \<lparr>tk_server = rserver, tk_enc_part = enc\<lparr>ed_kvno := key_data_kvno server_key\<rparr>,
                      tk_enc_part2 = Some tkt\<rparr>)))"

fun find_client_key :: "krb5_db_entry \<Rightarrow> krb5_enctype list \<Rightarrow> (krb5_key_data \<times> krb5_enctype) option" where
  "find_client_key client [] = None"
| "find_client_key client (useenctype # ktypes) =
     (if \<not> valid_enctype useenctype then find_client_key client ktypes
      else case krb5_dbe_find_enctype client useenctype (-1) 0 of
          Inr client_key \<Rightarrow> Some (client_key, useenctype)
        | Inl _ \<Rightarrow> find_client_key client ktypes)"

definition as_client_key ::
  "kdc_crypto \<Rightarrow> krb5_kdc_req \<Rightarrow> krb5_db_entry \<Rightarrow> (krb5_key_data \<times> krb5_keyblock) handler" where
  "as_client_key crypto request client =
     (case find_client_key client (rq_ktype request) of
        None \<Rightarrow> Errout KRB5KDC_ERR_ETYPE_NOSUPP ''CANT_FIND_CLIENT_KEY'' []
      | Some (client_key, useenctype) \<Rightarrow>
          bindH (tryH (dbekd_decrypt_key_data crypto client_key) ''DECRYPT_CLIENT_KEY'') (\<lambda>key.
            Continue (client_key, key\<lparr>kb_enctype := useenctype\<rparr>)))"

definition nolrarray :: "krb5_last_req_entry list" where
  "nolrarray = [\<lparr>lr_type = 0, lr_value = 0\<rparr>]"

definition fetch_last_req_info :: "krb5_db_entry \<Rightarrow> krb5_last_req_entry list krb5_result" where
  "fetch_last_req_info dbentry = Inr nolrarray"

definition KRB5_AS_REP :: int where "KRB5_AS_REP = 11"

definition as_reply ::
  "kdc_crypto \<Rightarrow> kdc_codec \<Rightarrow> krb5_kdc_req \<Rightarrow> krb5_principal \<Rightarrow> krb5_db_entry \<Rightarrow> krb5_timestamp \<Rightarrow>
     krb5_ticket \<Rightarrow> krb5_enc_tkt_part \<Rightarrow> krb5_key_data \<Rightarrow> krb5_keyblock \<Rightarrow>
     (krb5_kdc_rep \<times> krb5_enc_kdc_rep_part \<times> octet list) handler" where
  "as_reply crypto codec request rclient client kdc_time ticket_reply tkt client_key key =
     bindH (tryH (fetch_last_req_info client) ''FETCH_LAST_REQ'') (\<lambda>last_req.
       let part = \<lparr>rp_session = et_session tkt, rp_last_req = last_req, rp_nonce = rq_nonce request,
             rp_key_exp = db_expiration client, rp_flags = et_flags tkt,
             rp_times = (et_times tkt)\<lparr>authtime := kdc_time\<rparr>, rp_server = tk_server ticket_reply,
             rp_caddrs = et_caddrs tkt\<rparr>
       in bindH (case return_padata crypto codec rclient (rq_padata request) client_key key of
                   Done r \<Rightarrow> Continue r
                 | Error errcode \<Rightarrow> Errout errcode ''KDC_RETURN_PADATA'' []
                 | _ \<Rightarrow> Undefined) (\<lambda>(padata, key).
            let reply = \<lparr>kr_msg_type = KRB5_AS_REP, kr_padata = padata, kr_client = rclient,
                  kr_ticket = ticket_reply, kr_enc_part_enctype = kb_enctype key\<rparr>
            in bindH (tryH (encode_kdc_rep codec part False key reply) ''ENCODE_KDC_REP'') (\<lambda>response.
                 Continue (reply, part, response))))"

text \<open>The whole exchange up to the error exit.\<close>

definition as_issue ::
  "kdc_realm \<Rightarrow> kdc_crypto \<Rightarrow> kdc_codec \<Rightarrow> krb5_kdc_req \<Rightarrow>
     (krb5_kdc_rep \<times> krb5_enc_kdc_rep_part \<times> octet list) handler" where
  "as_issue realm crypto codec request =
     bindH (as_names request) (\<lambda>(rclient, rserver).
     bindH (as_lookup realm rclient rserver) (\<lambda>(client, server, kdc_time).
     bindH (as_validate crypto request client server kdc_time) (\<lambda>session_key.
     bindH (as_preauth realm crypto codec request rclient client server
              (as_ticket realm request rclient client server kdc_time session_key)) (\<lambda>tkt.
     bindH (encrypt_for_server crypto server rserver tkt ''ENCRYPTING_TICKET'') (\<lambda>ticket_reply.
     bindH (as_client_key crypto request client) (\<lambda>(client_key, key).
       as_reply crypto codec request rclient client kdc_time ticket_reply tkt client_key key))))))"

definition prepare_error_as ::
  "kdc_realm \<Rightarrow> kdc_codec \<Rightarrow> krb5_kdc_req \<Rightarrow> int \<Rightarrow> octet list \<Rightarrow> (octet list) krb5_result" where
  "prepare_error_as realm codec request error e_data =
     bindE (us_timeofday realm) (\<lambda>(stime, susec).
       mk_error codec \<lparr>er_ctime = rq_nonce request, er_cusec = 0, er_susec = susec, er_stime = stime,
         er_error = error, er_client = rq_client request, er_server = rq_server request,
         er_text = error_message realm (error + ERROR_TABLE_BASE_krb5) @ [NUL], er_e_data = e_data\<rparr>)"

definition process_as_req ::
  "kdc_realm \<Rightarrow> kdc_crypto \<Rightarrow> kdc_codec \<Rightarrow> krb5_kdc_req \<Rightarrow> (octet list) c_outcome" where
  "process_as_req realm crypto codec request =
     (case as_issue realm crypto codec request of
        Continue (reply, part, response) \<Rightarrow> Done response
      | Errout errcode status e_data \<Rightarrow>
          of_result (prepare_error_as realm codec request (protocol_error errcode) e_data)
      | Undefined \<Rightarrow> Out_of_bounds)"

section \<open>What an issued ticket went through\<close>

text \<open>The facts behind a reply: the entries found, the verdict, the ticket before and after preauthentication.\<close>

definition as_passed ::
  "kdc_realm \<Rightarrow> kdc_crypto \<Rightarrow> kdc_codec \<Rightarrow> krb5_kdc_req \<Rightarrow> krb5_kdc_rep \<Rightarrow> krb5_enc_kdc_rep_part \<Rightarrow>
     krb5_principal \<Rightarrow> krb5_principal \<Rightarrow> krb5_db_entry \<Rightarrow> krb5_db_entry \<Rightarrow> krb5_timestamp \<Rightarrow> krb5_enc_tkt_part \<Rightarrow>
     krb5_keyblock \<Rightarrow> bool" where
  "as_passed realm crypto codec request rep part rclient rserver client server kdc_time tkt session_key \<longleftrightarrow>
     rq_client request = Some rclient \<and> rq_server request = Some rserver \<and>
     db_get_principal realm rclient = Inr ([client], False) \<and>
     db_get_principal realm rserver = Inr ([server], False) \<and> timeofday realm = Inr kdc_time \<and>
     validate_as_request request client server kdc_time = None \<and>
     select_session_keytype server (rq_ktype request) \<noteq> 0 \<and>
     c_make_random_key crypto 0 (select_session_keytype server (rq_ktype request)) = Inr session_key \<and>
     check_padata realm crypto codec rclient client (rq_padata request)
       (as_ticket realm request rclient client server kdc_time session_key) = Done tkt \<and>
     missing_required_preauth client server tkt = None \<and>
     tk_enc_part2 (kr_ticket rep) = Some tkt \<and> tk_server (kr_ticket rep) = rserver \<and> kr_client rep = rclient \<and>
     part = \<lparr>rp_session = et_session tkt, rp_last_req = nolrarray, rp_nonce = rq_nonce request,
       rp_key_exp = db_expiration client, rp_flags = et_flags tkt, rp_times = (et_times tkt)\<lparr>authtime := kdc_time\<rparr>,
       rp_server = rserver, rp_caddrs = et_caddrs tkt\<rparr>"

lemma as_names_Continue:
  "as_names request = Continue (c, s) \<Longrightarrow> rq_client request = Some c \<and> rq_server request = Some s"
  by (auto simp: as_names_def handler_continue split: option.splits)

lemma lookup_one_Continue:
  "lookup_one realm p a b c u = Continue e \<Longrightarrow> db_get_principal realm p = Inr ([e], False)"
  by (auto simp: lookup_one_def handler_continue split: if_splits list.splits)

lemma as_lookup_Continue:
  "as_lookup realm c s = Continue (client, server, t) \<Longrightarrow>
     db_get_principal realm c = Inr ([client], False) \<and> db_get_principal realm s = Inr ([server], False) \<and>
     timeofday realm = Inr t"
  by (auto simp: as_lookup_def handler_continue dest: lookup_one_Continue)

lemma as_validate_Continue:
  "as_validate crypto request client server t = Continue key \<Longrightarrow>
     validate_as_request request client server t = None \<and> select_session_keytype server (rq_ktype request) \<noteq> 0 \<and>
     c_make_random_key crypto 0 (select_session_keytype server (rq_ktype request)) = Inr key"
  by (auto simp: as_validate_def Let_def handler_continue split: option.splits if_splits)

lemma as_preauth_Continue:
  "as_preauth realm crypto codec request rclient client server tkt = Continue tkt' \<Longrightarrow>
     check_padata realm crypto codec rclient client (rq_padata request) tkt = Done tkt' \<and>
     missing_required_preauth client server tkt' = None"
  by (auto simp: as_preauth_def handler_continue split: c_outcome.splits option.splits)

lemma encrypt_for_server_Continue:
  "encrypt_for_server crypto server rserver tkt status = Continue ticket \<Longrightarrow>
     tk_server ticket = rserver \<and> tk_enc_part2 ticket = Some tkt"
  by (auto simp: encrypt_for_server_def handler_continue Let_def)

lemma as_reply_Continue:
  "as_reply crypto codec request rclient client t ticket tkt client_key key = Continue (rep, part, response) \<Longrightarrow>
     kr_client rep = rclient \<and> kr_ticket rep = ticket \<and>
     part = \<lparr>rp_session = et_session tkt, rp_last_req = nolrarray, rp_nonce = rq_nonce request,
       rp_key_exp = db_expiration client, rp_flags = et_flags tkt, rp_times = (et_times tkt)\<lparr>authtime := t\<rparr>,
       rp_server = tk_server ticket, rp_caddrs = et_caddrs tkt\<rparr>"
  by (auto simp: as_reply_def handler_continue Let_def fetch_last_req_info_def split: c_outcome.splits)

lemma as_issue_passed:
  assumes "as_issue realm crypto codec request = Continue (rep, part, response)"
  obtains rclient rserver client server kdc_time tkt session_key where
    "as_passed realm crypto codec request rep part rclient rserver client server kdc_time tkt session_key"
proof -
  from assms obtain rclient rserver client server t session_key tkt ticket ck key where
    "as_names request = Continue (rclient, rserver)" "as_lookup realm rclient rserver = Continue (client, server, t)"
    "as_validate crypto request client server t = Continue session_key"
    "as_preauth realm crypto codec request rclient client server
       (as_ticket realm request rclient client server t session_key) = Continue tkt"
    "encrypt_for_server crypto server rserver tkt ''ENCRYPTING_TICKET'' = Continue ticket"
    "as_reply crypto codec request rclient client t ticket tkt ck key = Continue (rep, part, response)"
    by (auto simp: as_issue_def bindH_eq_Continue)
  then have "as_passed realm crypto codec request rep part rclient rserver client server t tkt session_key"
    unfolding as_passed_def
    by (auto dest: as_names_Continue as_lookup_Continue as_validate_Continue as_preauth_Continue
        encrypt_for_server_Continue as_reply_Continue)
  then show ?thesis by (rule that)
qed

lemma isflagset_set_if: "isflagset (set_if c f fl) g \<longleftrightarrow> isflagset fl g \<or> (c \<and> isflagset f g)"
  by (simp add: set_if_def isflagset_setflag)

lemma as_ticket_unauthenticated:
  "\<not> isflagset (et_flags (as_ticket realm request rclient client server t key)) TKT_FLG_PRE_AUTH"
  "\<not> isflagset (et_flags (as_ticket realm request rclient client server t key)) TKT_FLG_HW_AUTH"
  by (simp_all add: as_ticket_def as_flags_def Let_def isflagset_set_if isflagset_setflag)
    (simp_all add: isflagset_def krb5_flags)

text \<open>Apart from the two preauthentication flags the ticket is the one \<open>as_ticket\<close> made.\<close>

lemma as_passed_flags:
  assumes "as_passed realm crypto codec request rep part rclient rserver client server t tkt key"
  shows "tkt = (as_ticket realm request rclient client server t key)\<lparr>et_flags := et_flags tkt\<rparr>"
    and "\<not> isflagset TKT_FLG_PRE_AUTH f \<Longrightarrow> \<not> isflagset TKT_FLG_HW_AUTH f \<Longrightarrow> isflagset (et_flags tkt) f \<Longrightarrow>
      isflagset (et_flags (as_ticket realm request rclient client server t key)) f"
    and "isflagset (et_flags (as_ticket realm request rclient client server t key)) f \<Longrightarrow> isflagset (et_flags tkt) f"
proof -
  from assms have "check_padata realm crypto codec rclient client (rq_padata request)
      (as_ticket realm request rclient client server t key) = Done tkt"
    by (simp add: as_passed_def)
  note backed = check_padata_backed [OF this, unfolded flags_backed_def]
  show "tkt = (as_ticket realm request rclient client server t key)\<lparr>et_flags := et_flags tkt\<rparr>"
    using backed by auto
  show "\<not> isflagset TKT_FLG_PRE_AUTH f \<Longrightarrow> \<not> isflagset TKT_FLG_HW_AUTH f \<Longrightarrow> isflagset (et_flags tkt) f \<Longrightarrow>
      isflagset (et_flags (as_ticket realm request rclient client server t key)) f"
    using backed by auto
  show "isflagset (et_flags (as_ticket realm request rclient client server t key)) f \<Longrightarrow> isflagset (et_flags tkt) f"
    using backed by auto
qed

lemma as_ticket_flag_origin:
  assumes "isflagset (et_flags (as_ticket realm request rclient client server t key)) f"
  shows "f = TKT_FLG_FORWARDABLE \<Longrightarrow> isflagset (rq_kdc_options request) KDC_OPT_FORWARDABLE"
    and "f = TKT_FLG_PROXIABLE \<Longrightarrow> isflagset (rq_kdc_options request) KDC_OPT_PROXIABLE"
    and "f = TKT_FLG_MAY_POSTDATE \<Longrightarrow> isflagset (rq_kdc_options request) KDC_OPT_ALLOW_POSTDATE"
    and "f = TKT_FLG_POSTDATED \<Longrightarrow> isflagset (rq_kdc_options request) KDC_OPT_POSTDATED"
    and "f = TKT_FLG_RENEWABLE \<Longrightarrow> isflagset (rq_kdc_options request) KDC_OPT_RENEWABLE \<or>
      (isflagset (rq_kdc_options request) KDC_OPT_RENEWABLE_OK \<and>
       \<not> isflagset (db_attributes client) KRB5_KDB_DISALLOW_RENEWABLE)"
  using assms unfolding as_ticket_def as_flags_def Let_def
  by (auto simp: isflagset_set_if isflagset_setflag as_renewable_def split: if_splits)
    (auto simp: isflagset_def krb5_flags)

lemma as_ticket_renewable:
  "isflagset (et_flags (as_ticket realm request rclient client server t key)) TKT_FLG_RENEWABLE \<longleftrightarrow>
     isflagset (rq_kdc_options (as_renewable realm request client server t)) KDC_OPT_RENEWABLE"
proof -
  have "\<not> isflagset (as_flags request) TKT_FLG_RENEWABLE"
    by (simp add: as_flags_def Let_def isflagset_set_if isflagset_setflag) (simp add: isflagset_def krb5_flags)
  moreover have "isflagset TKT_FLG_RENEWABLE TKT_FLG_RENEWABLE"
    by (simp add: isflagset_def krb5_flags)
  ultimately show ?thesis
    by (simp add: as_ticket_def Let_def isflagset_set_if)
qed

lemma validate_as_request_None:
  assumes "validate_as_request request client server t = None"
  shows "isflagset (rq_kdc_options request) KDC_OPT_FORWARDABLE \<Longrightarrow>
      \<not> isflagset (db_attributes client) KRB5_KDB_DISALLOW_FORWARDABLE \<and>
      \<not> isflagset (db_attributes server) KRB5_KDB_DISALLOW_FORWARDABLE"
    and "isflagset (rq_kdc_options request) KDC_OPT_PROXIABLE \<Longrightarrow>
      \<not> isflagset (db_attributes client) KRB5_KDB_DISALLOW_PROXIABLE \<and>
      \<not> isflagset (db_attributes server) KRB5_KDB_DISALLOW_PROXIABLE"
    and "isflagset (rq_kdc_options request) KDC_OPT_ALLOW_POSTDATE \<or>
      isflagset (rq_kdc_options request) KDC_OPT_POSTDATED \<Longrightarrow>
      \<not> isflagset (db_attributes client) KRB5_KDB_DISALLOW_POSTDATED \<and>
      \<not> isflagset (db_attributes server) KRB5_KDB_DISALLOW_POSTDATED"
    and "isflagset (rq_kdc_options request) KDC_OPT_RENEWABLE \<Longrightarrow>
      \<not> isflagset (db_attributes client) KRB5_KDB_DISALLOW_RENEWABLE \<and>
      \<not> isflagset (db_attributes server) KRB5_KDB_DISALLOW_RENEWABLE"
    and "\<not> isflagset (db_attributes client) KRB5_KDB_DISALLOW_ALL_TIX \<and>
      \<not> isflagset (db_attributes server) KRB5_KDB_DISALLOW_ALL_TIX \<and>
      \<not> isflagset (db_attributes server) KRB5_KDB_DISALLOW_SVR"
    and "(db_expiration client = 0 \<or> t \<le> db_expiration client) \<and>
      (db_expiration server = 0 \<or> t \<le> db_expiration server)"
    and "isflagset (db_attributes server) KRB5_KDB_PWCHANGE_SERVICE \<or>
       ((db_pw_expiration client = 0 \<or> t \<le> db_pw_expiration client) \<and>
        \<not> isflagset (db_attributes client) KRB5_KDB_REQUIRES_PWCHANGE)"
  using assms unfolding validate_as_request_def Let_def verdict_else_None first_failure_None
  by (simp_all add: not_less, linarith?)

lemma flags_apart:
  "f \<in> {TKT_FLG_FORWARDABLE, TKT_FLG_PROXIABLE, TKT_FLG_MAY_POSTDATE, TKT_FLG_POSTDATED, TKT_FLG_RENEWABLE} \<Longrightarrow>
     \<not> isflagset TKT_FLG_PRE_AUTH f \<and> \<not> isflagset TKT_FLG_HW_AUTH f"
  by (auto simp: isflagset_def krb5_flags)

lemma as_passed_proofs:
  assumes "as_passed realm crypto codec request rep part rclient rserver client server t tkt key"
  shows "isflagset (et_flags tkt) TKT_FLG_PRE_AUTH \<Longrightarrow> \<exists>pas. rq_padata request = Some pas \<and>
      (\<exists>pa \<in> set pas. pa_type pa = KRB5_PADATA_ENC_TIMESTAMP \<and> timestamp_proof realm crypto codec client pa)"
    and "isflagset (et_flags tkt) TKT_FLG_HW_AUTH \<Longrightarrow> \<exists>pas. rq_padata request = Some pas \<and>
      (\<exists>pa \<in> set pas. pa_type pa = KRB5_PADATA_SAM_RESPONSE \<and> sam_proof realm crypto codec rclient pa)"
proof -
  from assms have "check_padata realm crypto codec rclient client (rq_padata request)
      (as_ticket realm request rclient client server t key) = Done tkt"
    by (simp add: as_passed_def)
  note backed = check_padata_backed [OF this, unfolded flags_backed_def]
  have apart: "\<not> isflagset TKT_FLG_PRE_AUTH TKT_FLG_HW_AUTH" "\<not> isflagset TKT_FLG_HW_AUTH TKT_FLG_PRE_AUTH"
    by (simp_all add: isflagset_def krb5_flags)
  show "isflagset (et_flags tkt) TKT_FLG_PRE_AUTH \<Longrightarrow> \<exists>pas. rq_padata request = Some pas \<and>
      (\<exists>pa \<in> set pas. pa_type pa = KRB5_PADATA_ENC_TIMESTAMP \<and> timestamp_proof realm crypto codec client pa)"
    using backed apart as_ticket_unauthenticated(1) by (auto split: option.splits)
  show "isflagset (et_flags tkt) TKT_FLG_HW_AUTH \<Longrightarrow> \<exists>pas. rq_padata request = Some pas \<and>
      (\<exists>pa \<in> set pas. pa_type pa = KRB5_PADATA_SAM_RESPONSE \<and> sam_proof realm crypto codec rclient pa)"
    using backed apart as_ticket_unauthenticated(2) by (auto split: option.splits)
qed

lemma as_passed_times:
  assumes "as_passed realm crypto codec request rep part rclient rserver client server t tkt key"
  shows "et_times tkt = et_times (as_ticket realm request rclient client server t key)"
    and "isflagset (et_flags tkt) TKT_FLG_RENEWABLE \<longleftrightarrow>
      isflagset (rq_kdc_options (as_renewable realm request client server t)) KDC_OPT_RENEWABLE"
proof -
  show "et_times tkt = et_times (as_ticket realm request rclient client server t key)"
    using arg_cong [OF as_passed_flags(1) [OF assms], of et_times] by simp
  show "isflagset (et_flags tkt) TKT_FLG_RENEWABLE \<longleftrightarrow>
      isflagset (rq_kdc_options (as_renewable realm request client server t)) KDC_OPT_RENEWABLE"
    using as_passed_flags(2,3) [OF assms, of TKT_FLG_RENEWABLE] flags_apart [of TKT_FLG_RENEWABLE]
      as_ticket_renewable [of realm request rclient client server t key] by blast
qed

lemma as_passed_renewable:
  assumes "as_passed realm crypto codec request rep part rclient rserver client server t tkt key"
    and "isflagset (et_flags tkt) TKT_FLG_RENEWABLE"
  shows "\<not> isflagset (db_attributes client) KRB5_KDB_DISALLOW_RENEWABLE \<and>
    (isflagset (rq_kdc_options request) KDC_OPT_RENEWABLE \<and> \<not> isflagset (db_attributes server) KRB5_KDB_DISALLOW_RENEWABLE \<or>
     isflagset (rq_kdc_options request) KDC_OPT_RENEWABLE_OK \<and> endtime (et_times tkt) < rq_till request)"
proof -
  have v: "validate_as_request request client server t = None" using assms(1) by (simp add: as_passed_def)
  have e: "endtime (et_times tkt) = as_endtime realm request client server t"
    unfolding as_passed_times(1) [OF assms(1)] by (simp add: as_ticket_def Let_def)
  have r: "isflagset (rq_kdc_options (as_renewable realm request client server t)) KDC_OPT_RENEWABLE"
    using as_passed_times(2) [OF assms(1)] assms(2) by simp
  show ?thesis
  proof (cases "as_renewable realm request client server t = request")
    case True
    then show ?thesis using r validate_as_request_None(4) [OF v] by simp
  next
    case False
    then show ?thesis unfolding e by (auto simp: as_renewable_def split: if_splits)
  qed
qed

section \<open>Properties\<close>

text \<open>
  C1. No ticket without the required preauthentication: when the authentication service issues
  a ticket to a client whose entry requires preauthentication, or marks a ticket as
  preauthenticated, the request contains an encrypted timestamp that proves knowledge of one
  of the client's keys; and likewise a SAM response for hardware preauthentication.
\<close>

theorem as_preauth_enforced:
  assumes "as_issue realm crypto codec request = Continue (rep, part, response)"
  shows "\<exists>rclient client tkt. rq_client request = Some rclient \<and>
    db_get_principal realm rclient = Inr ([client], False) \<and> tk_enc_part2 (kr_ticket rep) = Some tkt \<and>
    (isflagset (db_attributes client) KRB5_KDB_REQUIRES_PRE_AUTH \<or> isflagset (et_flags tkt) TKT_FLG_PRE_AUTH \<longrightarrow>
      (\<exists>pas. rq_padata request = Some pas \<and> (\<exists>pa \<in> set pas. pa_type pa = KRB5_PADATA_ENC_TIMESTAMP \<and>
         timestamp_proof realm crypto codec client pa))) \<and>
    (isflagset (db_attributes client) KRB5_KDB_REQUIRES_HW_AUTH \<or> isflagset (et_flags tkt) TKT_FLG_HW_AUTH \<longrightarrow>
      (\<exists>pas. rq_padata request = Some pas \<and> (\<exists>pa \<in> set pas. pa_type pa = KRB5_PADATA_SAM_RESPONSE \<and>
         sam_proof realm crypto codec rclient pa)))"
proof -
  obtain rclient rserver client server t tkt key where
    p: "as_passed realm crypto codec request rep part rclient rserver client server t tkt key"
    by (rule as_issue_passed [OF assms])
  note proofs = as_passed_proofs [OF p]
  show ?thesis
    using p proofs unfolding as_passed_def missing_required_preauth_def
    by (intro exI [of _ rclient] exI [of _ client] exI [of _ tkt]) (auto split: if_splits)
qed

definition sample_as_req :: krb5_kdc_req where
  "sample_as_req = (sample_kdc_req sample_tgs_principal (setflag KDC_OPT_FORWARDABLE KDC_OPT_RENEWABLE_OK))
     \<lparr>rq_padata := Some [sample_timestamp]\<rparr>"

definition sample_as_reply :: "flags \<Rightarrow> (krb5_kdc_rep \<times> krb5_enc_kdc_rep_part \<times> octet list) handler" where
  "sample_as_reply attr = as_issue (sample_realm attr) sample_crypto sample_codec sample_as_req"

text \<open>The reply itself, for the statements that have one as a hypothesis.\<close>

definition continued :: "'a handler \<Rightarrow> bool" where
  "continued h = (case h of Continue x \<Rightarrow> True | _ \<Rightarrow> False)"

definition the_result :: "'a handler \<Rightarrow> 'a" where
  "the_result h = (case h of Continue x \<Rightarrow> x)"

lemma continuedE: "continued h \<Longrightarrow> (\<And>x. h = Continue x \<Longrightarrow> P) \<Longrightarrow> P"
  by (cases h) (simp_all add: continued_def)

lemma continued_bindH: "continued m \<Longrightarrow> (\<And>x. m = Continue x \<Longrightarrow> continued (f x)) \<Longrightarrow> continued (bindH m f)"
  by (cases m) (simp_all add: continued_def)

lemma continued_tryH: "continued (tryH r s) \<longleftrightarrow> (\<exists>x. r = Inr x)"
  by (simp add: tryH_def continued_def split: sum.split)

lemma continued_Continue: "continued (Continue x)"
  by (simp add: continued_def)

lemma continued_result: "continued h \<Longrightarrow> the_result h = (a, b, c) \<Longrightarrow> h = Continue (a, b, c)"
  by (cases h) (simp_all add: continued_def the_result_def)

theorem as_preauth_enforced_witness:
  "\<exists>pa \<in> {sample_timestamp}. timestamp_proof (sample_realm KRB5_KDB_REQUIRES_PRE_AUTH) sample_crypto sample_codec
     (sample_db_entry sample_client KRB5_KDB_REQUIRES_PRE_AUTH) pa"
proof -
  obtain rep part response where
    r: "sample_as_reply KRB5_KDB_REQUIRES_PRE_AUTH = Continue (rep, part, response)"
  proof -
    have "continued (sample_as_reply KRB5_KDB_REQUIRES_PRE_AUTH)" by code_simp
    then show ?thesis using that continued_result by (metis prod_cases3)
  qed
  have "isflagset (db_attributes (sample_db_entry sample_client KRB5_KDB_REQUIRES_PRE_AUTH)) KRB5_KDB_REQUIRES_PRE_AUTH"
    by code_simp
  then show ?thesis
    using as_preauth_enforced [OF r [unfolded sample_as_reply_def]]
    by (auto simp: sample_as_req_def sample_kdc_req_def sample_realm_def)
qed

text \<open>
  C5. The ticket is within the policy of the entries: a flag \<open>FORWARDABLE\<close>, \<open>PROXIABLE\<close>,
  \<open>MAY_POSTDATE\<close> or \<open>POSTDATED\<close> of the ticket was asked for and is forbidden neither by the client's
  nor by the server's entry.  \<open>RENEWABLE\<close> is not forbidden by the client's entry, and either it was
  asked for and the server's entry does not forbid it, or the request has \<open>RENEWABLE_OK\<close> and the
  ticket ends before the time asked for; in that case the server's entry is not looked at.
  Neither entry has expired or is locked, the server may act as a service, and the client's
  password has not expired unless the ticket is for the password changing service.
\<close>

theorem as_ticket_within_policy:
  assumes "as_issue realm crypto codec request = Continue (rep, part, response)"
  shows "\<exists>client server t tkt. tk_enc_part2 (kr_ticket rep) = Some tkt \<and> timeofday realm = Inr t \<and>
    db_get_principal realm (kr_client rep) = Inr ([client], False) \<and>
    db_get_principal realm (tk_server (kr_ticket rep)) = Inr ([server], False) \<and>
    (\<forall>(flag, option, disallow) \<in> {(TKT_FLG_FORWARDABLE, KDC_OPT_FORWARDABLE, KRB5_KDB_DISALLOW_FORWARDABLE),
        (TKT_FLG_PROXIABLE, KDC_OPT_PROXIABLE, KRB5_KDB_DISALLOW_PROXIABLE),
        (TKT_FLG_MAY_POSTDATE, KDC_OPT_ALLOW_POSTDATE, KRB5_KDB_DISALLOW_POSTDATED),
        (TKT_FLG_POSTDATED, KDC_OPT_POSTDATED, KRB5_KDB_DISALLOW_POSTDATED)}.
       isflagset (et_flags tkt) flag \<longrightarrow> isflagset (rq_kdc_options request) option \<and>
         \<not> isflagset (db_attributes client) disallow \<and> \<not> isflagset (db_attributes server) disallow) \<and>
    (isflagset (et_flags tkt) TKT_FLG_RENEWABLE \<longrightarrow>
       \<not> isflagset (db_attributes client) KRB5_KDB_DISALLOW_RENEWABLE \<and>
       (isflagset (rq_kdc_options request) KDC_OPT_RENEWABLE \<and> \<not> isflagset (db_attributes server) KRB5_KDB_DISALLOW_RENEWABLE \<or>
        isflagset (rq_kdc_options request) KDC_OPT_RENEWABLE_OK \<and> endtime (et_times tkt) < rq_till request)) \<and>
    \<not> isflagset (db_attributes client) KRB5_KDB_DISALLOW_ALL_TIX \<and>
    \<not> isflagset (db_attributes server) KRB5_KDB_DISALLOW_ALL_TIX \<and>
    \<not> isflagset (db_attributes server) KRB5_KDB_DISALLOW_SVR \<and>
    (db_expiration client = 0 \<or> t \<le> db_expiration client) \<and>
    (db_expiration server = 0 \<or> t \<le> db_expiration server) \<and>
    (isflagset (db_attributes server) KRB5_KDB_PWCHANGE_SERVICE \<or>
       ((db_pw_expiration client = 0 \<or> t \<le> db_pw_expiration client) \<and>
        \<not> isflagset (db_attributes client) KRB5_KDB_REQUIRES_PWCHANGE))"
proof -
  obtain rclient rserver client server t tkt key where
    p: "as_passed realm crypto codec request rep part rclient rserver client server t tkt key"
    by (rule as_issue_passed [OF assms])
  have v: "validate_as_request request client server t = None"
    using p by (simp add: as_passed_def)
  have flag: "isflagset (et_flags tkt) f \<Longrightarrow>
      f \<in> {TKT_FLG_FORWARDABLE, TKT_FLG_PROXIABLE, TKT_FLG_MAY_POSTDATE, TKT_FLG_POSTDATED, TKT_FLG_RENEWABLE} \<Longrightarrow>
      isflagset (et_flags (as_ticket realm request rclient client server t key)) f" for f
    using as_passed_flags(2) [OF p, of f] flags_apart [of f] by blast
  note origin = as_ticket_flag_origin [OF flag]
  have opts: "isflagset (et_flags tkt) TKT_FLG_FORWARDABLE \<Longrightarrow> isflagset (rq_kdc_options request) KDC_OPT_FORWARDABLE"
    "isflagset (et_flags tkt) TKT_FLG_PROXIABLE \<Longrightarrow> isflagset (rq_kdc_options request) KDC_OPT_PROXIABLE"
    "isflagset (et_flags tkt) TKT_FLG_MAY_POSTDATE \<Longrightarrow> isflagset (rq_kdc_options request) KDC_OPT_ALLOW_POSTDATE"
    "isflagset (et_flags tkt) TKT_FLG_POSTDATED \<Longrightarrow> isflagset (rq_kdc_options request) KDC_OPT_POSTDATED"
    by (simp_all add: origin)
  note renew = as_passed_renewable [OF p]
  have found: "tk_enc_part2 (kr_ticket rep) = Some tkt" "timeofday realm = Inr t"
    "db_get_principal realm (kr_client rep) = Inr ([client], False)"
    "db_get_principal realm (tk_server (kr_ticket rep)) = Inr ([server], False)"
    using p by (simp_all add: as_passed_def)
  show ?thesis
    using found opts renew validate_as_request_None [OF v]
    by (intro exI [of _ client] exI [of _ server] exI [of _ t] exI [of _ tkt]) simp
qed

lemma sample_as_issued:
  obtains rep part response where "as_issue (sample_realm 0) sample_crypto sample_codec sample_as_req =
    Continue (rep, part, response)"
proof -
  have "continued (as_issue (sample_realm 0) sample_crypto sample_codec sample_as_req)" by code_simp
  then show ?thesis using that continued_result by (metis prod_cases3)
qed

theorem as_ticket_within_policy_witness:
  "\<exists>rep part response tkt. as_issue (sample_realm 0) sample_crypto sample_codec sample_as_req =
      Continue (rep, part, response) \<and> tk_enc_part2 (kr_ticket rep) = Some tkt \<and>
      (isflagset (et_flags tkt) TKT_FLG_PROXIABLE \<longrightarrow> isflagset (rq_kdc_options sample_as_req) KDC_OPT_PROXIABLE)"
proof -
  obtain rep part response where
    r: "as_issue (sample_realm 0) sample_crypto sample_codec sample_as_req = Continue (rep, part, response)"
    by (rule sample_as_issued)
  show ?thesis
    using as_ticket_within_policy [OF r] r by (elim exE conjE) (intro exI conjI, assumption+, simp)
qed

text \<open>
  C6. The times of an issued ticket: it is dated from the KDC's clock, it does not outlive the
  requested end nor the maximal lives of the client, the server and the realm, counted from
  its start, and when it is renewable, it is so no longer than the three maximal renewable
  lives allow; a ticket that is not renewable has no renew time.  The hypotheses say that the
  three sums do not leave the range of 32 bits.
\<close>

theorem as_ticket_times:
  assumes "as_issue realm crypto codec request = Continue (rep, part, response)"
    and "db_get_principal realm (kr_client rep) = Inr ([client], False)"
    and "db_get_principal realm (tk_server (kr_ticket rep)) = Inr ([server], False)"
    and "timeofday realm = Inr t" and "tk_enc_part2 (kr_ticket rep) = Some tkt"
    and "start = as_starttime request t"
    and "\<forall>life \<in> {db_max_life client, db_max_life server, realm_maxlife realm,
          min (db_max_renewable_life client) (min (db_max_renewable_life server) (realm_maxrlife realm))}.
          is_i32 (start + life)"
  shows "authtime (et_times tkt) = t \<and> starttime (et_times tkt) = (if start = t then 0 else start) \<and>
    (rq_till request \<noteq> 0 \<longrightarrow> endtime (et_times tkt) \<le> rq_till request) \<and>
    endtime (et_times tkt) \<le> start + db_max_life client \<and> endtime (et_times tkt) \<le> start + db_max_life server \<and>
    endtime (et_times tkt) \<le> start + realm_maxlife realm \<and>
    (if isflagset (et_flags tkt) TKT_FLG_RENEWABLE
     then renew_till (et_times tkt) \<le> start + db_max_renewable_life client \<and>
          renew_till (et_times tkt) \<le> start + db_max_renewable_life server \<and>
          renew_till (et_times tkt) \<le> start + realm_maxrlife realm
     else renew_till (et_times tkt) = 0)"
proof -
  obtain rclient rserver client' server' t' tkt' key where
    p: "as_passed realm crypto codec request rep part rclient rserver client' server' t' tkt' key"
    by (rule as_issue_passed [OF assms(1)])
  then have eqs: "client' = client" "server' = server" "t' = t" "tkt' = tkt"
    using assms(2-5) by (simp_all add: as_passed_def)
  note p = p [unfolded eqs]
  note tkt = as_passed_times(1) [OF p] and renewable = as_passed_times(2) [OF p]
  have life: "i32 (start + db_max_life client) = start + db_max_life client"
    "i32 (start + db_max_life server) = start + db_max_life server"
    "i32 (start + realm_maxlife realm) = start + realm_maxlife realm"
    "i32 (start + min (db_max_renewable_life client) (min (db_max_renewable_life server) (realm_maxrlife realm))) =
      start + min (db_max_renewable_life client) (min (db_max_renewable_life server) (realm_maxrlife realm))"
    using assms(7) by (simp_all add: i32_id)
  show ?thesis
    using renewable unfolding tkt as_ticket_def as_endtime_def Let_def assms(6) [symmetric] life
    by auto
qed

theorem as_ticket_times_witness:
  "\<exists>rep part response tkt. as_issue (sample_realm 0) sample_crypto sample_codec sample_as_req =
      Continue (rep, part, response) \<and> tk_enc_part2 (kr_ticket rep) = Some tkt \<and>
      endtime (et_times tkt) \<le> 1000000 + 36000"
proof -
  obtain rep part response where
    r: "as_issue (sample_realm 0) sample_crypto sample_codec sample_as_req = Continue (rep, part, response)"
    by (rule sample_as_issued)
  obtain rclient rserver client server t tkt key where
    p: "as_passed (sample_realm 0) sample_crypto sample_codec sample_as_req rep part rclient rserver client server t tkt key"
    by (rule as_issue_passed [OF r])
  then have "rclient = sample_client" "rserver = sample_tgs_principal"
    by (simp_all add: as_passed_def sample_as_req_def sample_kdc_req_def)
  moreover have "db_get_principal (sample_realm 0) rclient = Inr ([client], False)"
    "db_get_principal (sample_realm 0) rserver = Inr ([server], False)" "timeofday (sample_realm 0) = Inr t"
    using p by (simp_all add: as_passed_def)
  ultimately have found: "client = sample_db_entry sample_client 0" "server = sample_db_entry sample_tgs_principal 0"
      "t = 1000000"
    by (simp_all add: sample_realm_def sample_client_def sample_tgs_principal_def)
  have start: "as_starttime sample_as_req 1000000 = 1000000"
    by code_simp
  have facts: "db_get_principal (sample_realm 0) (kr_client rep) = Inr ([client], False)"
    "db_get_principal (sample_realm 0) (tk_server (kr_ticket rep)) = Inr ([server], False)"
    "timeofday (sample_realm 0) = Inr t" "tk_enc_part2 (kr_ticket rep) = Some tkt"
    using p by (simp_all add: as_passed_def)
  have "endtime (et_times tkt) \<le> 1000000 + db_max_life client"
    by (rule as_ticket_times [OF r facts, THEN conjunct2, THEN conjunct2, THEN conjunct2, THEN conjunct1])
      (simp_all add: found start sample_db_entry_def sample_realm_def is_i32_def)
  then show ?thesis
    using facts(4) r by (intro exI [of _ rep] exI [of _ part] exI [of _ response] exI [of _ tkt])
      (simp add: found sample_db_entry_def)
qed

text \<open>
  C27. The reply tells the client what the ticket says: flags, session key, addresses and times
  of the encrypted part of the reply are those of the ticket, the nonce is the request's, the
  server and client are the requested ones, and the session key has the type chosen from the
  request's list.
\<close>

theorem as_reply_matches_ticket:
  assumes "as_issue realm crypto codec request = Continue (rep, part, response)"
    and "\<forall>n e key. c_make_random_key crypto n e = Inr key \<longrightarrow> kb_enctype key = e"
  shows "\<exists>tkt. tk_enc_part2 (kr_ticket rep) = Some tkt \<and> rp_flags part = et_flags tkt \<and>
    rp_session part = et_session tkt \<and> rp_caddrs part = et_caddrs tkt \<and> rp_times part = et_times tkt \<and>
    rp_nonce part = rq_nonce request \<and> Some (rp_server part) = rq_server request \<and>
    tk_server (kr_ticket rep) = rp_server part \<and> Some (kr_client rep) = rq_client request \<and>
    et_client tkt = kr_client rep \<and> kb_enctype (et_session tkt) \<in> set (rq_ktype request)"
proof -
  obtain rclient rserver client server t tkt key where
    p: "as_passed realm crypto codec request rep part rclient rserver client server t tkt key"
    by (rule as_issue_passed [OF assms(1)])
  note eq = as_passed_flags(1) [OF p]
  have "et_session tkt = key" "et_client tkt = rclient" "authtime (et_times tkt) = t"
    using arg_cong [OF eq, of et_session] arg_cong [OF eq, of et_client] arg_cong [OF eq, of et_times]
    by (simp_all add: as_ticket_def Let_def)
  moreover have "select_session_keytype server ks \<noteq> 0 \<Longrightarrow> select_session_keytype server ks \<in> set ks" for ks
    by (induction server ks rule: select_session_keytype.induct) (auto split: if_splits)
  moreover have "kb_enctype key = select_session_keytype server (rq_ktype request)"
    using p assms(2) by (auto simp: as_passed_def)
  ultimately show ?thesis
    using p by (intro exI [of _ tkt]) (auto simp: as_passed_def)
qed

theorem as_reply_matches_ticket_witness:
  "\<exists>rep part response tkt. as_issue (sample_realm 0) sample_crypto sample_codec sample_as_req =
      Continue (rep, part, response) \<and> tk_enc_part2 (kr_ticket rep) = Some tkt \<and> rp_flags part = et_flags tkt \<and>
      kb_enctype (et_session tkt) \<in> set (rq_ktype sample_as_req)"
proof -
  obtain rep part response where
    r: "as_issue (sample_realm 0) sample_crypto sample_codec sample_as_req = Continue (rep, part, response)"
    by (rule sample_as_issued)
  have "\<forall>n e key. c_make_random_key sample_crypto n e = Inr key \<longrightarrow> kb_enctype key = e"
    by (auto simp: sample_crypto_def)
  then show ?thesis using as_reply_matches_ticket [OF r] r by blast
qed

text \<open>
  C35. Every failure is answered with a protocol error number from 0 to 128, whatever code it
  had; a code of the protocol's part of the error table is answered with its own number.
\<close>

theorem as_errors_are_protocol_errors:
  assumes "as_issue realm crypto codec request = Errout errcode status e_data"
  shows "\<exists>n. 0 \<le> n \<and> n \<le> 128 \<and>
    process_as_req realm crypto codec request = of_result (prepare_error_as realm codec request n e_data) \<and>
    (\<forall>k. 0 \<le> k \<and> k \<le> 128 \<and> errcode = krb5_err k \<longrightarrow> n = k)"
  using assms protocol_error_range [of errcode]
  by (intro exI [of _ "protocol_error errcode"])
    (auto simp: process_as_req_def krb5_err_def protocol_error_table add.commute)

theorem as_errors_are_protocol_errors_witness:
  "\<exists>n. 0 \<le> n \<and> n \<le> 128 \<and> process_as_req (sample_realm 0) sample_crypto sample_codec
      (sample_as_req\<lparr>rq_client := None\<rparr>) = of_result (prepare_error_as (sample_realm 0) sample_codec
      (sample_as_req\<lparr>rq_client := None\<rparr>) n []) \<and> n = 6"
proof -
  have "as_issue (sample_realm 0) sample_crypto sample_codec (sample_as_req\<lparr>rq_client := None\<rparr>) =
      Errout KRB5KDC_ERR_C_PRINCIPAL_UNKNOWN ''NULL_CLIENT'' []"
    by (simp add: as_issue_def as_names_def)
  from as_errors_are_protocol_errors [OF this, unfolded KRB5KDC_ERR_C_PRINCIPAL_UNKNOWN_def] obtain n where
    n: "0 \<le> n" "n \<le> 128" "process_as_req (sample_realm 0) sample_crypto sample_codec (sample_as_req\<lparr>rq_client := None\<rparr>) =
      of_result (prepare_error_as (sample_realm 0) sample_codec (sample_as_req\<lparr>rq_client := None\<rparr>) n [])"
    "\<forall>k. 0 \<le> k \<and> k \<le> 128 \<and> krb5_err 6 = krb5_err k \<longrightarrow> n = k"
    by blast
  then show ?thesis using spec [OF n(4), of 6] by (intro exI [of _ n]) simp
qed

text \<open>
  The \<open>RENEWABLE_OK\<close> option is granted on the client's entry alone: the service issues a
  renewable ticket for a server whose entry forbids renewable tickets.
\<close>

definition sample_norenew_realm :: kdc_realm where
  "sample_norenew_realm = (sample_realm 0)\<lparr>db_get_principal := (\<lambda>p.
     if p_data p = p_data sample_client then Inr ([sample_db_entry sample_client 0], False)
     else Inr ([sample_db_entry sample_tgs_principal KRB5_KDB_DISALLOW_RENEWABLE], False))\<rparr>"

definition issued_with :: "flags \<Rightarrow> (krb5_kdc_rep \<times> krb5_enc_kdc_rep_part \<times> octet list) handler \<Rightarrow> bool" where
  "issued_with fl h = (case h of Continue (rep, part, response) \<Rightarrow> isflagset (rp_flags part) fl | _ \<Rightarrow> False)"

theorem as_renewable_ok_ignores_server:
  "issued_with TKT_FLG_RENEWABLE (as_issue sample_norenew_realm sample_crypto sample_codec sample_as_req)"
  by code_simp

lemma return_padata_without_sam:
  assumes "\<And>pas pa. padata = Some pas \<Longrightarrow> pa \<in> set pas \<Longrightarrow> pa_type pa \<noteq> KRB5_PADATA_SAM_RESPONSE"
  shows "\<exists>pas. return_padata crypto codec rclient padata client_key key = Done (pas, key)"
proof -
  have "(case padata of None \<Rightarrow> None | Some pas \<Rightarrow> find (\<lambda>pa. pa_type pa = KRB5_PADATA_SAM_RESPONSE) pas) = None"
    using assms by (auto simp: find_None_iff split: option.split)
  then show ?thesis by (cases padata) (simp_all add: return_padata_def preauth_systems_def return_sam_data_def)
qed

text \<open>The key that seals the ticket: the server's key under the type that its entry asks for.\<close>

definition sealing_key :: "krb5_db_entry \<Rightarrow> krb5_keyblock \<Rightarrow> krb5_keyblock" where
  "sealing_key server key =
     (if kb_enctype key = ENCTYPE_DES_CBC_CRC \<and> isflagset (db_attributes server) KRB5_KDB_SUPPORT_DESMD5
      then key\<lparr>kb_enctype := ENCTYPE_DES_CBC_MD5\<rparr> else key)"



text \<open>A preauthenticated exchange that goes through, for the statement above.\<close>

definition sample_preauth_ticket :: krb5_enc_tkt_part where
  "sample_preauth_ticket = (as_ticket (sample_realm KRB5_KDB_REQUIRES_PRE_AUTH) sample_as_req sample_client
     (sample_db_entry sample_client KRB5_KDB_REQUIRES_PRE_AUTH) (sample_db_entry sample_tgs_principal 0) 1000000
     \<lparr>kb_enctype = 1, kb_contents = replicate 8 9\<rparr>)"

definition answers_preauth :: bool where
  "answers_preauth =
     (case check_padata (sample_realm KRB5_KDB_REQUIRES_PRE_AUTH) sample_crypto sample_codec sample_client
         (sample_db_entry sample_client KRB5_KDB_REQUIRES_PRE_AUTH) (rq_padata sample_as_req) sample_preauth_ticket of
        Done tkt \<Rightarrow> missing_required_preauth (sample_db_entry sample_client KRB5_KDB_REQUIRES_PRE_AUTH)
          (sample_db_entry sample_tgs_principal 0) tkt = None
      | _ \<Rightarrow> False)"


end
