(* ===== verification/Krb5_Realm.thy ===== *)
theory Krb5_Realm
  imports Krb5_Principal
begin

text \<open>
  Realms: the authentication path between two realms (\<open>lib/krb5/krb/walk_rtree.c\<close>) and the
  check of a ticket's transited field against that path (\<open>lib/krb5/krb/chk_trans.c\<close>).
  Pointers into the realm strings are indices; an index of -1 is the position in front of the
  string that the C code uses for a realm without a separator.
\<close>

section \<open>The path between two realms\<close>

text \<open>
  The loop that strips the common suffix.  \<open>clen\<close> and \<open>slen\<close> count what is left of both
  names; the pointers \<open>ccp\<close> and \<open>scp\<close> are always at \<open>clen - 1\<close> and \<open>slen - 1\<close>.
\<close>

fun common_suffix :: "string \<Rightarrow> string \<Rightarrow> char \<Rightarrow> nat \<Rightarrow> nat \<Rightarrow> int \<Rightarrow> int \<Rightarrow> bool \<Rightarrow>
    nat \<times> nat \<times> int \<times> int \<times> bool" where
  "common_suffix client server branch (Suc clen) (Suc slen) com_cdot com_sdot nocommon =
     (if client ! clen = server ! slen then
        (if client ! clen = branch
         then common_suffix client server branch clen slen (int clen) (int slen) False
         else common_suffix client server branch clen slen com_cdot com_sdot nocommon)
      else (Suc clen, Suc slen, com_cdot, com_sdot, nocommon))"
| "common_suffix client server branch clen slen com_cdot com_sdot nocommon =
     (clen, slen, com_cdot, com_sdot, nocommon)"

text \<open>
  The loops that count the separators in front of the common ancestor.  They add to \<open>links\<close>
  and, without a common ancestor, leave the last separator they saw in \<open>prev\<close>.
\<close>

definition seps_before :: "string \<Rightarrow> char \<Rightarrow> int \<Rightarrow> nat list" where
  "seps_before r branch com_dot = filter (\<lambda>i. int i < com_dot \<and> r ! i = branch) [0..<length r]"

definition last_sep :: "string \<Rightarrow> char \<Rightarrow> int \<Rightarrow> int" where
  "last_sep r branch com_dot =
     (let com_dot' = (case seps_before r branch com_dot of [] \<Rightarrow> com_dot | is \<Rightarrow> int (last is))
      in if com_dot' = int (length r) - 1 then -1 else com_dot')"

text \<open>The path up from the client's realm: one ticket per separator up to \<open>com_cdot\<close>.\<close>

function walk_up :: "string \<Rightarrow> char \<Rightarrow> int \<Rightarrow> nat \<Rightarrow> nat \<Rightarrow> krb5_principal list" where
  "walk_up client branch com_cdot ccp prevccp =
     (if int ccp \<le> com_cdot then
        (if client ! ccp \<noteq> branch then walk_up client branch com_cdot (ccp + 1) prevccp
         else krb5_tgtname (drop (ccp + 1) client) (drop prevccp client) #
                walk_up client branch com_cdot (ccp + 2) (ccp + 1))
      else [])"
  by pat_completeness auto
termination
  by (relation "measure (\<lambda>(client, branch, com_cdot, ccp, prevccp). nat (com_cdot + 1 - int ccp))") auto

declare walk_up.simps [simp del]

text \<open>The path down to the server's realm; the final value of \<open>prevscp\<close> is returned too.\<close>

fun walk_down :: "string \<Rightarrow> char \<Rightarrow> nat \<Rightarrow> nat \<Rightarrow> krb5_principal list \<times> nat" where
  "walk_down server branch 0 prevscp = ([], prevscp)"
| "walk_down server branch (Suc n) prevscp =
     (if server ! Suc n \<noteq> branch then walk_down server branch n prevscp
      else let (ps, prev) = walk_down server branch n (n + 2)
           in (krb5_tgtname (drop (n + 2) server) (drop prevscp server) # ps, prev))"

text \<open>
  The hierarchical method.  The result is the number of links that sizes the array and the
  principals stored in it.
\<close>

definition hierarchical_path :: "string \<Rightarrow> string \<Rightarrow> char \<Rightarrow> (nat \<times> krb5_principal list) krb5_result" where
  "hierarchical_path client server branch =
     (let (clen, slen, com_cdot, com_sdot, nocommon) =
            common_suffix client server branch (length client) (length server)
              (int (length client) - 1) (int (length server) - 1) True
      in if clen = 0 \<and> slen = 0 then Inl KRB5_NO_TKT_IN_RLM
         else
           let (com_cdot, com_sdot, nocommon) =
                 (if clen = 0 \<and> server ! (slen - 1) = branch then (0, int (slen - 1), False)
                  else if slen = 0 \<and> client ! (clen - 1) = branch then (int (clen - 1), 0, False)
                  else (com_cdot, com_sdot, nocommon));
               links = (if nocommon then 1 else 2) +
                 length (seps_before client branch com_cdot) + length (seps_before server branch com_sdot);
               (com_cdot, com_sdot) =
                 (if nocommon then (last_sep client branch com_cdot, last_sep server branch com_sdot)
                  else (com_cdot, com_sdot));
               up = walk_up client branch com_cdot 0 0;
               across = (if nocommon
                         then [krb5_tgtname (drop (nat (com_sdot + 1)) server) (drop (nat (com_cdot + 1)) client)]
                         else []);
               (down, prevscp) = walk_down server branch (nat (com_sdot - 1)) (nat (com_sdot + 1));
               final = (if slen \<noteq> 0 \<and> 0 \<le> com_sdot then [krb5_tgtname server (drop prevscp server)] else [])
           in Inr (links, krb5_tgtname client client # up @ across @ down @ final))"

text \<open>
  The configured paths: \<open>capaths client server\<close> is what \<open>profile_get_values\<close> finds under
  \<open>[capaths]\<close>, if anything; on success it is a list with at least one node.  A first node
  that starts with a dot means that the realms share a key directly.
\<close>

definition strcspn_ws :: "string \<Rightarrow> string" where
  "strcspn_ws s = takeWhile (\<lambda>c. c \<noteq> CHR 0x09 \<and> c \<noteq> CHR '' '') (c_str s)"

fun configured_path :: "string \<Rightarrow> string list \<Rightarrow> krb5_principal list" where
  "configured_path tmpcrealm [] = []"
| "configured_path tmpcrealm (node # nodes) =
     (let tmpsrealm = strcspn_ws node
      in krb5_tgtname tmpsrealm tmpcrealm # configured_path tmpsrealm nodes)"

definition cap_links :: "string list \<Rightarrow> string list" where
  "cap_links nodes = (case nodes of [] \<Rightarrow> []
     | node # _ \<Rightarrow> if node \<noteq> [] \<and> hd node = CHR ''.'' then [] else nodes)"

definition krb5_walk_realm_tree ::
  "(string \<Rightarrow> string \<Rightarrow> string list option) \<Rightarrow> string \<Rightarrow> string \<Rightarrow> char \<Rightarrow> (nat \<times> krb5_principal list) krb5_result" where
  "krb5_walk_realm_tree capaths client server branch =
     (case capaths (c_str client) (c_str server) of
        Some nodes \<Rightarrow>
          let hops = cap_links nodes @ [c_str server]
          in Inr (length hops, krb5_tgtname client client # configured_path client hops)
      | None \<Rightarrow> hierarchical_path client server branch)"

section \<open>Chains of ticket-granting tickets\<close>

text \<open>
  \<open>tgs_path r ps t\<close>: with a ticket of realm \<open>r\<close> in hand, the principals \<open>ps\<close> lead to realm
  \<open>t\<close>, each a ticket-granting service \<open>krbtgt/s@r\<close> that the realm before it can issue.
\<close>

fun tgs_path :: "string \<Rightarrow> krb5_principal list \<Rightarrow> string \<Rightarrow> bool" where
  "tgs_path r [] t \<longleftrightarrow> r = t"
| "tgs_path r (p # ps) t \<longleftrightarrow>
     p_realm p = r \<and>
     (case p_data p of [n, s] \<Rightarrow> n = KRB5_TGS_NAME \<and> tgs_path s ps t | _ \<Rightarrow> False)"

lemma krb5_tgtname_simps:
  "p_realm (krb5_tgtname s r) = r"
  "s \<noteq> [] \<Longrightarrow> p_data (krb5_tgtname s r) = [KRB5_TGS_NAME, s]"
  by (simp_all add: krb5_tgtname_def krb5_build_principal_ext_def take_args_def KRB5_TGS_NAME_def)

lemma tgs_path_tgtname: "s \<noteq> [] \<Longrightarrow> tgs_path r (krb5_tgtname s r # ps) t \<longleftrightarrow> tgs_path s ps t"
  by (simp add: krb5_tgtname_simps)

declare tgs_path.simps(2) [simp del]

lemma tgs_path_append: "tgs_path r ps s \<Longrightarrow> tgs_path s qs t \<Longrightarrow> tgs_path r (ps @ qs) t"
  by (induction r ps s rule: tgs_path.induct) (auto simp: tgs_path.simps(2) split: list.splits)

text \<open>A realm name whose components, separated by the branch character, are all non-empty.\<close>

definition wf_realm :: "char \<Rightarrow> string \<Rightarrow> bool" where
  "wf_realm branch r \<longleftrightarrow> r \<noteq> [] \<and> hd r \<noteq> branch \<and> last r \<noteq> branch \<and>
     list_all (\<lambda>i. \<not> (r ! i = branch \<and> r ! Suc i = branch)) [0..<length r - 1]"

lemma wf_realm_sep:
  assumes "wf_realm branch r" and "i < length r" and "r ! i = branch"
  shows "0 < i" and "Suc i < length r" and "r ! Suc i \<noteq> branch"
proof -
  show "0 < i"
    using assms by (cases i) (auto simp: wf_realm_def hd_conv_nth)
  show "Suc i < length r"
  proof (rule ccontr)
    assume "\<not> Suc i < length r"
    with assms(2) have "i = length r - 1" by simp
    with assms show False by (auto simp: wf_realm_def last_conv_nth)
  qed
  then show "r ! Suc i \<noteq> branch"
    using assms by (auto simp: wf_realm_def list_all_iff)
qed

lemma walk_up_path:
  assumes "wf_realm branch c" and "d < length c" and "c ! d = branch"
  shows "ccp \<le> d \<Longrightarrow> tgs_path (drop prev c) (walk_up c branch (int d) ccp prev) (drop (Suc d) c)"
proof (induction "Suc d - ccp" arbitrary: ccp prev rule: less_induct)
  case less
  show ?case
  proof (cases "c ! ccp = branch")
    case False
    then have "ccp \<noteq> d" using assms by auto
    with less.prems have "Suc ccp \<le> d" by simp
    with less.hyps [of "Suc ccp"] False show ?thesis
      by (simp add: walk_up.simps [of c branch "int d" ccp])
  next
    case True
    have "Suc ccp < length c" and "c ! Suc ccp \<noteq> branch"
      using wf_realm_sep [OF assms(1) _ True] less.prems assms(2) by auto
    then have ne: "drop (Suc ccp) c \<noteq> []" and "Suc ccp \<noteq> d" using assms by auto
    then consider (last) "ccp = d" | (more) "ccp + 2 \<le> d"
      using less.prems by linarith
    then show ?thesis
    proof cases
      case last
      then show ?thesis
        using ne assms(3) by (simp add: walk_up.simps [of c branch "int d" d] walk_up.simps [of c branch "int d" "d + 2"]
            walk_up.simps [of c branch "int d" "Suc (Suc d)"] tgs_path_tgtname)
    next
      case more
      have "tgs_path (drop (ccp + 1) c) (walk_up c branch (int d) (ccp + 2) (ccp + 1)) (drop (Suc d) c)"
        by (rule less.hyps) (use more in auto)
      with True ne less.prems show ?thesis
        by (simp add: walk_up.simps [of c branch "int d" ccp] tgs_path_tgtname)
    qed
  qed
qed

lemma walk_down_path:
  assumes "Suc n < length s"
  shows "tgs_path (drop prev s) (fst (walk_down s branch n prev)) (drop (snd (walk_down s branch n prev)) s)"
  using assms
proof (induction n arbitrary: prev)
  case 0
  then show ?case by simp
next
  case (Suc n)
  then show ?case
    by (simp add: tgs_path_tgtname case_prod_beta Let_def)
qed

lemma walk_down_prev: "prev \<noteq> 0 \<Longrightarrow> snd (walk_down s branch n prev) \<noteq> 0"
  by (induction n arbitrary: prev) (simp_all add: case_prod_beta Let_def)

text \<open>What the suffix loop leaves: where it stopped, and the common separator it passed last.\<close>

definition common_sep :: "string \<Rightarrow> string \<Rightarrow> char \<Rightarrow> int \<Rightarrow> int \<Rightarrow> bool" where
  "common_sep c s branch cd sd \<longleftrightarrow> (\<exists>i j. cd = int i \<and> sd = int j \<and> i < length c \<and> j < length s \<and>
     c ! i = branch \<and> s ! j = branch \<and> drop i c = drop j s)"

lemma common_suffix_result:
  assumes "common_suffix c s branch cl sl cd sd nc = (cl', sl', cd', sd', nc')"
    and "cl \<le> length c" and "sl \<le> length s" and "drop cl c = drop sl s"
    and "nc \<or> common_sep c s branch cd sd" and "nc \<longrightarrow> branch \<notin> set (drop sl s)"
  shows "cl' \<le> cl \<and> sl' \<le> sl \<and> drop cl' c = drop sl' s \<and>
    (cl' = 0 \<or> sl' = 0 \<or> c ! (cl' - 1) \<noteq> s ! (sl' - 1)) \<and>
    (if nc' then nc \<and> cd' = cd \<and> sd' = sd \<and> branch \<notin> set (drop sl' s) else common_sep c s branch cd' sd')"
  using assms
proof (induction c s branch cl sl cd sd nc rule: common_suffix.induct)
  case (1 c s branch cl sl cd sd nc)
  show ?case
  proof (cases "c ! cl = s ! sl")
    case False
    with 1 show ?thesis by auto
  next
    case True
    with "1.prems" have d: "drop cl c = drop sl s"
      by (metis Cons_nth_drop_Suc Suc_le_lessD)
    have n: "set (drop sl s) = insert (s ! sl) (set (drop (Suc sl) s))"
      using "1.prems" by (metis Cons_nth_drop_Suc Suc_le_lessD list.simps(15))
    show ?thesis
    proof (cases "c ! cl = branch")
      case True
      with \<open>c ! cl = s ! sl\<close> d "1.prems" have "common_sep c s branch (int cl) (int sl)"
        by (auto simp: common_sep_def)
      with "1.IH"(1) "1.prems" True \<open>c ! cl = s ! sl\<close> d show ?thesis by (auto split: if_splits)
    next
      case False
      with "1.IH"(2) "1.prems" \<open>c ! cl = s ! sl\<close> d n show ?thesis by (auto split: if_splits)
    qed
  qed
qed auto

text \<open>The last hop, from the common ancestor or one of its descendants down to the server.\<close>

lemma tgs_path_unique: "tgs_path r ps t \<Longrightarrow> tgs_path r ps t' \<Longrightarrow> t = t'"
  by (induction r ps t rule: tgs_path.induct) (auto simp: tgs_path.simps(2) split: list.splits)

lemma tgs_path_append_iff: "tgs_path r ps s \<Longrightarrow> tgs_path r (ps @ qs) t \<longleftrightarrow> tgs_path s qs t"
  by (induction r ps s rule: tgs_path.induct) (auto simp: tgs_path.simps(2) split: list.splits)

lemma walk_down_to_server:
  assumes "Suc n < length s" and "walk_down s branch n prev = (down, prev')"
  shows "tgs_path (drop prev s) (down @ (if final then [krb5_tgtname s (drop prev' s)] else [])) s
    \<longleftrightarrow> final \<or> drop prev' s = s"
proof -
  have "s \<noteq> []" using assms(1) by auto
  then show ?thesis
    using walk_down_path [OF assms(1), of prev branch] assms(2)
    by (simp add: tgs_path_append_iff tgs_path_tgtname)
qed

text \<open>
  The server's realm is the end of the client's, but the cut is inside a component: the
  client \<open>XA.B\<close> and the server \<open>A.B\<close>.
\<close>

definition mid_component_suffix :: "char \<Rightarrow> string \<Rightarrow> string \<Rightarrow> bool" where
  "mid_component_suffix branch c s \<longleftrightarrow> length s < length c \<and> drop (length c - length s) c = s \<and>
     c ! (length c - length s - 1) \<noteq> branch"

lemma common_suffix_mid:
  assumes "drop cl c = s" and "cl \<le> length c"
  shows "mid_component_suffix branch c s \<longleftrightarrow> 0 < cl \<and> c ! (cl - 1) \<noteq> branch"
proof -
  have "length c - length s = cl" using assms by auto
  then show ?thesis using assms by (auto simp: mid_component_suffix_def)
qed

lemma mid_component_suffix_matches:
  assumes "mid_component_suffix branch c s" and "drop cl c = drop sl s" and "cl \<le> length c" and "sl \<le> length s"
    and "sl \<noteq> 0"
  shows "c ! (cl - 1) = s ! (sl - 1)"
proof -
  define k where "k = length c - length s"
  have s: "drop k c = s" and lt: "length s < length c" using assms(1) by (simp_all add: mid_component_suffix_def k_def)
  have "length c - cl = length s - sl" using assms(2) by (metis length_drop)
  with assms(3-) lt have "cl - 1 = k + (sl - 1)" unfolding k_def by linarith
  moreover have "s ! (sl - 1) = c ! (k + (sl - 1))"
    unfolding s [symmetric] using lt assms by (subst nth_drop) (auto simp: k_def)
  ultimately show ?thesis by simp
qed

lemma last_sep_wf:
  assumes "wf_realm branch r"
  shows "(last_sep r branch (int (length r) - 1) = -1 \<and> branch \<notin> set r) \<or>
    (\<exists>d. last_sep r branch (int (length r) - 1) = int d \<and> d < length r \<and> r ! d = branch)"
proof (cases "seps_before r branch (int (length r) - 1)")
  case Nil
  have "branch \<notin> set r"
  proof
    assume "branch \<in> set r"
    then obtain i where "i < length r" "r ! i = branch" by (auto simp: in_set_conv_nth)
    with wf_realm_sep(2) [OF assms this] Nil show False
      by (auto simp: seps_before_def filter_empty_conv)
  qed
  with Nil show ?thesis by (simp add: last_sep_def)
next
  case (Cons a as)
  then have "last (seps_before r branch (int (length r) - 1)) \<in> set (seps_before r branch (int (length r) - 1))"
    by (metis last_in_set list.distinct(1))
  then have "int (last (a # as)) < int (length r) - 1 \<and> r ! last (a # as) = branch"
    unfolding Cons [symmetric] by (auto simp: seps_before_def)
  with Cons show ?thesis by (auto simp: last_sep_def)
qed

lemma hierarchical_path_common:
  assumes wf: "wf_realm branch c" "wf_realm branch s" and sep: "common_sep c s branch cd sd"
    and down: "walk_down s branch (nat (sd - 1)) (nat (sd + 1)) = (down, prev)"
  shows "tgs_path c (walk_up c branch cd 0 0 @ down @
           (if final then [krb5_tgtname s (drop prev s)] else [])) s \<longleftrightarrow> final"
proof -
  obtain i j where ij: "cd = int i" "sd = int j" "i < length c" "j < length s" "c ! i = branch"
      "s ! j = branch" "drop i c = drop j s"
    using sep by (auto simp: common_sep_def)
  have "drop (Suc i) c = drop (Suc j) s" using ij by (metis drop_Suc drop_tl)
  then have up: "tgs_path c (walk_up c branch cd 0 0) (drop (Suc j) s)"
    using walk_up_path [OF wf(1) ij(3,5), of 0 0] ij by simp
  have j: "0 < j" "Suc j < length s" using wf_realm_sep [OF wf(2) ij(4,6)] by auto
  have "prev \<noteq> 0" using walk_down_prev [of "nat (sd + 1)" s branch "nat (sd - 1)"] down ij by simp
  moreover have "length (drop prev s) = length s \<longleftrightarrow> prev = 0" using j by (simp, linarith)
  ultimately have "drop prev s \<noteq> s" by metis
  then show ?thesis
    using walk_down_to_server [of "nat (sd - 1)" s branch "nat (sd + 1)" down prev final] up j ij down
    by (simp add: tgs_path_append_iff nat_add_distrib nat_diff_distrib)
qed

lemma hierarchical_path_nocommon:
  assumes wf: "wf_realm branch c" "wf_realm branch s"
    and cd: "cd = last_sep c branch (int (length c) - 1)" and sd: "sd = last_sep s branch (int (length s) - 1)"
    and down: "walk_down s branch (nat (sd - 1)) (nat (sd + 1)) = (down, prev)"
  shows "tgs_path c (walk_up c branch cd 0 0 @
           krb5_tgtname (drop (nat (sd + 1)) s) (drop (nat (cd + 1)) c) # down @
           (if 0 \<le> sd then [krb5_tgtname s (drop prev s)] else [])) s"
proof -
  have up: "tgs_path c (walk_up c branch cd 0 0) (drop (nat (cd + 1)) c)"
    using last_sep_wf [OF wf(1)] unfolding cd [symmetric]
  proof
    assume "\<exists>d. cd = int d \<and> d < length c \<and> c ! d = branch"
    then obtain d where "cd = int d" "d < length c" "c ! d = branch" by auto
    with walk_up_path [OF wf(1), of d 0 0] show ?thesis by (simp add: nat_add_distrib)
  qed (simp add: walk_up.simps)
  from last_sep_wf [OF wf(2)] consider "sd = -1" | j where "sd = int j" "j < length s" "s ! j = branch"
    unfolding sd [symmetric] by auto
  then have "drop (nat (sd + 1)) s \<noteq> [] \<and>
      tgs_path (drop (nat (sd + 1)) s) (down @ (if 0 \<le> sd then [krb5_tgtname s (drop prev s)] else [])) s"
  proof cases
    case 1
    with down wf(2) show ?thesis by (auto simp: wf_realm_def)
  next
    case 2
    have j: "0 < j" "Suc j < length s" using wf_realm_sep [OF wf(2) 2(2,3)] by auto
    with 2 down walk_down_to_server [of "nat (sd - 1)" s branch "nat (sd + 1)" down prev True] show ?thesis
      by (simp add: nat_add_distrib nat_diff_distrib)
  qed
  with up show ?thesis by (simp add: tgs_path_append_iff tgs_path_tgtname)
qed

lemma hierarchical_path_at_client:
  assumes wf: "wf_realm branch s" and sl: "0 < sl" "sl < length s" "s ! (sl - 1) = branch"
    and down: "walk_down s branch (nat (int (sl - 1) - 1)) (nat (int (sl - 1) + 1)) = (down, prev)"
  shows "tgs_path (drop sl s) (down @ [krb5_tgtname s (drop prev s)]) s"
proof -
  have "0 < sl - 1" by (rule wf_realm_sep(1) [OF wf _ sl(3)]) (use sl in simp)
  with sl down show ?thesis
    using walk_down_to_server [of "sl - 2" s branch sl down prev True]
    by (simp add: nat_diff_distrib' of_nat_diff numeral_2_eq_2)
qed

lemma hierarchical_path_chain:
  assumes wf: "wf_realm branch c" "wf_realm branch s" and ne: "c \<noteq> s"
  shows "\<exists>links ps. hierarchical_path c s branch = Inr (links, krb5_tgtname c c # ps) \<and>
    (tgs_path c ps s \<longleftrightarrow> \<not> (mid_component_suffix branch c s \<and> branch \<in> set s))"
proof -
  obtain cl sl cd sd nc where cs: "common_suffix c s branch (length c) (length s)
      (int (length c) - 1) (int (length s) - 1) True = (cl, sl, cd, sd, nc)"
    by (metis surj_pair)
  note R = common_suffix_result [OF cs, simplified]
  have nz: "\<not> (cl = 0 \<and> sl = 0)"
  proof
    assume "cl = 0 \<and> sl = 0"
    with R ne show False by simp
  qed
  have hd: "c ! 0 \<noteq> branch" using wf(1) by (auto simp: wf_realm_def hd_conv_nth)
  have mid: "mid_component_suffix branch c s \<longleftrightarrow> 0 < cl \<and> c ! (cl - 1) \<noteq> branch" if "sl = 0"
    using R that common_suffix_mid [of cl c s branch] by simp
  have nomid: "\<not> mid_component_suffix branch c s" if "cl = 0"
    using R that by (auto simp: mid_component_suffix_def)
  have midsl: "sl = 0" if "mid_component_suffix branch c s"
    using mid_component_suffix_matches [OF that, of cl sl] nomid that R by auto
  have up0: "walk_up c branch 0 0 0 = []" using hd by (simp add: walk_up.simps)
  obtain down prev where down: "walk_down s branch (nat (sd - 1)) (nat (sd + 1)) = (down, prev)"
    by (metis surj_pair)
  consider (client) "cl = 0" "s ! (sl - 1) = branch" | (server) "sl = 0" "c ! (cl - 1) = branch"
    | (common) "\<not> (cl = 0 \<and> s ! (sl - 1) = branch)" "\<not> (sl = 0 \<and> c ! (cl - 1) = branch)" "\<not> nc"
    | (nocommon) "\<not> (cl = 0 \<and> s ! (sl - 1) = branch)" "\<not> (sl = 0 \<and> c ! (cl - 1) = branch)" nc
    by blast
  then show ?thesis
  proof cases
    case client
    obtain down prev where d: "walk_down s branch (nat (int (sl - 1) - 1)) (nat (int (sl - 1) + 1)) = (down, prev)"
      by (metis surj_pair)
    have "c = drop sl s" "sl < length s" using R client wf(1) by (auto simp: wf_realm_def)
    with hierarchical_path_at_client [OF wf(2) _ _ client(2) d] cs d nz client nomid up0 show ?thesis
      by (simp add: hierarchical_path_def)
  next
    case server
    have "s = drop cl c" "cl - 1 < length c" using R server wf(2) nz by (auto simp: wf_realm_def)
    with walk_up_path [OF wf(1) _ server(2), of 0 0] cs nz server mid show ?thesis
      by (simp add: hierarchical_path_def of_nat_diff)
  next
    case common
    have sep: "common_sep c s branch cd sd" using R common by simp
    then have "0 \<le> sd" "branch \<in> set s" by (auto simp: common_sep_def in_set_conv_nth)
    with hierarchical_path_common [OF wf sep down, of "sl \<noteq> 0"] cs nz common mid midsl down show ?thesis
      by (cases "sl = 0") (auto simp: hierarchical_path_def)
  next
    case nocommon
    then have cd: "cd = int (length c) - 1" "sd = int (length s) - 1" and nb: "branch \<notin> set (drop sl s)"
      using R by auto
    let ?cd = "last_sep c branch cd" and ?sd = "last_sep s branch sd"
    obtain down prev where d: "walk_down s branch (nat (?sd - 1)) (nat (?sd + 1)) = (down, prev)"
      by (metis surj_pair)
    have b0: "branch \<notin> set s" if "sl = 0" using nb that by simp
    have "?sd < 0" if "sl = 0"
      using last_sep_wf [OF wf(2)] b0 [OF that] by (auto simp: cd(2) in_set_conv_nth)
    then have "(sl \<noteq> 0 \<and> 0 \<le> ?sd) = (0 \<le> ?sd)" by linarith
    with hierarchical_path_nocommon [OF wf, of ?cd ?sd down prev] cd d cs nz nocommon midsl b0
    show ?thesis by (auto simp: hierarchical_path_def)
  qed
qed

section \<open>Room for the path\<close>

text \<open>
  The array is allocated with \<open>links + 2\<close> entries, the last of which stays null; every
  principal of the path is stored below it, for any two strings.
\<close>

abbreviation branches :: "string \<Rightarrow> char \<Rightarrow> nat \<Rightarrow> nat \<Rightarrow> nat" where
  "branches r branch i j \<equiv> length (filter (\<lambda>k. r ! k = branch) [i..<j])"

lemma walk_up_length: "length (walk_up c branch cd ccp prev) \<le> branches c branch ccp (nat (cd + 1))"
proof (induction c branch cd ccp prev rule: walk_up.induct)
  case (1 c branch cd ccp prev)
  show ?case
  proof (cases "int ccp \<le> cd")
    case True
    then have u: "[ccp..<nat (cd + 1)] = ccp # [Suc ccp..<nat (cd + 1)]"
      by (intro upt_conv_Cons) linarith
    have "branches c branch (ccp + 2) j \<le> branches c branch (Suc ccp) j" for j
      by (cases "Suc ccp < j") (simp_all add: upt_conv_Cons [of "Suc ccp"])
    from le_trans [OF "1.IH"(2) this] "1.IH"(1) True u show ?thesis
      by (cases "c ! ccp = branch") (simp_all add: walk_up.simps [of c branch cd ccp])
  qed (simp add: walk_up.simps)
qed

lemma walk_down_length: "length (fst (walk_down s branch n prev)) \<le> branches s branch 1 (Suc n)"
proof (induction n arbitrary: prev)
  case (Suc n)
  from Suc.IH [of prev] Suc.IH [of "n + 2"] show ?case by (simp add: case_prod_beta Let_def)
qed simp

lemma seps_before_length:
  assumes "nat d \<le> length r"
  shows "length (seps_before r branch d) = branches r branch 0 (nat d)"
proof -
  have "filter (\<lambda>i. int i < d \<and> r ! i = branch) [0..<length r] =
        filter (\<lambda>i. int i < d \<and> r ! i = branch) ([0..<nat d] @ [nat d..<length r])"
    using upt_add_eq_append [of 0 "nat d" "length r - nat d"] assms by simp
  also have "\<dots> = filter (\<lambda>i. int i < d \<and> r ! i = branch) [0..<nat d]"
    by (auto simp: filter_empty_conv)
  also have "\<dots> = filter (\<lambda>i. r ! i = branch) [0..<nat d]"
    by (rule filter_cong) auto
  finally show ?thesis by (simp add: seps_before_def)
qed

lemma branches_mono: "j \<le> k \<Longrightarrow> branches r branch 0 j \<le> branches r branch 0 k"
  using upt_add_eq_append [of 0 j "k - j"] by simp

lemma walk_up_room:
  assumes "nat d \<le> length c"
  shows "length (walk_up c branch d 0 0) \<le> length (seps_before c branch d) + 1"
proof (cases "0 \<le> d")
  case True
  with walk_up_length [of c branch d 0 0] seps_before_length [OF assms, of branch] show ?thesis
    by (simp add: nat_add_distrib split: if_splits)
qed (simp add: walk_up.simps)

lemma walk_down_room:
  assumes "nat d \<le> length s"
  shows "length (fst (walk_down s branch (nat (d - 1)) p)) \<le> length (seps_before s branch d)"
proof (cases "1 \<le> d")
  case True
  then have "Suc (nat (d - 1)) = nat d" and "[0..<nat d] = 0 # [1..<nat d]"
    by (auto simp: upt_conv_Cons)
  with walk_down_length [of s branch "nat (d - 1)" p] seps_before_length [OF assms, of branch] show ?thesis
    by (simp split: if_splits)
qed simp

lemma last_sep_room:
  fixes r :: string and branch :: char
  defines "d \<equiv> last_sep r branch (int (length r) - 1)"
  shows "length (walk_up r branch d 0 0) \<le> length (seps_before r branch (int (length r) - 1))"
    and "length (fst (walk_down r branch (nat (d - 1)) p)) + (if 0 \<le> d then 1 else 0)
      \<le> length (seps_before r branch (int (length r) - 1))"
proof -
  let ?seps = "seps_before r branch (int (length r) - 1)"
  have "(length (walk_up r branch d 0 0) \<le> length ?seps) \<and>
    length (fst (walk_down r branch (nat (d - 1)) p)) + (if 0 \<le> d then 1 else 0) \<le> length ?seps"
  proof (cases "?seps = []")
    case True
    then show ?thesis by (simp add: d_def last_sep_def walk_up.simps)
  next
    case False
    then have "last ?seps \<in> set ?seps" by simp
    then have i: "int (last ?seps) < int (length r) - 1" "r ! last ?seps = branch"
      by (simp_all add: seps_before_def)
    then have d: "d = int (last ?seps)"
      using False by (auto simp: d_def last_sep_def Let_def split: list.split)
    have "branches r branch 0 (Suc (last ?seps)) \<le> length ?seps"
      using branches_mono [of "Suc (last ?seps)" "nat (int (length r) - 1)" r branch] i
        seps_before_length [of "int (length r) - 1" r branch] by simp
    with walk_up_length [of r branch d 0 0] walk_down_room [of d r branch p] i d
      seps_before_length [of d r branch] show ?thesis
      by (simp add: nat_add_distrib)
  qed
  then show "length (walk_up r branch d 0 0) \<le> length ?seps"
    and "length (fst (walk_down r branch (nat (d - 1)) p)) + (if 0 \<le> d then 1 else 0) \<le> length ?seps"
    by simp_all
qed

lemma hierarchical_path_room:
  "case hierarchical_path c s branch of Inr (links, ps) \<Rightarrow> length ps \<le> links + 1 | Inl _ \<Rightarrow> True"
proof -
  obtain cl sl cd sd nc where cs: "common_suffix c s branch (length c) (length s)
      (int (length c) - 1) (int (length s) - 1) True = (cl, sl, cd, sd, nc)"
    by (metis surj_pair)
  note R = common_suffix_result [OF cs, simplified]
  have b: "nat cd \<le> length c" "nat sd \<le> length s" "nat (int sl - 1) \<le> length s" "nat (int cl - 1) \<le> length c"
    using R by (auto simp: common_sep_def split: if_splits)
  consider (same) "cl = 0" "sl = 0"
    | (client) "cl = 0" "sl \<noteq> 0" "s ! (sl - 1) = branch"
    | (server) "sl = 0" "cl \<noteq> 0" "c ! (cl - 1) = branch"
    | (common) "\<not> (cl = 0 \<and> sl = 0)" "\<not> (cl = 0 \<and> s ! (sl - 1) = branch)" "\<not> (sl = 0 \<and> c ! (cl - 1) = branch)" "\<not> nc"
    | (nocommon) "\<not> (cl = 0 \<and> sl = 0)" "\<not> (cl = 0 \<and> s ! (sl - 1) = branch)" "\<not> (sl = 0 \<and> c ! (cl - 1) = branch)" nc
    by blast
  then show ?thesis
  proof cases
    case same
    then show ?thesis by (simp add: hierarchical_path_def cs)
  next
    case client
    show ?thesis
      unfolding hierarchical_path_def cs prod.case Let_def case_prod_beta
      using walk_up_room [of 0 c branch] walk_down_room [of "int sl - 1" s branch sl] b client by simp
  next
    case server
    show ?thesis
      unfolding hierarchical_path_def cs prod.case Let_def case_prod_beta
      using walk_up_room [of "int cl - 1" c branch] walk_down_room [of 0 s branch 1] b server by simp
  next
    case common
    then show ?thesis
      unfolding hierarchical_path_def cs prod.case Let_def case_prod_beta
      using walk_up_room [OF b(1), of branch] walk_down_room [OF b(2), of branch "nat (sd + 1)"]
      by (cases "cl = 0"; cases "sl = 0"; simp)
  next
    case nocommon
    then have "cd = int (length c) - 1" "sd = int (length s) - 1" using R by auto
    then show ?thesis
      unfolding hierarchical_path_def cs prod.case Let_def case_prod_beta
      using nocommon last_sep_room(1) [of c branch] last_sep_room(2) [of s branch "nat (last_sep s branch sd + 1)"]
      by (cases "cl = 0"; cases "sl = 0"; auto)
  qed
qed

lemma configured_path_length: "length (configured_path r nodes) = length nodes"
  by (induction nodes arbitrary: r) (simp_all add: Let_def)

lemma strcspn_ws_c_str: "strcspn_ws (c_str s) = strcspn_ws s"
  by (simp add: strcspn_ws_def c_str_def)

lemma configured_path_realms:
  "map p_realm (configured_path r (nodes @ [n])) = r # map strcspn_ws nodes"
  by (induction nodes arbitrary: r) (simp_all add: Let_def krb5_tgtname_simps)

lemma configured_path_chain:
  "nodes \<noteq> [] \<Longrightarrow> list_all (\<lambda>n. strcspn_ws n \<noteq> []) nodes \<Longrightarrow>
   tgs_path r (configured_path r nodes) (strcspn_ws (last nodes))"
proof (induction nodes arbitrary: r)
  case (Cons n nodes)
  then show ?case by (cases nodes) (auto simp: Let_def tgs_path_tgtname)
qed simp

text \<open>
  The path \<open>krb5_walk_realm_tree\<close> returns always fits the array of \<open>links + 2\<close> pointers it
  allocates, with the null pointer that ends the list, for all realm names and for every
  configured list of intermediate realms.
\<close>

theorem walk_realm_tree_fits_array:
  "case krb5_walk_realm_tree capaths client server branch of
     Inr (links, ps) \<Rightarrow> length ps < links + 2 | Inl _ \<Rightarrow> True"
  using hierarchical_path_room [of client server branch]
  by (auto simp: krb5_walk_realm_tree_def configured_path_length Let_def split: option.splits sum.splits)

text \<open>
  C33: between two different well-formed realms with no configured path, the first principal is
  the client realm's own ticket-granting service, and the rest is a chain in which each
  ticket is issued by the realm the ticket before it reached.  The chain ends at the server's
  realm exactly when the server's realm is not a multi-component suffix of the client's
  that is cut inside a component; for those realms the last hop is missing.
\<close>

theorem walk_realm_tree_reaches_server:
  assumes "capaths (c_str client) (c_str server) = None"
    and "wf_realm branch client" and "wf_realm branch server" and "client \<noteq> server"
  shows "\<exists>links ps. krb5_walk_realm_tree capaths client server branch = Inr (links, krb5_tgtname client client # ps) \<and>
    (tgs_path client ps server \<longleftrightarrow> \<not> (mid_component_suffix branch client server \<and> branch \<in> set server))"
  using hierarchical_path_chain [OF assms(2-4)] assms(1) by (simp add: krb5_walk_realm_tree_def)

theorem walk_realm_tree_reaches_server_witness:
  "\<exists>links ps. krb5_walk_realm_tree (\<lambda>_ _. None) ''XA.B'' ''A.B'' (CHR ''.'') =
     Inr (links, krb5_tgtname ''XA.B'' ''XA.B'' # ps) \<and> \<not> tgs_path ''XA.B'' ps ''A.B''"
proof -
  have "mid_component_suffix (CHR ''.'') ''XA.B'' ''A.B''" by code_simp
  moreover have "wf_realm (CHR ''.'') ''XA.B'' \<and> wf_realm (CHR ''.'') ''A.B''" by code_simp
  ultimately show ?thesis
    using walk_realm_tree_reaches_server [of "\<lambda>_ _. None" "''XA.B''" "''A.B''" "CHR ''.''"] by auto
qed

text \<open>
  With a configured path whose realm names are not empty, the chain goes through the
  configured realms in order and ends at the server's realm as far as its first blank.
\<close>

theorem walk_realm_tree_configured:
  assumes "capaths (c_str client) (c_str server) = Some nodes"
    and "list_all (\<lambda>n. strcspn_ws n \<noteq> []) nodes" and "strcspn_ws server \<noteq> []"
  shows "\<exists>links ps. krb5_walk_realm_tree capaths client server branch = Inr (links, krb5_tgtname client client # ps) \<and>
    tgs_path client ps (strcspn_ws server) \<and> map p_realm ps = client # map strcspn_ws (cap_links nodes)"
proof -
  have "list_all (\<lambda>n. strcspn_ws n \<noteq> []) (cap_links nodes @ [c_str server])"
    using assms by (auto simp: cap_links_def strcspn_ws_c_str split: list.splits)
  from configured_path_chain [OF _ this, of client] assms(1) show ?thesis
    by (simp add: krb5_walk_realm_tree_def configured_path_realms strcspn_ws_c_str)
qed

theorem walk_realm_tree_configured_witness:
  "\<exists>links ps. krb5_walk_realm_tree (\<lambda>_ _. Some [''M.ORG  '']) ''A.B'' ''C.D'' (CHR ''.'') =
     Inr (links, krb5_tgtname ''A.B'' ''A.B'' # ps) \<and> tgs_path ''A.B'' ps ''C.D'' \<and>
     map p_realm ps = [''A.B'', ''M.ORG'']"
proof -
  have "strcspn_ws ''C.D'' = ''C.D''" "strcspn_ws ''M.ORG  '' = ''M.ORG''" by code_simp+
  then show ?thesis
    using walk_realm_tree_configured [of "\<lambda>_ _. Some [''M.ORG  '']" "''A.B''" "''C.D''" "[''M.ORG  '']" "CHR ''.''"]
    by (simp add: cap_links_def)
qed

section \<open>The transited field of a ticket\<close>

text \<open>
  \<open>krb5_check_transited_list\<close> scans the field one character at a time.  The arrays \<open>prev\<close>
  and \<open>next\<close> have their full size, \<open>nextp\<close> is the offset of the write pointer in \<open>next\<close>,
  and the argument list holds the characters not yet read, so that a test of the C code on
  the character after the current one is a test on the head of the rest.
\<close>

definition MAX_REALM_LN :: nat where
  "MAX_REALM_LN = 500"

definition zero_buf :: string where
  "zero_buf = replicate (MAX_REALM_LN + 1) NUL"

definition strncat_buf :: "string \<Rightarrow> string \<Rightarrow> nat \<Rightarrow> string" where
  "strncat_buf dst src n =
     (let w = take n (c_str src) @ [NUL]; k = length (c_str dst)
      in take k dst @ w @ drop (k + length w) dst)"

definition strncpy_buf :: "string \<Rightarrow> string \<Rightarrow> nat \<Rightarrow> string" where
  "strncpy_buf dst src n =
     (let w = take n (c_str src) in w @ replicate (n - length w) NUL @ drop n dst)"

fun check_trans_loop :: "string list \<Rightarrow> string \<Rightarrow> string \<Rightarrow> string \<Rightarrow> nat \<Rightarrow> krb5_error_code" where
  "check_trans_loop realms [] prev nxt nextp = 0"
| "check_trans_loop realms (c # cs) prev nxt nextp =
     (if cs \<noteq> [] \<and> c = CHR 0x5C then
        (if nextp + 1 \<ge> MAX_REALM_LN + 1 then KRB5KRB_AP_ERR_ILL_CR_TKT
         else check_trans_loop realms (tl cs) prev (nxt[nextp := hd cs]) (nextp + 1))
      else if c \<noteq> CHR '','' then
        (if nextp + 1 \<ge> MAX_REALM_LN + 1 then KRB5KRB_AP_ERR_ILL_CR_TKT
         else check_trans_loop realms cs prev (nxt[nextp := c]) (nextp + 1))
      else
        let nxt = nxt[MAX_REALM_LN := NUL]
        in if strlen nxt > 0 then
             (let nxt = (if nxt ! 0 \<noteq> CHR ''/'' \<and> nxt ! (nextp - 1) = CHR ''.'' \<and>
                            strlen nxt + strlen prev \<le> MAX_REALM_LN
                         then strncat_buf nxt prev (MAX_REALM_LN - strlen nxt) else nxt)
              in if nxt ! 0 \<noteq> CHR ''/'' \<and> c_str nxt \<notin> set realms then KRB5KRB_AP_ERR_ILL_CR_TKT
                 else if cs \<noteq> [] \<and> hd cs = CHR '' '' then check_trans_loop realms (tl cs) prev zero_buf 0
                 else if cs \<noteq> [] \<and> hd cs \<noteq> CHR ''/'' then
                   check_trans_loop realms cs (strncpy_buf prev nxt MAX_REALM_LN) zero_buf 0
                 else check_trans_loop realms cs prev nxt nextp)
           else check_trans_loop realms cs prev nxt nextp)"

definition krb5_check_transited_list ::
  "(string \<Rightarrow> string \<Rightarrow> string list option) \<Rightarrow> string option \<Rightarrow> string \<Rightarrow> string \<Rightarrow> krb5_error_code" where
  "krb5_check_transited_list capaths transited realm1 realm2 =
     (case transited of
        None \<Rightarrow> 0
      | Some tr \<Rightarrow>
          if tr = [] then 0
          else let t = (if last tr \<noteq> NUL then tr else butlast tr)
               in if NUL \<in> set t then KRB5KRB_AP_ERR_ILL_CR_TKT
                  else (case krb5_walk_realm_tree capaths realm1 realm2 (CHR ''.'') of
                      Inl retval \<Rightarrow> retval
                    | Inr (_, tgs_list) \<Rightarrow> check_trans_loop (map p_realm tgs_list) t zero_buf zero_buf 0))"

text \<open>
  A domain-style realm name in the uncompressed form: no character with a meaning in the
  transited encoding, no X.500 name, no trailing dot, and room for it in the arrays.
\<close>

definition plain_char :: "char \<Rightarrow> bool" where
  "plain_char c \<longleftrightarrow> c \<noteq> NUL \<and> c \<noteq> CHR '','' \<and> c \<noteq> CHR 0x5C"

definition plain_realm :: "string \<Rightarrow> bool" where
  "plain_realm r \<longleftrightarrow> r \<noteq> [] \<and> hd r \<noteq> CHR ''/'' \<and> hd r \<noteq> CHR '' '' \<and> last r \<noteq> CHR ''.'' \<and>
     length r \<le> MAX_REALM_LN \<and> list_all plain_char r"

fun join_realms :: "string list \<Rightarrow> string" where
  "join_realms [] = []"
| "join_realms [r] = r"
| "join_realms (r # rs) = r @ CHR '','' # join_realms rs"

definition pad_buf :: "string \<Rightarrow> string" where
  "pad_buf x = x @ replicate (MAX_REALM_LN + 1 - length x) NUL"

lemma pad_buf_Nil: "pad_buf [] = zero_buf"
  by (simp add: pad_buf_def zero_buf_def)

lemma pad_buf_store: "length x < MAX_REALM_LN + 1 \<Longrightarrow> (pad_buf x)[length x := c] = pad_buf (x @ [c])"
  by (simp add: pad_buf_def list_update_append Suc_diff_le)

lemma pad_buf_terminated: "length x \<le> MAX_REALM_LN \<Longrightarrow> (pad_buf x)[MAX_REALM_LN := NUL] = pad_buf x"
  by (rule nth_equalityI) (auto simp: pad_buf_def nth_append nth_list_update)

lemma c_str_pad_buf: "length x \<le> MAX_REALM_LN \<Longrightarrow> NUL \<notin> set x \<Longrightarrow> c_str (pad_buf x) = x"
  using c_str_terminated [of x "replicate (MAX_REALM_LN - length x) NUL"]
  by (simp add: pad_buf_def Suc_diff_le)

lemma plain_realm_NUL: "plain_realm r \<Longrightarrow> NUL \<notin> set r"
  by (auto simp: plain_realm_def plain_char_def list_all_iff)

lemma check_trans_loop_scan:
  "list_all plain_char r \<Longrightarrow> length x + length r \<le> MAX_REALM_LN \<Longrightarrow>
   check_trans_loop R (r @ rest) prev (pad_buf x) (length x) =
   check_trans_loop R rest prev (pad_buf (x @ r)) (length (x @ r))"
proof (induction r arbitrary: x)
  case (Cons c r)
  then have "\<not> MAX_REALM_LN + 1 \<le> length x + 1" "c \<noteq> CHR '',''" "c \<noteq> CHR 0x5C"
    by (auto simp: plain_char_def)
  with Cons.prems Cons.IH [of "x @ [c]"] pad_buf_store [of x c] show ?case by simp
qed simp

lemma check_trans_loop_comma:
  assumes "plain_realm r" and "cs \<noteq> []" and "hd cs \<noteq> CHR '' ''" and "hd cs \<noteq> CHR ''/''"
  shows "check_trans_loop R (CHR '','' # cs) prev (pad_buf r) (length r) =
    (if r \<in> set R then check_trans_loop R cs (strncpy_buf prev (pad_buf r) MAX_REALM_LN) zero_buf 0
     else KRB5KRB_AP_ERR_ILL_CR_TKT)"
proof -
  have r: "length r \<le> MAX_REALM_LN" "NUL \<notin> set r" "r \<noteq> []" "last r \<noteq> CHR ''.''" "hd r \<noteq> CHR ''/''"
    using assms(1) plain_realm_NUL by (auto simp: plain_realm_def)
  have "pad_buf r ! (length r - 1) = last r" "pad_buf r ! 0 = hd r"
    using r(3) by (auto simp: pad_buf_def nth_append last_conv_nth hd_conv_nth)
  with r assms show ?thesis
    by (simp add: pad_buf_terminated strlen_def c_str_pad_buf)
qed

lemma hd_join_realms: "r \<noteq> [] \<Longrightarrow> join_realms (r # rs) \<noteq> [] \<and> hd (join_realms (r # rs)) = hd r"
  by (cases rs) auto

lemma check_trans_loop_realms:
  "rs \<noteq> [] \<Longrightarrow> list_all plain_realm rs \<Longrightarrow>
   check_trans_loop R (join_realms rs) prev zero_buf 0 =
     (if set (butlast rs) \<subseteq> set R then 0 else KRB5KRB_AP_ERR_ILL_CR_TKT)"
proof (induction rs arbitrary: prev rule: join_realms.induct)
  case (2 r)
  then show ?case
    using check_trans_loop_scan [of r "[]" R "[]" prev] by (simp add: pad_buf_Nil plain_realm_def)
next
  case (3 r r' rs)
  let ?cs = "join_realms (r' # rs)"
  have plain: "plain_realm r" "plain_realm r'" using "3.prems" by auto
  then have "?cs \<noteq> []" "hd ?cs \<noteq> CHR '' ''" "hd ?cs \<noteq> CHR ''/''"
    using hd_join_realms [of r' rs] by (auto simp: plain_realm_def)
  note comma = check_trans_loop_comma [OF plain(1) this, of R prev]
  have "check_trans_loop R (join_realms (r # r' # rs)) prev zero_buf 0 =
      check_trans_loop R (CHR '','' # ?cs) prev (pad_buf r) (length r)"
    using check_trans_loop_scan [of r "[]" R "CHR '','' # ?cs" prev] plain by (simp add: pad_buf_Nil plain_realm_def)
  with comma "3.IH" "3.prems" show ?case by simp
qed simp

text \<open>
  C34: on a transited field that lists domain-style realms separated by commas, the check
  answers whether every realm but the last is the realm of a ticket on the path between the
  two realms; the last realm of the list is not looked at.
\<close>

theorem check_transited_list_result:
  assumes "rs \<noteq> []" and "list_all plain_realm rs"
  shows "krb5_check_transited_list capaths (Some (join_realms rs)) realm1 realm2 =
    (case krb5_walk_realm_tree capaths realm1 realm2 (CHR ''.'') of
       Inl retval \<Rightarrow> retval
     | Inr (_, tgs_list) \<Rightarrow>
         if set (butlast rs) \<subseteq> p_realm ` set tgs_list then 0 else KRB5KRB_AP_ERR_ILL_CR_TKT)"
proof -
  have NUL: "NUL \<notin> set (join_realms rs)"
    using assms(2) by (induction rs rule: join_realms.induct) (auto simp: plain_realm_NUL [unfolded NUL_def] NUL_def)
  moreover have "join_realms rs \<noteq> []"
    using assms hd_join_realms by (cases rs) (auto simp: plain_realm_def)
  moreover from this NUL have "last (join_realms rs) \<noteq> NUL" using last_in_set by force
  ultimately show ?thesis
    using check_trans_loop_realms [OF assms]
    by (simp add: krb5_check_transited_list_def split: sum.split)
qed

theorem check_transited_list_result_witness:
  "krb5_check_transited_list (\<lambda>_ _. None) (Some ''EVIL.ORG'') ''A.COM'' ''B.COM'' = 0 \<and>
   krb5_check_transited_list (\<lambda>_ _. None) (Some ''EVIL.ORG,COM'') ''A.COM'' ''B.COM'' = KRB5KRB_AP_ERR_ILL_CR_TKT"
proof -
  have p: "plain_realm ''EVIL.ORG''" "plain_realm ''COM''" by code_simp+
  have w: "krb5_walk_realm_tree (\<lambda>_ _. None) ''A.COM'' ''B.COM'' (CHR ''.'') =
      Inr (2, [krb5_tgtname ''A.COM'' ''A.COM'', krb5_tgtname ''COM'' ''A.COM'', krb5_tgtname ''B.COM'' ''COM''])"
    by code_simp
  show ?thesis
    using check_transited_list_result [of "[''EVIL.ORG'']" "\<lambda>_ _. None" "''A.COM''" "''B.COM''"]
      check_transited_list_result [of "[''EVIL.ORG'', ''COM'']" "\<lambda>_ _. None" "''A.COM''" "''B.COM''"] p w
    by (simp add: krb5_tgtname_simps)
qed

end
