(* ===== verification/Kdc_Transited.thy ===== *)
theory Kdc_Transited
  imports Krb5_Realm
begin

text \<open>
  The transited field of a ticket issued by the KDC: \<open>subrealm\<close> and \<open>add_to_transited\<close> of
  \<open>kdc/kdc_util.c\<close>.  A C string in one of the arrays is the list of its characters up to the
  NUL; the length checks of the code are kept.  The output string \<open>trans\<close> is modelled
  without a bound, so that the size it needs can be compared with the size allocated for it.
\<close>

section \<open>Subrealms\<close>

definition starts_slash :: "string \<Rightarrow> bool" where
  "starts_slash r \<longleftrightarrow> r \<noteq> [] \<and> hd r = CHR ''/''"

definition subrealm :: "string \<Rightarrow> string \<Rightarrow> int" where
  "subrealm r1 r2 =
     (let l1 = length r1; l2 = length r2
      in if l2 \<le> l1 then 0
         else if starts_slash r1 \<and> starts_slash r2 \<and> take l1 r2 = r1 then int l1 - int l2
         else if \<not> starts_slash r1 \<and> \<not> starts_slash r2 \<and> drop (l2 - l1) r2 = r1 then int l2 - int l1
         else 0)"

section \<open>Adding a realm\<close>

text \<open>
  The loop that reads one field.  A backslash is skipped and the character after it is then
  looked at as if it stood alone.
\<close>

abbreviation KDC_MAX_REALM_LN :: nat where
  "KDC_MAX_REALM_LN \<equiv> 500"

fun read_field :: "string \<Rightarrow> string \<Rightarrow> (string \<times> string) krb5_result" where
  "read_field field [] = Inr (field, [])"
| "read_field field (c # otrans) =
     (if c = CHR 0x5C then (if otrans = [] then Inr (field, []) else read_field field otrans)
      else if c = CHR '','' then Inr (field, otrans)
      else if length field + 1 \<ge> KDC_MAX_REALM_LN then Inl KRB5KRB_AP_ERR_ILL_CR_TKT
      else read_field (field @ [c]) otrans)"

text \<open>The expanded form of the current field, relative to the realm before it.\<close>

definition expand_current :: "string \<Rightarrow> string \<Rightarrow> string krb5_result" where
  "expand_current prev current =
     (if hd current = CHR '' '' then Inr (tl current)
      else if starts_slash current \<and> starts_slash prev then
        (if length prev + length current + 1 \<ge> KDC_MAX_REALM_LN then Inl KRB5KRB_AP_ERR_ILL_CR_TKT
         else Inr (prev @ current))
      else if last current = CHR ''.'' then
        (if length current + length prev + 1 \<ge> KDC_MAX_REALM_LN then Inl KRB5KRB_AP_ERR_ILL_CR_TKT
         else Inr (current @ prev))
      else Inr current)"

text \<open>What is left of a realm after the part it shares with the realm it is compressed against.\<close>

definition compressed :: "int \<Rightarrow> string \<Rightarrow> string" where
  "compressed pl realm =
     (if pl > 0 then take (nat pl) realm else drop (nat (int (length realm) + pl)) realm)"

text \<open>
  The insertion next to the current field.  With no next field \<open>nlst\<close> is -1 and the code
  reads the byte in front of the array \<open>next\<close>, whatever it is: the argument \<open>below\<close>.
\<close>

definition insert_realm :: "char \<Rightarrow> string \<Rightarrow> string \<Rightarrow> string \<Rightarrow> string \<Rightarrow> string \<Rightarrow> (string \<times> bool) krb5_result" where
  "insert_realm below realm prev expd current nxt =
     (let nlast = (if nxt = [] then below else last nxt); pl = subrealm expd realm
      in if nlast \<noteq> CHR ''.'' \<and> \<not> starts_slash nxt \<and> pl \<noteq> 0 then
           (if length current + nat \<bar>pl\<bar> + 2 \<ge> KDC_MAX_REALM_LN then Inl KRB5KRB_AP_ERR_ILL_CR_TKT
            else Inr (current @ '','' @ compressed pl realm, True))
         else let pl = subrealm realm expd
         in if pl \<noteq> 0 then
              bindE (let pl1 = subrealm prev realm
                     in if pl1 \<noteq> 0 then
                          (if nat \<bar>pl1\<bar> + 1 \<ge> KDC_MAX_REALM_LN then Inl KRB5KRB_AP_ERR_ILL_CR_TKT
                           else Inr (compressed pl1 realm))
                        else let space = (if starts_slash realm \<and> prev \<noteq> [] then '' '' else [])
                             in if length space + length realm + 1 \<ge> KDC_MAX_REALM_LN
                                then Inl KRB5KRB_AP_ERR_ILL_CR_TKT
                                else Inr (space @ realm))
                (\<lambda>current. if length current + nat \<bar>pl\<bar> + 2 \<ge> KDC_MAX_REALM_LN then Inl KRB5KRB_AP_ERR_ILL_CR_TKT
                           else Inr (current @ '','' @ compressed pl expd, True))
            else Inr (current, False))"

text \<open>
  One field and what follows it is appended to \<open>trans\<close>; the second component of the state is
  \<open>new_trans->length\<close>.
\<close>

definition append_field :: "string \<Rightarrow> nat \<Rightarrow> string \<Rightarrow> string \<times> string krb5_result" where
  "append_field trns newlen current =
     (if newlen \<noteq> 0 \<and> length trns + 2 \<ge> KDC_MAX_REALM_LN then (trns, Inl KRB5KRB_AP_ERR_ILL_CR_TKT)
      else let trns = (if newlen \<noteq> 0 then trns @ '','' else trns)
           in if length trns + length current + 1 \<ge> KDC_MAX_REALM_LN then (trns, Inl KRB5KRB_AP_ERR_ILL_CR_TKT)
              else (trns @ current, Inr (trns @ current)))"

lemma read_field_length:
  "read_field field otrans = Inr (f, rest) \<Longrightarrow>
   length rest \<le> length otrans \<and> length f + length rest \<le> length field + length otrans \<and>
   (rest \<noteq> [] \<longrightarrow> length f + length rest < length field + length otrans)"
  by (induction field otrans rule: read_field.induct) (fastforce split: if_splits)+

lemma read_field_measure:
  "read_field [] otrans = Inr (nxt, rest) \<Longrightarrow> current \<noteq> [] \<Longrightarrow>
   length rest + (if nxt = [] then 0 else 1) < length otrans + (if current = [] then 0 else (1::nat))"
  using read_field_length [of "[]" otrans nxt rest] by (cases nxt) auto

text \<open>
  The main loop and the end of the function.  The result is the return value, the string
  \<open>trans\<close> and \<open>new_trans->length\<close>.
\<close>

definition finish_trans :: "string \<Rightarrow> bool \<Rightarrow> string \<Rightarrow> nat \<Rightarrow> krb5_error_code \<times> string \<times> nat" where
  "finish_trans realm added trns newlen =
     (if added then (0, trns, newlen)
      else if newlen \<noteq> 0 \<and> length trns + 2 \<ge> KDC_MAX_REALM_LN then (KRB5KRB_AP_ERR_ILL_CR_TKT, trns, newlen)
      else let trns = (if newlen \<noteq> 0 then trns @ '','' else trns)
      in if starts_slash realm \<and> trns \<noteq> [] \<and> length trns + 2 \<ge> KDC_MAX_REALM_LN
         then (KRB5KRB_AP_ERR_ILL_CR_TKT, trns, newlen)
         else let trns = (if starts_slash realm \<and> trns \<noteq> [] then trns @ '' '' else trns)
         in if length trns + length realm + 1 \<ge> KDC_MAX_REALM_LN then (KRB5KRB_AP_ERR_ILL_CR_TKT, trns, newlen)
            else (0, trns @ realm, length (trns @ realm) + 1))"

function trans_loop :: "char \<Rightarrow> string \<Rightarrow> string \<Rightarrow> string \<Rightarrow> string \<Rightarrow> bool \<Rightarrow> string \<Rightarrow> nat \<Rightarrow>
    krb5_error_code \<times> string \<times> nat" where
  "trans_loop below realm otrans prev current added trns newlen =
     (if current = [] then finish_trans realm added trns newlen
      else case expand_current prev current of
        Inl retval \<Rightarrow> (retval, trns, newlen)
      | Inr expd \<Rightarrow>
          (case read_field [] otrans of
             Inl retval \<Rightarrow> (retval, trns, newlen)
           | Inr (nxt, rest) \<Rightarrow>
               (case (if added \<or> expd = realm then Inr (current, True)
                      else insert_realm below realm prev expd current nxt) of
                  Inl retval \<Rightarrow> (retval, trns, newlen)
                | Inr (current, added) \<Rightarrow>
                    (case append_field trns newlen current of
                       (trns, Inl retval) \<Rightarrow> (retval, trns, newlen)
                     | (_, Inr trns) \<Rightarrow>
                         trans_loop below realm rest expd nxt added trns (length trns + 1)))))"
  by pat_completeness auto
termination
  by (relation "measure (\<lambda>(below, realm, otrans, prev, current, added, trns, newlen).
      length otrans + (if current = [] then 0 else 1))")
    (auto dest: read_field_measure)

declare trans_loop.simps [simp del]

text \<open>
  \<open>add_to_transited\<close>: the realm added is that of \<open>tgs\<close>; nothing is added when it is the realm
  of the client or of the server.  \<open>trans_alloc\<close> is the size of the array that is allocated.
\<close>

definition add_to_transited ::
  "char \<Rightarrow> string \<Rightarrow> krb5_principal \<Rightarrow> krb5_principal \<Rightarrow> krb5_principal \<Rightarrow> krb5_error_code \<times> string \<times> nat" where
  "add_to_transited below tgt_trans tgs client server =
     (let realm = c_str (p_realm tgs); otrans = c_str tgt_trans
      in case read_field [] otrans of
           Inl retval \<Rightarrow> (retval, [], 0)
         | Inr (current, otrans) \<Rightarrow>
             trans_loop below realm otrans [] current
               (p_realm client = realm \<or> p_realm server = realm) [] 0)"

definition trans_alloc :: "string \<Rightarrow> krb5_principal \<Rightarrow> nat" where
  "trans_alloc tgt_trans tgs = strlen (c_str (p_realm tgs)) + strlen (c_str tgt_trans) + 3"

section \<open>Room for the new field\<close>

lemma subrealm_domain:
  assumes "\<not> starts_slash r2"
  shows "subrealm r1 r2 = (if \<not> starts_slash r1 \<and> length r1 < length r2 \<and> drop (length r2 - length r1) r2 = r1
    then int (length r2) - int (length r1) else 0)"
  using assms by (auto simp: subrealm_def Let_def)

lemma subrealm_domainD:
  assumes "subrealm r1 r2 \<noteq> 0" and "\<not> starts_slash r2"
  obtains x where "r2 = x @ r1" and "x \<noteq> []" and "subrealm r1 r2 = int (length x)"
proof -
  have *: "\<not> starts_slash r1" "length r1 < length r2" "drop (length r2 - length r1) r2 = r1"
    using assms by (auto simp: subrealm_domain split: if_splits)
  show thesis
  proof (rule that)
    show "r2 = take (length r2 - length r1) r2 @ r1"
      using * by (metis append_take_drop_id)
    show "take (length r2 - length r1) r2 \<noteq> []" using * by auto
    show "subrealm r1 r2 = int (length (take (length r2 - length r1) r2))"
      using * assms(2) by (simp add: subrealm_domain of_nat_diff)
  qed
qed

lemma subrealm_suffix:
  "\<not> starts_slash (x @ r) \<Longrightarrow> \<not> starts_slash r \<Longrightarrow> x \<noteq> [] \<Longrightarrow> subrealm r (x @ r) = int (length x)"
  by (simp add: subrealm_domain)

lemma compressed_prefix: "x \<noteq> [] \<Longrightarrow> compressed (int (length x)) (x @ r) = x"
  by (simp add: compressed_def)

lemma no_slash: "CHR ''/'' \<notin> set r \<Longrightarrow> \<not> starts_slash r"
  by (cases r) (auto simp: starts_slash_def)

lemma compressed_length: "length (compressed pl r) \<le> length r"
  by (simp add: compressed_def)

text \<open>
  A realm that was passed without being added is no suffix of the realm before the current
  one.  If it is a suffix of the current one all the same, it extends the one before.
\<close>

definition passed :: "string \<Rightarrow> string \<Rightarrow> bool" where
  "passed realm prev \<longleftrightarrow> prev = [] \<or> (realm \<noteq> prev \<and> subrealm realm prev = 0)"

lemma passed_suffix:
  assumes "passed realm prev" and "prev \<noteq> []" and "current @ prev = x @ realm"
    and "\<not> starts_slash realm" and "\<not> starts_slash prev"
  obtains y where "realm = y @ prev" and "y \<noteq> []" and "current = x @ y"
proof -
  from assms(3) obtain us where "current = x @ us \<and> us @ prev = realm \<or> current @ us = x \<and> prev = us @ realm"
    by (auto simp: append_eq_append_conv2)
  moreover have "us = []" if "prev = us @ realm"
    using that assms subrealm_suffix [of us realm] by (auto simp: passed_def)
  ultimately show thesis
    using that [of us] assms by (cases "us = []") (auto simp: passed_def)
qed

lemma insert_realm_cases:
  assumes "insert_realm below realm prev expd current nxt = Inr (current', added)"
  obtains (after) "subrealm expd realm \<noteq> 0" "added" "current' = current @ '','' @ compressed (subrealm expd realm) realm"
      "(if nxt = [] then below else last nxt) \<noteq> CHR ''.''"
    | (none) "subrealm realm expd = 0" "\<not> added" "current' = current"
    | (before) c where "subrealm realm expd \<noteq> 0" "added" "current' = c @ '','' @ compressed (subrealm realm expd) expd"
        "c = (if subrealm prev realm \<noteq> 0 then compressed (subrealm prev realm) realm
              else (if starts_slash realm \<and> prev \<noteq> [] then '' '' else []) @ realm)"
  using assms by (auto simp: insert_realm_def Let_def bindE_def split: if_splits sum.splits)

lemma insert_realm_growth:
  assumes "CHR ''/'' \<notin> set current" and "CHR ''/'' \<notin> set prev" and "current \<noteq> []"
    and "expand_current prev current = Inr expd" and "passed realm prev"
    and "insert_realm below realm prev expd current nxt = Inr (current', added)"
  shows "if added then length current' \<le> length current + length realm + 2
    else current' = current \<and> subrealm realm expd = 0"
proof -
  have "set expd \<subseteq> set current \<union> set prev"
    using assms(3,4) by (auto simp: expand_current_def split: if_splits dest: list.set_sel(2))
  then have ns: "\<not> starts_slash current" "\<not> starts_slash prev" "\<not> starts_slash expd"
    using assms(1,2) by (auto intro!: no_slash)
  from assms(6) show ?thesis
  proof (cases rule: insert_realm_cases)
    case after
    then show ?thesis
      using compressed_length [of "subrealm expd realm" realm] by simp
  next
    case none
    then show ?thesis by simp
  next
    case (before c)
    obtain x where x: "expd = x @ realm" "x \<noteq> []" "subrealm realm expd = int (length x)"
      using subrealm_domainD [OF before(1) ns(3)] .
    then have nr: "\<not> starts_slash realm" using before(1) ns(3) by (auto simp: subrealm_domain split: if_splits)
    have c: "length c \<le> length realm" using before(4) nr by (simp add: compressed_length)
    show ?thesis
    proof (cases "length expd \<le> length current")
      case True
      with before x c show ?thesis by (simp add: compressed_prefix)
    next
      case False
      then have "expd \<noteq> tl current" by auto
      with False have "prev \<noteq> []" "current @ prev = x @ realm"
        using assms(4) ns x(1) by (auto simp: expand_current_def split: if_splits)
      then obtain y where "realm = y @ prev" "y \<noteq> []" "current = x @ y"
        using passed_suffix [OF assms(5) _ _ nr ns(2)] by metis
      with before x c nr ns subrealm_suffix [of y prev] show ?thesis
        by (simp add: compressed_prefix)
    qed
  qed
qed

text \<open>
  The bound the loop keeps on what has been written and what is still to be read; one
  addition costs the realm, a comma and a blank.
\<close>

definition trans_bound :: "string \<Rightarrow> string \<Rightarrow> bool \<Rightarrow> string \<Rightarrow> nat \<Rightarrow> string \<Rightarrow> nat \<Rightarrow> bool" where
  "trans_bound otrans current added trns newlen realm n \<longleftrightarrow>
     length trns + (if current = [] then 0 else
       (if newlen = 0 then 0 else 1) + length current + (if otrans = [] then 0 else Suc (length otrans)))
     \<le> n + (if added then length realm + 2 else 0)"

lemma finish_trans_room:
  "finish_trans realm added trns newlen = (ret, trns', len') \<Longrightarrow>
   length trns \<le> n + (if added then length realm + 2 else 0) \<Longrightarrow> length trns' \<le> n + length realm + 2"
  by (auto simp: finish_trans_def Let_def split: if_splits)

lemma append_field_room:
  "append_field trns newlen current = (t, r) \<Longrightarrow>
   length t \<le> length trns + (if newlen = 0 then 0 else 1) + length current \<and>
   (case r of Inr t' \<Rightarrow> t' = t | Inl e \<Rightarrow> e = KRB5KRB_AP_ERR_ILL_CR_TKT)"
  by (auto simp: append_field_def Let_def split: if_splits)

lemma read_field_set: "read_field field otrans = Inr (f, rest) \<Longrightarrow> set f \<union> set rest \<subseteq> set field \<union> set otrans"
  by (induction field otrans rule: read_field.induct) (fastforce split: if_splits)+

text \<open>The three ways an iteration ends.\<close>

lemma read_field_error: "read_field field otrans = Inl e \<Longrightarrow> e = KRB5KRB_AP_ERR_ILL_CR_TKT"
  by (induction field otrans rule: read_field.induct) (auto split: if_splits)

lemma expand_current_error: "expand_current prev current = Inl e \<Longrightarrow> e = KRB5KRB_AP_ERR_ILL_CR_TKT"
  by (auto simp: expand_current_def split: if_splits)

lemma insert_realm_error:
  "insert_realm below realm prev expd current nxt = Inl e \<Longrightarrow> e = KRB5KRB_AP_ERR_ILL_CR_TKT"
  by (auto simp: insert_realm_def Let_def bindE_def split: if_splits sum.splits)

lemma trans_loop_step:
  assumes "current \<noteq> []"
  obtains (error) "trans_loop below realm otrans prev current added trns newlen =
        (KRB5KRB_AP_ERR_ILL_CR_TKT, trns, newlen)"
  | (field) expd nxt rest current' added' t r where
      "expand_current prev current = Inr expd" "read_field [] otrans = Inr (nxt, rest)"
      "(if added \<or> expd = realm then Inr (current, True)
        else insert_realm below realm prev expd current nxt) = Inr (current', added')"
      "append_field trns newlen current' = (t, r)"
      "trans_loop below realm otrans prev current added trns newlen =
        (case r of Inl _ \<Rightarrow> (KRB5KRB_AP_ERR_ILL_CR_TKT, t, newlen)
         | Inr _ \<Rightarrow> trans_loop below realm rest expd nxt added' t (length t + 1))"
proof (cases "expand_current prev current")
  case (Inl e)
  then show thesis using error assms expand_current_error [OF Inl]
    by (simp add: trans_loop.simps [of below realm otrans])
next
  case exp: (Inr expd)
  show thesis
  proof (cases "read_field [] otrans")
    case (Inl e)
    then show thesis using error assms exp read_field_error [OF Inl]
      by (simp add: trans_loop.simps [of below realm otrans])
  next
    case (Inr nr)
    obtain nxt rest where rd: "read_field [] otrans = Inr (nxt, rest)" using Inr by (cases nr) auto
    let ?ins = "if added \<or> expd = realm then Inr (current, True)
                else insert_realm below realm prev expd current nxt"
    show thesis
    proof (cases "?ins")
      case (Inl e)
      then have "e = KRB5KRB_AP_ERR_ILL_CR_TKT" using insert_realm_error by (auto split: if_splits)
      with Inl show thesis using error assms exp rd by (simp add: trans_loop.simps [of below realm otrans])
    next
      case (Inr ca)
      then obtain current' added' where ins: "?ins = Inr (current', added')" by (cases ca) auto
      obtain t r where app: "append_field trns newlen current' = (t, r)" by fastforce
      show thesis
      proof (rule field [OF exp rd ins app])
        show "trans_loop below realm otrans prev current added trns newlen =
          (case r of Inl _ \<Rightarrow> (KRB5KRB_AP_ERR_ILL_CR_TKT, t, newlen)
           | Inr _ \<Rightarrow> trans_loop below realm rest expd nxt added' t (length t + 1))"
          using assms exp rd ins app append_field_room [OF app]
          by (simp add: trans_loop.simps [of below realm otrans] split: sum.splits)
      qed
    qed
  qed
qed

lemma expand_current_set:
  "current \<noteq> [] \<Longrightarrow> expand_current prev current = Inr expd \<Longrightarrow> set expd \<subseteq> set current \<union> set prev"
  by (auto simp: expand_current_def split: if_splits dest: list.set_sel(2))

lemma trans_loop_room:
  assumes "CHR ''/'' \<notin> set otrans \<union> set prev \<union> set current" and "added \<or> passed realm prev"
    and "trans_bound otrans current added trns newlen realm n"
  shows "length (fst (snd (trans_loop below realm otrans prev current added trns newlen))) \<le> n + length realm + 2"
  using assms
proof (induction "length otrans + (if current = [] then 0 else (1::nat))"
    arbitrary: otrans prev current added trns newlen rule: less_induct)
  case less
  show ?case
  proof (cases "current = []")
    case True
    with less.prems(3) finish_trans_room [of realm added trns newlen _ _ _ n] show ?thesis
      by (cases "finish_trans realm added trns newlen")
        (auto simp: trans_loop.simps [of below realm otrans] trans_bound_def)
  next
    case False
    have now: "length trns \<le> n + length realm + 2"
      using less.prems(3) by (auto simp: trans_bound_def split: if_splits)
    from False show ?thesis
    proof (cases rule: trans_loop_step [of current below realm otrans prev added trns newlen])
      case error
      with now show ?thesis by simp
    next
      case (field expd nxt rest current' added' t r)
      have sub: "CHR ''/'' \<notin> set rest \<union> set expd \<union> set nxt"
        using expand_current_set [OF False field(1)] read_field_set [OF field(2)] less.prems(1) by auto
      have grow: "length current' \<le> length current + (if added' \<and> \<not> added then length realm + 2 else 0)"
        and pass: "added' \<or> passed realm expd" and mono: "added \<longrightarrow> added'"
        using field(3) insert_realm_growth [OF _ _ False field(1), of realm below nxt current' added'] less.prems(1,2)
        by (auto simp: passed_def split: if_splits)
      note app = append_field_room [OF field(4)]
      have t: "length t + (if otrans = [] then 0 else Suc (length otrans)) \<le> n + (if added' then length realm + 2 else 0)"
        using app grow mono less.prems(3) False by (auto simp: trans_bound_def split: if_splits)
      show ?thesis
      proof (cases r)
        case Inl
        with field(5) t show ?thesis by (auto split: if_splits)
      next
        case Inr
        have bound: "trans_bound rest nxt added' t (length t + 1) realm n"
          using t read_field_length [OF field(2)] by (auto simp: trans_bound_def split: if_splits)
        show ?thesis
          using less.hyps [OF read_field_measure [OF field(2) False] sub pass bound] field(5) Inr by simp
      qed
    qed
  qed
qed

text \<open>
  C14: when the transited field of the ticket-granting ticket contains no slash, the new field with
  its terminating NUL fits the array allocated for it, on every path through the function and for
  every realm that is added.
\<close>

theorem add_to_transited_fits:
  assumes "CHR ''/'' \<notin> set tgt_trans"
  shows "length (fst (snd (add_to_transited below tgt_trans tgs client server))) + 1 \<le> trans_alloc tgt_trans tgs"
proof -
  let ?realm = "c_str (p_realm tgs)" and ?otrans = "c_str tgt_trans"
  have slash: "CHR ''/'' \<notin> set ?otrans" using assms by (auto simp: c_str_def dest: set_takeWhileD)
  show ?thesis
  proof (cases "read_field [] ?otrans")
    case (Inr r)
    then obtain current rest where rd: "read_field [] ?otrans = Inr (current, rest)" by (cases r) auto
    have "trans_bound rest current added [] 0 ?realm (length ?otrans)" for added
      using read_field_length [OF rd] by (auto simp: trans_bound_def)
    moreover have "CHR ''/'' \<notin> set rest \<union> set [] \<union> set current"
      using read_field_set [OF rd] slash by auto
    ultimately show ?thesis
      using trans_loop_room [of rest "[]" current "p_realm client = ?realm \<or> p_realm server = ?realm" ?realm "[]" 0 "length ?otrans" below] rd
      by (simp add: add_to_transited_def trans_alloc_def strlen_def passed_def c_str_id [OF NUL_notin_c_str] Let_def)
  qed (simp add: add_to_transited_def trans_alloc_def)
qed

definition sample_tgs :: "string \<Rightarrow> krb5_principal" where
  "sample_tgs r = krb5_tgtname r r"

theorem add_to_transited_fits_witness:
  "length (fst (snd (add_to_transited NUL ''B.COM,A.'' (sample_tgs ''COM'') (sample_tgs ''X'') (sample_tgs ''Y'')))) + 1
     \<le> trans_alloc ''B.COM,A.'' (sample_tgs ''COM'')"
  by (rule add_to_transited_fits) simp

text \<open>Domain-style fields.\<close>

definition domain_char :: "char \<Rightarrow> bool" where
  "domain_char c \<longleftrightarrow> c \<noteq> NUL \<and> c \<noteq> CHR '','' \<and> c \<noteq> CHR 0x5C \<and> c \<noteq> CHR ''/''"

definition domain_field :: "string \<Rightarrow> bool" where
  "domain_field f \<longleftrightarrow> f \<noteq> [] \<and> hd f \<noteq> CHR '' '' \<and> list_all domain_char f"

lemma read_field_append:
  "CHR 0x5C \<notin> set f \<Longrightarrow> CHR '','' \<notin> set f \<Longrightarrow> length acc + length f < KDC_MAX_REALM_LN \<Longrightarrow>
     read_field acc (f @ rest) = read_field (acc @ f) rest"
  by (induction f arbitrary: acc) auto

text \<open>
  C39. Without that restriction the array is overrun.  Let the field of the ticket be the X.500-style
  realm \<open>/ysx\<close> that ends in the realm \<open>x\<close> to be added, followed by a domain-style field that ends
  in a dot.  As long as everything is shorter than the limit of 500, the KDC writes \<open>ys\<close> a second
  time, and that many octets go behind the end of the array.
\<close>

theorem add_to_transited_overruns:
  assumes "list_all domain_char ys" and "domain_field a" and "domain_field x" and "last x \<noteq> CHR ''.''"
    and "2 * length ys + 2 * length x + length a + 6 < KDC_MAX_REALM_LN"
    and "p_realm tgs = x" and "p_realm client \<noteq> x" "p_realm server \<noteq> x"
  defines "tgt_trans \<equiv> ''/'' @ ys @ x @ '','' @ a @ ''.''"
    and "new_trans \<equiv> ''/'' @ ys @ x @ '','' @ x @ '','' @ a @ ''./'' @ ys"
  shows "add_to_transited below tgt_trans tgs client server = (0, new_trans, length new_trans + 1) \<and>
    length new_trans + 1 = trans_alloc tgt_trans tgs + length ys"
proof -
  let ?f = "CHR ''/'' # ys @ x" and ?g = "a @ ''.''"
  have nin: "c \<notin> set ys" "c \<notin> set x" "c \<notin> set a" if "\<not> domain_char c" for c
    using assms(1-3) that by (auto simp: domain_field_def list_all_iff)
  have other: "\<not> domain_char NUL" "\<not> domain_char (CHR '','')" "\<not> domain_char (CHR 0x5C)" "\<not> domain_char (CHR ''/'')"
    by (simp_all add: domain_char_def)
  note nul = nin [OF other(1)] and comma = nin [OF other(2)] and backslash = nin [OF other(3)] and slash = nin [OF other(4)]
  have ne: "a \<noteq> []" "x \<noteq> []" "hd a \<noteq> CHR '' ''" using assms(2,3) by (auto simp: domain_field_def)
  have ns: "\<not> starts_slash x" "\<not> starts_slash (?g @ r)" for r
    using slash ne by (auto simp: starts_slash_def hd_append dest: hd_in_set)
  have c: "c_str x = x" "c_str tgt_trans = tgt_trans"
    using nul by (auto simp: tgt_trans_def NUL_def intro!: c_str_id)
  have r1: "read_field [] tgt_trans = Inr (?f, ?g)"
    using read_field_append [of ?f "[]" "CHR '','' # ?g"] backslash comma assms(5)
    by (simp add: tgt_trans_def)
  have r2: "read_field [] ?g = Inr (?g, [])"
    using read_field_append [of ?g "[]" "[]"] backslash comma assms(5) by simp
  have e: "expand_current [] ?f = Inr ?f" "expand_current ?f ?g = Inr (?g @ ?f)"
    using assms(4,5) ne ns(2) [of "[]"] by (simp_all add: expand_current_def starts_slash_def hd_append)
  have s: "subrealm x ?f = 0" "subrealm ?f x = 0" "subrealm (?g @ ?f) x = 0"
    "subrealm x (?g @ ?f) = int (length (?g @ CHR ''/'' # ys))"
    using subrealm_suffix [of "?g @ CHR ''/'' # ys" x] ns by (auto simp: subrealm_def starts_slash_def Let_def)
  have i: "insert_realm below x [] ?f ?f ?g = Inr (?f, False)"
    "insert_realm below x ?f (?g @ ?f) ?g [] = Inr (x @ '','' @ ?g @ CHR ''/'' # ys, True)"
    using s ns ne assms(5) compressed_prefix [of "?g @ CHR ''/'' # ys" x]
    by (simp_all add: insert_realm_def bindE_def Let_def)
  have "?f \<noteq> x" "?g @ ?f \<noteq> x" using arg_cong [of _ x length] by fastforce+
  then show ?thesis
    using r1 r2 e i assms(5-8) ne c trans_loop.simps [of below x ?g "[]" ?f False "[]" 0]
      trans_loop.simps [of below x "[]" ?f ?g False ?f "length ?f + 1"]
      trans_loop.simps [of below x "[]" "?g @ ?f" "[]" True new_trans "length new_trans + 1"]
    by (simp add: add_to_transited_def Let_def append_field_def finish_trans_def trans_alloc_def strlen_def new_trans_def tgt_trans_def)
qed

theorem add_to_transited_overruns_witness:
  "add_to_transited NUL ''/YYYYYYX,A.'' (sample_tgs ''X'') (sample_tgs ''C'') (sample_tgs ''D'') =
     (0, ''/YYYYYYX,X,A./YYYYYY'', 21) \<and>
   trans_alloc ''/YYYYYYX,A.'' (sample_tgs ''X'') = 15"
proof -
  have realm: "p_realm (sample_tgs r) = r" for r
    by (simp add: sample_tgs_def krb5_tgtname_def krb5_build_principal_ext_def)
  have "list_all domain_char ''YYYYYY''" "domain_field ''A''" "domain_field ''X''"
    by (simp_all add: domain_field_def domain_char_def NUL_def)
  from add_to_transited_overruns [OF this, of "sample_tgs ''X''" "sample_tgs ''C''" "sample_tgs ''D''" NUL]
  show ?thesis by (simp add: realm)
qed

section \<open>The realms the new field stands for\<close>

text \<open>The realms a list of domain-style fields stands for, relative to the realm before it.\<close>

fun expand_fields :: "string \<Rightarrow> string list \<Rightarrow> string list" where
  "expand_fields prev [] = []"
| "expand_fields prev (f # fs) =
     (let e = (if last f = CHR ''.'' then f @ prev else f) in e # expand_fields e fs)"

text \<open>If one realm is a suffix of the other, the cut is after a dot.\<close>

definition cut_at_dot :: "string \<Rightarrow> string \<Rightarrow> bool" where
  "cut_at_dot r1 r2 \<longleftrightarrow> (r1 \<noteq> [] \<and> subrealm r1 r2 > 0 \<longrightarrow> r2 ! (nat (subrealm r1 r2) - 1) = CHR ''.'')"

lemma cut_at_dot_last:
  assumes "cut_at_dot r (x @ r)" and "r \<noteq> []" and "x \<noteq> []" and "\<not> starts_slash (x @ r)" and "\<not> starts_slash r"
  shows "last x = CHR ''.''"
  using assms subrealm_suffix [of x r] by (simp add: cut_at_dot_def nth_append last_conv_nth)

lemma domain_field_no_slash: "domain_field f \<Longrightarrow> CHR ''/'' \<notin> set f"
  by (auto simp: domain_field_def domain_char_def list_all_iff)

lemma domain_chars_no_slash: "list_all domain_char f \<Longrightarrow> \<not> starts_slash f"
  by (rule no_slash) (auto simp: domain_char_def list_all_iff)

lemma read_field_scan:
  "list_all domain_char f \<Longrightarrow> read_field acc (f @ rest) = Inr (n, r) \<Longrightarrow> read_field (acc @ f) rest = Inr (n, r)"
proof (induction f arbitrary: acc)
  case (Cons c f)
  with Cons.IH [of "acc @ [c]"] show ?case by (auto simp: domain_char_def split: if_splits)
qed simp

lemma read_field_join:
  assumes "list_all domain_field fs" and "read_field [] (join_realms fs) = Inr (nxt, rest)"
  shows "(case fs of [] \<Rightarrow> nxt = [] \<and> rest = [] | f # fs' \<Rightarrow> nxt = f \<and> rest = join_realms fs')"
proof (cases fs)
  case Nil
  with assms(2) show ?thesis by simp
next
  case (Cons f fs')
  then have f: "list_all domain_char f" using assms(1) by (simp add: domain_field_def)
  show ?thesis
  proof (cases fs')
    case Nil
    with Cons assms(2) read_field_scan [OF f, of "[]" "[]"] show ?thesis by auto
  next
    case (Cons g gs)
    with \<open>fs = f # fs'\<close> assms(2) read_field_scan [OF f, of "[]" "CHR '','' # join_realms fs'"] show ?thesis by auto
  qed
qed

definition join_onto :: "string \<Rightarrow> string list \<Rightarrow> string" where
  "join_onto trns fs = (if trns = [] then join_realms fs else trns @ CHR '','' # join_realms fs)"

lemma join_realms_Cons: "fs \<noteq> [] \<Longrightarrow> join_realms (f # fs) = f @ CHR '','' # join_realms fs"
  by (cases fs) auto

lemma join_onto_Cons: "f \<noteq> [] \<Longrightarrow> fs \<noteq> [] \<Longrightarrow> join_onto (join_onto trns [f]) fs = join_onto trns (f # fs)"
  by (auto simp: join_onto_def join_realms_Cons)

lemma append_field_join:
  assumes "append_field trns newlen current = (t, Inr t')" and "newlen = 0 \<longleftrightarrow> trns = []"
  shows "t = join_onto trns [current]"
  using assms by (auto simp: append_field_def join_onto_def Let_def split: if_splits)

lemma expand_current_domain:
  assumes "domain_field current" and "CHR ''/'' \<notin> set prev" and "expand_current prev current = Inr expd"
  shows "expd = (if last current = CHR ''.'' then current @ prev else current)"
  using assms no_slash [OF domain_field_no_slash [OF assms(1)]]
  by (auto simp: expand_current_def domain_field_def split: if_splits)

text \<open>A successful iteration on domain-style fields.\<close>

lemma trans_loop_domain_step:
  assumes "domain_field current" and "list_all domain_field fs" and "CHR ''/'' \<notin> set prev"
    and "newlen = 0 \<longleftrightarrow> trns = []"
    and "trans_loop below realm (join_realms fs) prev current added trns newlen = (0, trns', len')"
  obtains expd current' added' where
    "expd = (if last current = CHR ''.'' then current @ prev else current)" "CHR ''/'' \<notin> set expd"
    "(if added \<or> expd = realm then Inr (current, True)
      else insert_realm below realm prev expd current (case fs of [] \<Rightarrow> [] | f # _ \<Rightarrow> f)) = Inr (current', added')"
    "trans_loop below realm (case fs of [] \<Rightarrow> [] | _ # fs' \<Rightarrow> join_realms fs') expd
       (case fs of [] \<Rightarrow> [] | f # _ \<Rightarrow> f) added' (join_onto trns [current']) (length (join_onto trns [current']) + 1)
     = (0, trns', len')"
proof -
  have ne: "current \<noteq> []" using assms(1) by (simp add: domain_field_def)
  from ne show thesis
  proof (cases rule: trans_loop_step [of current below realm "join_realms fs" prev added trns newlen])
    case error
    with assms(5) show thesis by (simp add: krb5_errs)
  next
    case (field expd nxt rest current' added' t r)
    have r: "r = Inr t"
      using field(5) append_field_room [OF field(4)] assms(5) by (auto simp: krb5_errs split: sum.splits)
    have t: "t = join_onto trns [current']"
      using append_field_join field(4) r assms(4) by metis
    have e: "expd = (if last current = CHR ''.'' then current @ prev else current)"
      by (rule expand_current_domain [OF assms(1,3) field(1)])
    have nr: "nxt = (case fs of [] \<Rightarrow> [] | f # _ \<Rightarrow> f)" "rest = (case fs of [] \<Rightarrow> [] | _ # fs' \<Rightarrow> join_realms fs')"
      using read_field_join [OF assms(2) field(2)] by (auto split: list.splits)
    show thesis
      by (rule that [OF e _ field(3) [unfolded nr]])
        (use e assms(1,3,5) field(5) r t nr in \<open>auto dest: domain_field_no_slash\<close>)
  qed
qed

lemma trans_loop_added:
  assumes "domain_field current" and "list_all domain_field fs" and "CHR ''/'' \<notin> set prev"
    and "newlen = 0 \<longleftrightarrow> trns = []"
    and "trans_loop below realm (join_realms fs) prev current True trns newlen = (0, trns', len')"
  shows "trns' = join_onto trns (current # fs)"
  using assms
proof (induction fs arbitrary: prev current trns newlen)
  case Nil
  from trans_loop_domain_step [OF Nil] show ?case
    by (auto simp: trans_loop.simps [of below realm "[]"] finish_trans_def)
next
  case (Cons f fs)
  from trans_loop_domain_step [OF Cons.prems] obtain expd where
    *: "CHR ''/'' \<notin> set expd"
    "trans_loop below realm (join_realms fs) expd f True (join_onto trns [current]) (length (join_onto trns [current]) + 1)
      = (0, trns', len')"
    by auto
  have "current \<noteq> []" using Cons.prems(1) by (simp add: domain_field_def)
  moreover from this have "join_onto trns [current] \<noteq> []" by (simp add: join_onto_def)
  ultimately show ?case
    using Cons.IH [OF _ _ *(1) _ *(2)] Cons.prems(2) by (simp add: join_onto_Cons)
qed

definition inserted :: "string \<Rightarrow> string list \<Rightarrow> string list \<Rightarrow> bool" where
  "inserted r old new \<longleftrightarrow> list_ex (\<lambda>i. new = take i old @ r # drop i old) [0..<Suc (length old)]"

lemma inserted_iff: "inserted r old new \<longleftrightarrow> (\<exists>ys zs. old = ys @ zs \<and> new = ys @ r # zs)"
proof
  assume "inserted r old new"
  then obtain i where "new = take i old @ r # drop i old" unfolding inserted_def list_ex_iff by blast
  then show "\<exists>ys zs. old = ys @ zs \<and> new = ys @ r # zs" by (intro exI [of _ "take i old"] exI [of _ "drop i old"]) simp
next
  assume "\<exists>ys zs. old = ys @ zs \<and> new = ys @ r # zs"
  then obtain ys zs where "old = ys @ zs" "new = ys @ r # zs" by blast
  then show "inserted r old new" unfolding inserted_def list_ex_iff by (intro bexI [of _ "length ys"]) auto
qed

lemma insertedI: "old = ys @ zs \<Longrightarrow> new = ys @ r # zs \<Longrightarrow> inserted r old new"
  by (auto simp: inserted_iff)

lemma inserted_Cons:
  assumes "inserted r old new"
  shows "inserted r (e # old) (e # new)"
proof -
  from assms obtain ys zs where "old = ys @ zs" "new = ys @ r # zs" by (auto simp: inserted_iff)
  then show ?thesis by (intro insertedI [of _ "e # ys" zs]) auto
qed

lemma expand_fields_reset:
  "(case fs of [] \<Rightarrow> True | f # _ \<Rightarrow> last f \<noteq> CHR ''.'') \<Longrightarrow> expand_fields p fs = expand_fields q fs"
  by (cases fs) (auto simp: Let_def)

lemma before_compressed:
  assumes "domain_field realm" and "last realm \<noteq> CHR ''.''" and "\<not> starts_slash realm" "\<not> starts_slash prev"
    and "cut_at_dot prev realm"
    and "c = (if subrealm prev realm \<noteq> 0 then compressed (subrealm prev realm) realm else realm)"
  shows "domain_field c \<and> (if last c = CHR ''.'' then c @ prev else c) = realm"
proof (cases "subrealm prev realm \<noteq> 0")
  case True
  then obtain y where y: "realm = y @ prev" "y \<noteq> []" "subrealm prev realm = int (length y)"
    using subrealm_domainD assms(3) by blast
  then have "c = y" using assms(6) True by (simp add: compressed_prefix)
  moreover have "domain_field y" using assms(1) y by (auto simp: domain_field_def)
  moreover have "last y = CHR ''.''" if "prev \<noteq> []"
    using cut_at_dot_last [of prev y] assms(3-5) y that by simp
  ultimately show ?thesis using y assms(2) by auto
next
  case False
  with assms show ?thesis by simp
qed

lemma insert_realm_domain:
  assumes cur: "domain_field current" and prev: "list_all domain_char prev" and fs: "list_all domain_field fs"
    and expd: "expd = (if last current = CHR ''.'' then current @ prev else current)"
    and realm: "domain_field realm" "last realm \<noteq> CHR ''.''"
    and cut: "cut_at_dot expd realm" "cut_at_dot realm expd" "cut_at_dot prev realm"
    and ins: "insert_realm below realm prev expd current (case fs of [] \<Rightarrow> [] | f # _ \<Rightarrow> f) = Inr (current', True)"
  obtains out where "list_all domain_field out" "out \<noteq> []" "current' = join_realms out"
    "inserted realm (expd # expand_fields expd fs) (expand_fields prev (out @ fs))"
proof -
  let ?nxt = "case fs of [] \<Rightarrow> [] | f # _ \<Rightarrow> f"
  have ne: "expd \<noteq> []" "realm \<noteq> []" "current \<noteq> []" "hd expd = hd current"
    using expd cur realm by (auto simp: domain_field_def)
  have ns: "\<not> starts_slash expd" "\<not> starts_slash realm" "\<not> starts_slash prev"
    using domain_chars_no_slash [of expd] domain_chars_no_slash [of realm] domain_chars_no_slash [of prev]
      cur prev expd realm by (auto simp: domain_field_def)
  from ins show thesis
  proof (cases rule: insert_realm_cases)
    case after
    obtain x where x: "realm = x @ expd" "x \<noteq> []" "subrealm expd realm = int (length x)"
      using subrealm_domainD [OF after(1) ns(2)] .
    have dot: "last x = CHR ''.''" using cut_at_dot_last cut(1) x ne ns by blast
    have "expand_fields realm fs = expand_fields expd fs"
      using after(4) fs by (intro expand_fields_reset) (auto simp: domain_field_def split: list.splits)
    with x dot expd have "expand_fields prev ([current, x] @ fs) = expd # realm # expand_fields expd fs"
      by (auto simp: Let_def)
    then have "inserted realm (expd # expand_fields expd fs) (expand_fields prev ([current, x] @ fs))"
      by (intro insertedI [of _ "[expd]" "expand_fields expd fs"]) auto
    moreover have "domain_field x" using realm(1) x by (auto simp: domain_field_def)
    ultimately show thesis
      using that [of "[current, x]"] cur after(3) x by (simp add: compressed_prefix)
  next
    case none
    then show thesis by simp
  next
    case (before c)
    obtain x where x: "expd = x @ realm" "x \<noteq> []" "subrealm realm expd = int (length x)"
      using subrealm_domainD [OF before(1) ns(1)] .
    have dot: "last x = CHR ''.''" using cut_at_dot_last cut(2) x ne ns by blast
    have c: "domain_field c" "(if last c = CHR ''.'' then c @ prev else c) = realm"
      using before_compressed [OF realm ns(2,3) cut(3), of c] before(4) ns(2) by auto
    have "domain_field expd" using cur prev expd by (auto simp: domain_field_def)
    with x(1,2) have "domain_field x" by (simp add: domain_field_def)
    moreover have "expand_fields prev ([c, x] @ fs) = realm # expd # expand_fields expd fs"
      using c x dot by (simp add: Let_def)
    then have "inserted realm (expd # expand_fields expd fs) (expand_fields prev ([c, x] @ fs))"
      by (intro insertedI [of _ "[]" "expd # expand_fields expd fs"]) auto
    ultimately show thesis
      using that [of "[c, x]"] c before(3) x by (simp add: compressed_prefix)
  qed
qed

text \<open>What the rest of the loop may do to the realms of the fields it still has.\<close>

definition realm_added :: "bool \<Rightarrow> string \<Rightarrow> string list \<Rightarrow> string list \<Rightarrow> bool" where
  "realm_added added realm old new \<longleftrightarrow>
     (if old = new then added \<or> realm \<in> set old else \<not> added \<and> inserted realm old new)"

lemma realm_added_Cons:
  "realm_added added' realm old new \<Longrightarrow> added' \<longleftrightarrow> added \<or> e = realm \<Longrightarrow> realm_added added realm (e # old) (e # new)"
  by (auto simp: realm_added_def inserted_Cons)

lemma inserted_neq: "inserted r old new \<Longrightarrow> old \<noteq> new"
  by (auto simp: inserted_iff dest: arg_cong [where f = length])

lemma join_realms_append:
  "out \<noteq> [] \<Longrightarrow> fs \<noteq> [] \<Longrightarrow> join_realms (out @ fs) = join_realms out @ CHR '','' # join_realms fs"
  by (induction out rule: join_realms.induct) (simp_all add: join_realms_Cons)

lemma join_onto_join:
  assumes "out \<noteq> []" and "list_all domain_field out" and "fs \<noteq> []"
  shows "join_onto (join_onto trns [join_realms out]) fs = join_onto trns (out @ fs)"
proof -
  have "join_realms out \<noteq> []"
    using assms(1,2) hd_join_realms by (cases out) (auto simp: domain_field_def)
  with assms show ?thesis by (simp add: join_onto_def join_realms_append)
qed

lemma join_onto_join1: "join_onto trns [join_realms out] = join_onto trns out"
  by (simp add: join_onto_def)

lemma trans_step_realms:
  assumes "domain_field current" and "list_all domain_field fs" and "list_all domain_char prev"
    and "domain_field realm" and "last realm \<noteq> CHR ''.''" and "cut_at_dot prev realm"
    and expd: "expd = (if last current = CHR ''.'' then current @ prev else current)"
    and "cut_at_dot expd realm" and "cut_at_dot realm expd"
    and step: "(if added \<or> expd = realm then Inr (current, True)
      else insert_realm below realm prev expd current (case fs of [] \<Rightarrow> [] | f # _ \<Rightarrow> f)) = Inr (current', added')"
  obtains out where "out \<noteq> []" "list_all domain_field out" "current' = join_realms out"
    "if added' then realm_added added realm (expand_fields prev (current # fs)) (expand_fields prev (out @ fs))
     else out = [current] \<and> \<not> added \<and> expd \<noteq> realm"
proof -
  have exp: "expand_fields prev (current # fs) = expd # expand_fields expd fs" using expd by (simp add: Let_def)
  consider (had) "added \<or> expd = realm" "current' = current" added'
    | (ins) "\<not> added" "expd \<noteq> realm"
        "insert_realm below realm prev expd current (case fs of [] \<Rightarrow> [] | f # _ \<Rightarrow> f) = Inr (current', added')"
    using step by (auto split: if_splits)
  then show thesis
  proof cases
    case had
    then show thesis using that [of "[current]"] assms(1) exp by (auto simp: realm_added_def)
  next
    case ins
    show thesis
    proof (cases added')
      case True
      with insert_realm_domain [OF assms(1,3,2) expd assms(4,5,8,9,6)] ins obtain out where
        "list_all domain_field out" "out \<noteq> []" "current' = join_realms out"
        "inserted realm (expd # expand_fields expd fs) (expand_fields prev (out @ fs))"
        by metis
      then show thesis using that [of out] ins exp True inserted_neq by (simp add: realm_added_def)
    next
      case False
      then have "current' = current" using ins(3) by (auto elim: insert_realm_cases)
      then show thesis using that [of "[current]"] assms(1) ins False by simp
    qed
  qed
qed

lemma trans_loop_realms:
  assumes "domain_field current" and "list_all domain_field fs" and "list_all domain_char prev"
    and "newlen = 0 \<longleftrightarrow> trns = []" and realm: "domain_field realm" "last realm \<noteq> CHR ''.''"
    and "cut_at_dot prev realm"
    and "list_all (\<lambda>e. cut_at_dot e realm \<and> cut_at_dot realm e) (expand_fields prev (current # fs))"
    and "trans_loop below realm (join_realms fs) prev current added trns newlen = (0, trns', len')"
  shows "\<exists>out. out \<noteq> [] \<and> list_all domain_field out \<and> trns' = join_onto trns out \<and>
    realm_added added realm (expand_fields prev (current # fs)) (expand_fields prev out)"
  using assms
proof (induction fs arbitrary: prev current added trns newlen)
  case Nil
  have "CHR ''/'' \<notin> set prev" using Nil.prems(3) by (auto simp: domain_char_def list_all_iff)
  from trans_loop_domain_step [OF Nil.prems(1,2) this Nil.prems(4,9), unfolded list.case] obtain expd current' added' where
    st: "expd = (if last current = CHR ''.'' then current @ prev else current)"
    "(if added \<or> expd = realm then Inr (current, True) else insert_realm below realm prev expd current []) = Inr (current', added')"
    "trans_loop below realm [] expd [] added' (join_onto trns [current']) (length (join_onto trns [current']) + 1) = (0, trns', len')"
    by blast
  have cuts: "cut_at_dot expd realm" "cut_at_dot realm expd" using Nil.prems(8) st(1) by (auto simp: Let_def)
  from trans_step_realms [OF Nil.prems(1-3,5-7) st(1) cuts, unfolded list.case append_Nil2, OF st(2)] obtain out where out: "out \<noteq> []" "list_all domain_field out" "current' = join_realms out"
    "if added' then realm_added added realm (expand_fields prev [current]) (expand_fields prev out)
     else out = [current] \<and> \<not> added \<and> expd \<noteq> realm"
    by blast
  show ?case
  proof (cases added')
    case True
    with st(3) out show ?thesis
      by (intro exI [of _ out]) (simp add: trans_loop.simps [of below realm "[]"] finish_trans_def join_onto_join1)
  next
    case False
    with out st(3) have "trns' = join_onto (join_onto trns [current]) [realm]" "out = [current]"
      using domain_field_no_slash [OF realm(1), THEN no_slash] Nil.prems(1)
      by (auto simp: trans_loop.simps [of below realm "[]"] finish_trans_def join_onto_def Let_def domain_field_def krb5_errs split: if_splits)
    moreover have "inserted realm (expand_fields prev [current]) (expand_fields prev [current, realm])"
      using st(1) realm by (intro insertedI [of _ "[expd]" "[]"]) (auto simp: Let_def)
    ultimately show ?thesis
      using False out realm Nil.prems(1) inserted_neq
      by (intro exI [of _ "[current, realm]"]) (auto simp: realm_added_def join_onto_Cons domain_field_def)
  qed
next
  case (Cons f fs)
  have ns: "CHR ''/'' \<notin> set prev" using Cons.prems(3) by (auto simp: domain_char_def list_all_iff)
  obtain expd current' added' where
    st: "expd = (if last current = CHR ''.'' then current @ prev else current)" "CHR ''/'' \<notin> set expd"
    "(if added \<or> expd = realm then Inr (current, True) else insert_realm below realm prev expd current f) = Inr (current', added')"
    "trans_loop below realm (join_realms fs) expd f added' (join_onto trns [current']) (length (join_onto trns [current']) + 1) = (0, trns', len')"
    by (rule trans_loop_domain_step [OF Cons.prems(1,2) ns Cons.prems(4,9), unfolded list.case])
  have exp: "expand_fields prev (current # f # fs) = expd # expand_fields expd (f # fs)" using st(1) by (simp add: Let_def)
  with Cons.prems(8) have cuts: "cut_at_dot expd realm" "cut_at_dot realm expd"
    "list_all (\<lambda>e. cut_at_dot e realm \<and> cut_at_dot realm e) (expand_fields expd (f # fs))"
    by (simp_all del: expand_fields.simps)
  have ok: "domain_field f" "list_all domain_field fs" using Cons.prems(2) by auto
  have okc: "list_all domain_char expd" using Cons.prems(1,3) st(1) by (auto simp: domain_field_def)
  obtain out where
    out: "out \<noteq> []" "list_all domain_field out" "current' = join_realms out"
    "if added' then realm_added added realm (expand_fields prev (current # f # fs)) (expand_fields prev (out @ f # fs))
     else out = [current] \<and> \<not> added \<and> expd \<noteq> realm"
    by (rule trans_step_realms [OF Cons.prems(1-3,5-7) st(1) cuts(1,2), unfolded list.case, OF st(3)])
  have ne: "join_onto trns [current'] \<noteq> []"
    using out(1-3) hd_join_realms by (cases out) (auto simp: join_onto_def domain_field_def)
  show ?case
  proof (cases added')
    case True
    have "trns' = join_onto (join_onto trns [current']) (f # fs)"
      by (rule trans_loop_added [OF ok(1,2) _ _ st(4) [unfolded eqTrueI [OF True]]])
        (use okc ne in \<open>auto simp: domain_char_def list_all_iff\<close>)
    with True out ok show ?thesis
      by (intro exI [of _ "out @ f # fs"]) (simp add: join_onto_join del: expand_fields.simps)
  next
    case False
    obtain out' where "out' \<noteq> []" "list_all domain_field out'" "trns' = join_onto (join_onto trns [current']) out'"
      "realm_added added' realm (expand_fields expd (f # fs)) (expand_fields expd out')"
      using Cons.IH [OF ok okc _ realm cuts(1,3) st(4)] ne by auto
    moreover have "expand_fields prev (current # out') = expd # expand_fields expd out'" using st(1) by (simp add: Let_def)
    moreover have "current \<noteq> []" using Cons.prems(1) by (simp add: domain_field_def)
    ultimately show ?thesis
      using False out exp realm_added_Cons [of added' realm _ _ added expd] Cons.prems(1)
      by (intro exI [of _ "current # out'"]) (simp add: join_onto_Cons del: expand_fields.simps)
  qed
qed

text \<open>
  C13: on a field of domain-style names, when no realm in it is a suffix of the new realm or
  the other way round except after a dot, a successful \<open>add_to_transited\<close> leaves the realms the field
  stands for as they were, with the realm of the ticket-granting server inserted at one place,
  unless it is already among them or is the client's or the server's realm.
\<close>

theorem add_to_transited_realms:
  assumes "list_all domain_field fs" and "domain_field (p_realm tgs)" and "last (p_realm tgs) \<noteq> CHR ''.''"
    and "list_all (\<lambda>e. cut_at_dot e (p_realm tgs) \<and> cut_at_dot (p_realm tgs) e) (expand_fields [] fs)"
    and "add_to_transited below (join_realms fs) tgs client server = (0, trns, len)"
  shows "\<exists>out. list_all domain_field out \<and> trns = join_realms out \<and>
    realm_added (p_realm client = p_realm tgs \<or> p_realm server = p_realm tgs) (p_realm tgs)
      (expand_fields [] fs) (expand_fields [] out)"
proof -
  let ?realm = "p_realm tgs" and ?added = "p_realm client = p_realm tgs \<or> p_realm server = p_realm tgs"
  have "NUL \<notin> set (join_realms fs)"
    using assms(1) by (induction fs rule: join_realms.induct) (auto simp: domain_field_def domain_char_def list_all_iff NUL_def)
  then have c: "c_str ?realm = ?realm" "c_str (join_realms fs) = join_realms fs"
    using assms(2) by (auto simp: domain_field_def domain_char_def list_all_iff intro!: c_str_id)
  from assms(5) c obtain current rest where rd: "read_field [] (join_realms fs) = Inr (current, rest)"
    and loop: "trans_loop below ?realm rest [] current ?added [] 0 = (0, trns, len)"
    by (auto simp: add_to_transited_def Let_def krb5_errs dest: read_field_error split: sum.splits)
  show ?thesis
  proof (cases fs)
    case Nil
    with loop rd show ?thesis
      using assms(2) domain_field_no_slash [OF assms(2), THEN no_slash]
      by (intro exI [of _ "if ?added then [] else [?realm]"])
        (auto simp: trans_loop.simps [of below ?realm "[]"] finish_trans_def realm_added_def inserted_def Let_def krb5_errs split: if_splits)
  next
    case (Cons f fs')
    with read_field_join [OF assms(1) rd] loop assms(1)
    have "trans_loop below ?realm (join_realms fs') [] f ?added [] 0 = (0, trns, len)" "domain_field f" "list_all domain_field fs'"
      by auto
    with trans_loop_realms [of f fs' "[]" 0 "[]" ?realm below ?added trns len] assms(2-4) Cons show ?thesis
      by (auto simp: join_onto_def cut_at_dot_def simp del: expand_fields.simps)
  qed
qed

theorem add_to_transited_realms_witness:
  "\<exists>out. list_all domain_field out \<and> ''EDU,COM,B.,A.'' = join_realms out \<and>
    realm_added False ''COM'' [''EDU'', ''B.COM'', ''A.B.COM''] (expand_fields [] out)"
proof -
  have "add_to_transited NUL (join_realms [''EDU'', ''B.COM'', ''A.'']) (sample_tgs ''COM'') (sample_tgs ''X'') (sample_tgs ''Y'') =
      (0, ''EDU,COM,B.,A.'', 14)"
    by code_simp
  moreover have "list_all domain_field [''EDU'', ''B.COM'', ''A.'']" "domain_field (p_realm (sample_tgs ''COM''))"
    "expand_fields [] [''EDU'', ''B.COM'', ''A.''] = [''EDU'', ''B.COM'', ''A.B.COM'']"
    "list_all (\<lambda>e. cut_at_dot e ''COM'' \<and> cut_at_dot ''COM'' e) [''EDU'', ''B.COM'', ''A.B.COM'']"
    by code_simp+
  ultimately show ?thesis
    using add_to_transited_realms [of "[''EDU'', ''B.COM'', ''A.'']" "sample_tgs ''COM''" NUL "sample_tgs ''X''" "sample_tgs ''Y''" "''EDU,COM,B.,A.''" 14]
    by (simp add: sample_tgs_def krb5_tgtname_simps del: expand_fields.simps)
qed

text \<open>
  Without that restriction a realm is lost.  Adding \<open>O.COM\<close> to the field \<open>FOO.COM\<close> compresses
  inside a component: the new field stands for \<open>O.COM\<close> and \<open>FO\<close>, not for \<open>FOO.COM\<close>.
\<close>

theorem add_to_transited_loses_realm:
  "add_to_transited NUL ''FOO.COM'' (sample_tgs ''O.COM'') (sample_tgs ''C'') (sample_tgs ''D'') = (0, ''O.COM,FO'', 9) \<and>
   expand_fields [] [''O.COM'', ''FO''] = [''O.COM'', ''FO'']"
  by code_simp

end
