(* ===== verification/Kdc_TGS.thy ===== *)
theory Kdc_TGS
  imports Kdc_AS Kdc_Transited
begin

text \<open>
  The ticket-granting service: the authentication of a request (\<open>kdc_process_tgs_req\<close>,
  \<open>comp_cksum\<close>, \<open>kdc_get_server_key\<close> of \<open>kdc/kdc_util.c\<close>) and \<open>kdc/do_tgs_req.c\<close>
  (\<open>process_tgs_req\<close> in the stretches of the function, \<open>find_alternate_tgs\<close>,
  \<open>prepare_error_tgs\<close>).

  The services added to those of the authentication service are the reader of an
  authentication request, whose first argument is 0 for the first call and 1 for the call made
  after the replay cache has been set up again, that set-up, the decoder of the request, the
  choice of the realm (of which the record \<open>kdc_realm\<close> is the result), the configured realm
  paths, and the byte in front of the array \<open>next\<close> of \<open>add_to_transited\<close>.
\<close>

record kdc_ap =
  rd_req_decoded_anyflag :: "nat \<Rightarrow> krb5_ap_req \<Rightarrow> (krb5_enc_tkt_part \<times> krb5_authenticator) krb5_result"
  kdc_initialize_rcache :: krb5_error_code
  decode_tgs_req :: "octet list \<Rightarrow> krb5_kdc_req krb5_result"
  setup_server_realm :: "krb5_principal option \<Rightarrow> krb5_error_code"
  capaths :: "string \<Rightarrow> string \<Rightarrow> string list option"
  byte_below :: char

section \<open>The authentication of a request\<close>

definition KRB5_KEYUSAGE_TGS_REQ_AUTH_CKSUM :: int where "KRB5_KEYUSAGE_TGS_REQ_AUTH_CKSUM = 6"

definition comp_cksum :: "kdc_crypto \<Rightarrow> octet list \<Rightarrow> krb5_enc_tkt_part \<Rightarrow> krb5_checksum \<Rightarrow> krb5_error_code" where
  "comp_cksum crypto source tkt his_cksum =
     (if \<not> valid_cksumtype crypto (checksum_type his_cksum) then KRB5KDC_ERR_SUMTYPE_NOSUPP
      else if \<not> is_coll_proof_cksum crypto (checksum_type his_cksum) then KRB5KRB_AP_ERR_INAPP_CKSUM
      else case c_verify_checksum crypto (et_session tkt) KRB5_KEYUSAGE_TGS_REQ_AUTH_CKSUM source his_cksum of
          Inl retval \<Rightarrow> retval
        | Inr valid \<Rightarrow> if \<not> valid then KRB5KRB_AP_ERR_BAD_INTEGRITY else 0)"

text \<open>The bytes of a field that \<open>fetch_asn1_field\<close> found.\<close>

definition field_bytes :: "octet list \<Rightarrow> nat \<times> int \<Rightarrow> (octet list) c_outcome" where
  "field_bytes pkt f =
     (if int (fst f) + snd f \<le> int (length pkt) then Done (take (nat (snd f)) (drop (fst f) pkt)) else Out_of_bounds)"

text \<open>The check of the authenticator's checksum over the request body.\<close>

definition check_body ::
  "kdc_crypto \<Rightarrow> kdc_codec \<Rightarrow> krb5_kdc_req \<Rightarrow> octet list \<Rightarrow> krb5_enc_tkt_part \<Rightarrow> krb5_checksum \<Rightarrow>
     krb5_error_code c_outcome" where
  "check_body crypto codec request pkt tkt his_cksum =
     (case fetch_asn1_field pkt 1 4 of
        Done f \<Rightarrow>
          bindO (field_bytes pkt f) (\<lambda>scratch1.
            Done (if comp_cksum crypto scratch1 tkt his_cksum \<noteq> 0 then
                    (case encode_kdc_req_body codec request of
                       Inl retval \<Rightarrow> retval
                     | Inr scratch \<Rightarrow> comp_cksum crypto scratch tkt his_cksum)
                  else 0))
      | Error _ \<Rightarrow> Done 0
      | Aborted \<Rightarrow> Aborted
      | Out_of_bounds \<Rightarrow> Out_of_bounds)"

text \<open>
  The result: the return code, the ticket when it has been read, and the subkey.  After the
  replay cache could not be set up again the code goes on with a null ticket.
\<close>

type_synonym tgs_auth = "(krb5_error_code \<times> krb5_ticket option \<times> krb5_keyblock option) c_outcome"

definition check_header ::
  "kdc_realm \<Rightarrow> kdc_crypto \<Rightarrow> kdc_codec \<Rightarrow> krb5_kdc_req \<Rightarrow> octet list \<Rightarrow> krb5_ticket \<Rightarrow>
     krb5_enc_tkt_part \<Rightarrow> krb5_authenticator \<Rightarrow> tgs_auth" where
  "check_header realm crypto codec request pkt ticket tkt authenticator =
     (let ticket = ticket\<lparr>tk_enc_part2 := Some tkt\<rparr>; subkey = au_subkey authenticator;
          foreign_server = (p_realm (tk_server ticket) \<noteq> p_realm (realm_tgsprinc realm))
      in if isflagset (et_flags tkt) TKT_FLG_INVALID \<and> \<not> isflagset (rq_kdc_options request) KDC_OPT_VALIDATE
         then Done (KRB5KRB_AP_ERR_TKT_INVALID, Some ticket, None)
         else case au_checksum authenticator of
             None \<Rightarrow> Done (KRB5KRB_AP_ERR_INAPP_CKSUM, Some ticket, subkey)
           | Some his_cksum \<Rightarrow>
               if foreign_server \<and> p_realm (et_client tkt) = p_realm (realm_tgsprinc realm)
               then Done (KRB5KDC_ERR_POLICY, Some ticket, subkey)
               else bindO (check_body crypto codec request pkt tkt his_cksum) (\<lambda>retval.
                      Done (retval, Some ticket, subkey)))"

definition kdc_process_tgs_req ::
  "kdc_realm \<Rightarrow> kdc_crypto \<Rightarrow> kdc_codec \<Rightarrow> kdc_ap \<Rightarrow> krb5_kdc_req \<Rightarrow> octet list \<Rightarrow> tgs_auth" where
  "kdc_process_tgs_req realm crypto codec ap request pkt =
     (case (case rq_padata request of None \<Rightarrow> None
            | Some pas \<Rightarrow> find (\<lambda>pa. pa_type pa = KRB5_PADATA_AP_REQ) pas) of
        None \<Rightarrow> Done (KRB5KDC_ERR_PADATA_TYPE_NOSUPP, None, None)
      | Some pa \<Rightarrow>
          (case decode_ap_req codec (pa_contents pa) of
             Inl retval \<Rightarrow> Done (retval, None, None)
           | Inr apreq \<Rightarrow>
               if isflagset (ap_options apreq) AP_OPTS_USE_SESSION_KEY \<or>
                  isflagset (ap_options apreq) AP_OPTS_MUTUAL_REQUIRED
               then Done (KRB5KDC_ERR_POLICY, None, None)
               else case rd_req_decoded_anyflag ap 0 apreq of
                   Inr (tkt, authenticator) \<Rightarrow>
                     check_header realm crypto codec request pkt (ap_ticket apreq) tkt authenticator
                 | Inl retval \<Rightarrow>
                     if retval = KRB5_RC_IO_IO \<or> retval = KRB5_RC_IO_UNKNOWN then
                       (if kdc_initialize_rcache ap = 0 then
                          (case rd_req_decoded_anyflag ap 1 apreq of
                             Inl retval \<Rightarrow> Done (retval, None, None)
                           | Inr (tkt, authenticator) \<Rightarrow>
                               check_header realm crypto codec request pkt (ap_ticket apreq) tkt authenticator)
                        else Out_of_bounds)
                     else Done (retval, None, None)))"

definition kdc_get_server_key :: "kdc_realm \<Rightarrow> kdc_crypto \<Rightarrow> krb5_ticket \<Rightarrow> (krb5_keyblock \<times> int) krb5_result" where
  "kdc_get_server_key realm crypto ticket =
     bindE (db_get_principal realm (tk_server ticket)) (\<lambda>(entries, several).
       if several then Inl KRB5KDC_ERR_PRINCIPAL_NOT_UNIQUE
       else case entries of
           [server] \<Rightarrow>
             bindE (krb5_dbe_find_enctype server (ed_enctype (tk_enc_part ticket)) (-1) (ed_kvno (tk_enc_part ticket)))
               (\<lambda>server_key. bindE (dbekd_decrypt_key_data crypto server_key) (\<lambda>key.
                  Inr (key, key_data_kvno server_key)))
         | _ \<Rightarrow> Inl KRB5KDC_ERR_S_PRINCIPAL_UNKNOWN)"

section \<open>Finding the server\<close>

fun alternate_loop :: "kdc_realm \<Rightarrow> krb5_principal list \<Rightarrow> (krb5_principal \<times> krb5_db_entry) option" where
  "alternate_loop realm [] = None"
| "alternate_loop realm (p # ps) =
     (let p' = p\<lparr>p_realm := p_realm (realm_tgsprinc realm)\<rparr> in
      case db_get_principal realm p' of
        Inl retval \<Rightarrow> None
      | Inr (entries, several) \<Rightarrow>
          if several then alternate_loop realm ps
          else case entries of [server] \<Rightarrow> Some (p', server) | _ \<Rightarrow> alternate_loop realm ps)"

definition find_alternate_tgs ::
  "kdc_realm \<Rightarrow> kdc_ap \<Rightarrow> krb5_principal \<Rightarrow> string \<Rightarrow> (krb5_principal \<times> krb5_db_entry) option" where
  "find_alternate_tgs realm ap rserver instance_name =
     (case krb5_walk_realm_tree (capaths ap) (p_realm rserver) instance_name KRB5_REALM_BRANCH_CHAR of
        Inl retval \<Rightarrow> None
      | Inr (n, plist) \<Rightarrow> alternate_loop realm (rev (tl plist)))"

definition tgs_find_server ::
  "kdc_realm \<Rightarrow> kdc_ap \<Rightarrow> krb5_principal \<Rightarrow> (krb5_principal \<times> krb5_db_entry) handler" where
  "tgs_find_server realm ap rserver =
     bindH (tryH (db_get_principal realm rserver) ''LOOKING_UP_SERVER'') (\<lambda>(entries, several).
       if several then Errout KRB5KDC_ERR_PRINCIPAL_NOT_UNIQUE ''NON_UNIQUE_PRINCIPAL'' []
       else case entries of
           [server] \<Rightarrow> Continue (rserver, server)
         | _ \<Rightarrow>
             (case (if krb5_is_tgs_principal rserver \<and> krb5_princ_size rserver = 2 \<and>
                       krb5_princ_component rserver 1 \<noteq> krb5_princ_component (realm_tgsprinc realm) 1
                    then find_alternate_tgs realm ap rserver (p_data rserver ! 1) else None) of
                Some r \<Rightarrow> Continue r
              | None \<Rightarrow> Errout KRB5KDC_ERR_S_PRINCIPAL_UNKNOWN ''UNKNOWN_SERVER'' []))"

section \<open>The new ticket\<close>

text \<open>
  The session key type.  With \<open>ENC_TKT_IN_SKEY\<close> the second ticket is decrypted first; its
  decrypted part is kept for later.
\<close>

definition tgs_second_ticket ::
  "kdc_realm \<Rightarrow> kdc_crypto \<Rightarrow> krb5_kdc_req \<Rightarrow> (krb5_enctype \<times> krb5_enc_tkt_part option) handler" where
  "tgs_second_ticket realm crypto request =
     (if isflagset (rq_kdc_options request) KDC_OPT_ENC_TKT_IN_SKEY then
        (case rq_second_ticket request of
           [] \<Rightarrow> Undefined
         | st # _ \<Rightarrow>
             bindH (tryH (kdc_get_server_key realm crypto st) ''2ND_TKT_SERVER'') (\<lambda>(st_sealing_key, st_srv_kvno).
             bindH (tryH (decrypt_tkt_part crypto st_sealing_key st) ''2ND_TKT_DECRYPT'') (\<lambda>st_part.
               let etype = kb_enctype (et_session st_part) in
               if \<not> valid_enctype etype then Errout KRB5KDC_ERR_ETYPE_NOSUPP ''BAD_ETYPE_IN_2ND_TKT'' []
               else Continue (if etype \<in> set (rq_ktype request) then etype else 0, Some st_part))))
      else Continue (0, None))"

definition tgs_session_key ::
  "kdc_crypto \<Rightarrow> krb5_kdc_req \<Rightarrow> krb5_db_entry \<Rightarrow> krb5_enctype \<Rightarrow> krb5_keyblock handler" where
  "tgs_session_key crypto request server useenctype =
     (let useenctype = (if useenctype = 0 then select_session_keytype server (rq_ktype request) else useenctype)
      in if useenctype = 0 then Errout KRB5KDC_ERR_ETYPE_NOSUPP ''BAD_ENCRYPTION_TYPE'' []
         else tryH (c_make_random_key crypto 0 useenctype) ''RANDOM_KEY_FAILED'')"

text \<open>The header ticket with its start time filled in.\<close>

definition fix_starttime :: "krb5_enc_tkt_part \<Rightarrow> krb5_enc_tkt_part" where
  "fix_starttime tkt =
     (if starttime (et_times tkt) = 0 then tkt\<lparr>et_times := (et_times tkt)\<lparr>starttime := authtime (et_times tkt)\<rparr>\<rparr> else tkt)"

definition tgs_flags :: "krb5_kdc_req \<Rightarrow> krb5_enc_tkt_part \<Rightarrow> flags" where
  "tgs_flags request header =
     (let opt = isflagset (rq_kdc_options request) in
      set_if (opt KDC_OPT_POSTDATED) TKT_FLG_INVALID (set_if (opt KDC_OPT_POSTDATED) TKT_FLG_POSTDATED
        (set_if (opt KDC_OPT_ALLOW_POSTDATE) TKT_FLG_MAY_POSTDATE (set_if (opt KDC_OPT_PROXY) TKT_FLG_PROXY
          (set_if (opt KDC_OPT_PROXIABLE) TKT_FLG_PROXIABLE
            (set_if (isflagset (et_flags header) TKT_FLG_FORWARDED) TKT_FLG_FORWARDED
              (set_if (opt KDC_OPT_FORWARDED) TKT_FLG_FORWARDED
                (set_if (opt KDC_OPT_FORWARDABLE) TKT_FLG_FORWARDABLE 0))))))))"

definition new_addresses :: "krb5_kdc_req \<Rightarrow> bool" where
  "new_addresses request \<longleftrightarrow>
     isflagset (rq_kdc_options request) KDC_OPT_FORWARDED \<or> isflagset (rq_kdc_options request) KDC_OPT_PROXY"

text \<open>
  The ticket as it is before its times are set: made from the options, or a copy of the header
  ticket when that is to be validated or renewed.
\<close>

definition tgs_draft :: "krb5_kdc_req \<Rightarrow> krb5_enc_tkt_part \<Rightarrow> krb5_timestamp \<Rightarrow> krb5_enc_tkt_part" where
  "tgs_draft request header kdc_time =
     (let opt = isflagset (rq_kdc_options request);
          made = header\<lparr>et_flags := tgs_flags request header,
                   et_caddrs := (if new_addresses request then rq_addresses request else et_caddrs header),
                   et_times := (et_times header)\<lparr>starttime :=
                     if opt KDC_OPT_POSTDATED then rq_from request else kdc_time\<rparr>\<rparr>;
          made = (if opt KDC_OPT_VALIDATE
                  then header\<lparr>et_flags := clearflag (et_flags header) TKT_FLG_INVALID\<rparr> else made)
      in if opt KDC_OPT_RENEW then header else made)"

definition tgs_endtime ::
  "kdc_realm \<Rightarrow> krb5_kdc_req \<Rightarrow> krb5_db_entry \<Rightarrow> krb5_enc_tkt_part \<Rightarrow> krb5_timestamp \<Rightarrow> krb5_timestamp" where
  "tgs_endtime realm request server header kdc_time =
     (if isflagset (rq_kdc_options request) KDC_OPT_RENEW then
        (let old_life = i32 (endtime (et_times header) - starttime (et_times header))
         in min (renew_till (et_times header)) (i32 (kdc_time + old_life)))
      else
        (let until = (if rq_till request = 0 then kdc_infinity else rq_till request)
         in min until (min (i32 (kdc_time + db_max_life server))
              (min (i32 (kdc_time + realm_maxlife realm)) (endtime (et_times header))))))"

definition tgs_renewable ::
  "kdc_realm \<Rightarrow> krb5_kdc_req \<Rightarrow> krb5_db_entry \<Rightarrow> krb5_enc_tkt_part \<Rightarrow> krb5_timestamp \<Rightarrow> krb5_kdc_req" where
  "tgs_renewable realm request server header kdc_time =
     (if \<not> isflagset (rq_kdc_options request) KDC_OPT_RENEW \<and>
         isflagset (rq_kdc_options request) KDC_OPT_RENEWABLE_OK \<and>
         tgs_endtime realm request server header kdc_time < rq_till request \<and>
         isflagset (et_flags header) TKT_FLG_RENEWABLE
      then request\<lparr>rq_kdc_options := setflag (rq_kdc_options request) KDC_OPT_RENEWABLE,
             rq_rtime := min (rq_till request) (renew_till (et_times header))\<rparr>
      else request)"

definition tgs_renew_till ::
  "kdc_realm \<Rightarrow> krb5_kdc_req \<Rightarrow> krb5_db_entry \<Rightarrow> krb5_enc_tkt_part \<Rightarrow> krb5_timestamp \<Rightarrow> krb5_timestamp" where
  "tgs_renew_till realm request server header kdc_time =
     (let rtime = (if rq_rtime request = 0 then kdc_infinity else rq_rtime request)
      in if isflagset (rq_kdc_options request) KDC_OPT_RENEWABLE
         then min rtime (min (renew_till (et_times header))
                (i32 (kdc_time + min (db_max_renewable_life server) (realm_maxrlife realm))))
         else 0)"

definition tgs_ticket ::
  "kdc_realm \<Rightarrow> krb5_kdc_req \<Rightarrow> krb5_db_entry \<Rightarrow> krb5_enc_tkt_part \<Rightarrow> krb5_timestamp \<Rightarrow> krb5_keyblock \<Rightarrow>
     krb5_enc_tkt_part" where
  "tgs_ticket realm request server header kdc_time session_key =
     (let draft = tgs_draft request header kdc_time;
          request' = tgs_renewable realm request server header kdc_time;
          auth = authtime (et_times header)
      in draft\<lparr>et_flags :=
             set_if (isflagset (et_flags header) TKT_FLG_HW_AUTH) TKT_FLG_HW_AUTH
               (set_if (isflagset (et_flags header) TKT_FLG_PRE_AUTH) TKT_FLG_PRE_AUTH
                 (set_if (isflagset (rq_kdc_options request') KDC_OPT_RENEWABLE) TKT_FLG_RENEWABLE (et_flags draft))),
           et_session := session_key,
           et_times := \<lparr>authtime = auth, starttime = (if kdc_time = auth then 0 else kdc_time),
             endtime = tgs_endtime realm request server header kdc_time,
             renew_till = tgs_renew_till realm request' server header kdc_time\<rparr>\<rparr>)"

definition KRB5_KEYUSAGE_TGS_REQ_AD_SESSKEY :: int where "KRB5_KEYUSAGE_TGS_REQ_AD_SESSKEY = 4"

definition tgs_authdata ::
  "kdc_crypto \<Rightarrow> kdc_codec \<Rightarrow> krb5_kdc_req \<Rightarrow> krb5_enc_tkt_part \<Rightarrow> krb5_authdata list option handler" where
  "tgs_authdata crypto codec request header =
     (case rq_authdata request of
        None \<Rightarrow> Continue (et_authdata header)
      | Some enc \<Rightarrow>
          bindH (tryH (c_decrypt crypto (et_session header) KRB5_KEYUSAGE_TGS_REQ_AD_SESSKEY enc) ''AUTH_ENCRYPT_FAIL'')
            (\<lambda>scratch. bindH (tryH (decode_authdata codec scratch) ''AUTH_DECODE'') (\<lambda>unenc_authdata.
               Continue (Some (concat_authorization_data (Some unenc_authdata) (et_authdata header))))))"

text \<open>
  The transited field.  A new field that does not fit the array allocated for it is written
  past its end.
\<close>

definition tgs_transited ::
  "kdc_realm \<Rightarrow> kdc_ap \<Rightarrow> krb5_principal \<Rightarrow> krb5_ticket \<Rightarrow> krb5_enc_tkt_part \<Rightarrow> krb5_transited handler" where
  "tgs_transited realm ap rserver header_ticket header =
     (if realm_compare (tk_server header_ticket) (realm_tgsprinc realm) \<or>
         realm_compare (tk_server header_ticket) (et_client header)
      then Continue (et_transited header)
      else if tr_type (et_transited header) \<noteq> KRB5_DOMAIN_X500_COMPRESS
      then Errout KRB5KDC_ERR_TRTYPE_NOSUPP ''BAD_TRTYPE'' []
      else
        let tgt_trans = tr_contents (et_transited header) in
        case add_to_transited (byte_below ap) tgt_trans (tk_server header_ticket) (et_client header) rserver of
          (errcode, new_trans, newlen) \<Rightarrow>
            if length new_trans + 1 > trans_alloc tgt_trans (tk_server header_ticket) then Undefined
            else if errcode \<noteq> 0 then Errout errcode ''ADD_TR_FAIL'' []
            else Continue \<lparr>tr_type = KRB5_DOMAIN_X500_COMPRESS, tr_contents = take newlen (new_trans @ [NUL])\<rparr>)"

definition tgs_encrypt ::
  "kdc_crypto \<Rightarrow> krb5_kdc_req \<Rightarrow> krb5_principal \<Rightarrow> krb5_principal \<Rightarrow> krb5_db_entry \<Rightarrow> krb5_enc_tkt_part option \<Rightarrow>
     krb5_enc_tkt_part \<Rightarrow> krb5_ticket handler" where
  "tgs_encrypt crypto request rserver tserver server second tkt =
     (case second of
        Some st_part \<Rightarrow>
          if \<not> krb5_principal_compare rserver (et_client st_part) then Errout KRB5KDC_ERR_SERVER_NOMATCH [] []
          else bindH (tryH (encrypt_tkt_part crypto (et_session st_part) tkt) ''2ND_TKT_ENCRYPT'') (\<lambda>enc.
                 Continue \<lparr>tk_server = tserver,
                   tk_enc_part = enc\<lparr>ed_kvno := 0\<rparr>, tk_enc_part2 = Some tkt\<rparr>)
      | None \<Rightarrow> encrypt_for_server crypto server tserver tkt ''TKT_ENCRYPT'')"

definition KRB5_TGS_REP :: int where "KRB5_TGS_REP = 13"

definition tgs_reply ::
  "kdc_codec \<Rightarrow> krb5_kdc_req \<Rightarrow> krb5_enc_tkt_part \<Rightarrow> krb5_keyblock option \<Rightarrow> krb5_ticket \<Rightarrow> krb5_enc_tkt_part \<Rightarrow>
     (krb5_kdc_rep \<times> krb5_enc_kdc_rep_part \<times> octet list) handler" where
  "tgs_reply codec request header subkey ticket_reply tkt =
     (let key = (case subkey of Some k \<Rightarrow> k | None \<Rightarrow> et_session header);
          reply = \<lparr>kr_msg_type = KRB5_TGS_REP, kr_padata = None, kr_client = et_client header,
            kr_ticket = ticket_reply, kr_enc_part_enctype = kb_enctype key\<rparr>;
          part = \<lparr>rp_session = et_session tkt, rp_last_req = nolrarray, rp_nonce = rq_nonce request,
            rp_key_exp = 0, rp_flags = et_flags tkt,
            rp_times = (et_times tkt)\<lparr>authtime := authtime (et_times header)\<rparr>, rp_server = tk_server ticket_reply,
            rp_caddrs = (if new_addresses request then rq_addresses request else None)\<rparr>
      in bindH (tryH (encode_kdc_rep codec part (subkey \<noteq> None) key reply) ''ENCODE_KDC_REP'') (\<lambda>response.
           Continue (reply, part, response)))"

text \<open>
  The exchange after the authentication of the request, up to the error exit.  \<open>header\<close> is the
  decrypted part of the presented ticket.
\<close>

definition tgs_issue ::
  "kdc_realm \<Rightarrow> kdc_crypto \<Rightarrow> kdc_codec \<Rightarrow> kdc_ap \<Rightarrow> krb5_kdc_req \<Rightarrow> krb5_principal \<Rightarrow> krb5_ticket \<Rightarrow>
     krb5_enc_tkt_part \<Rightarrow> krb5_keyblock option \<Rightarrow> (krb5_kdc_rep \<times> krb5_enc_kdc_rep_part \<times> octet list) handler" where
  "tgs_issue realm crypto codec ap request rserver header_ticket header subkey =
     bindH (tgs_find_server realm ap rserver) (\<lambda>(rserver, server).
     bindH (tryH (timeofday realm) ''TIME_OF_DAY'') (\<lambda>kdc_time.
     bindH (case validate_tgs_request request rserver (realm_tgsprinc realm) server header_ticket header kdc_time of
              Some (errcode, status) \<Rightarrow> Errout (errcode + ERROR_TABLE_BASE_krb5) status []
            | None \<Rightarrow> Continue ()) (\<lambda>_.
     bindH (tgs_second_ticket realm crypto request) (\<lambda>(useenctype, second).
     bindH (tgs_session_key crypto request server useenctype) (\<lambda>session_key.
       let header = fix_starttime header;
           tkt = tgs_ticket realm request server header kdc_time session_key;
           tserver = (if isflagset (rq_kdc_options request) KDC_OPT_VALIDATE \<or>
                         isflagset (rq_kdc_options request) KDC_OPT_RENEW
                      then tk_server header_ticket else rserver)
       in bindH (tgs_authdata crypto codec request header) (\<lambda>authdata.
          bindH (tgs_transited realm ap rserver header_ticket header) (\<lambda>transited.
            let tkt = tkt\<lparr>et_authdata := authdata, et_transited := transited\<rparr> in
            bindH (tgs_encrypt crypto request rserver tserver server second tkt) (\<lambda>ticket_reply.
              tgs_reply codec request header subkey ticket_reply tkt))))))))"

definition prepare_error_tgs ::
  "kdc_realm \<Rightarrow> kdc_codec \<Rightarrow> krb5_kdc_req \<Rightarrow> krb5_principal option \<Rightarrow> krb5_ticket option \<Rightarrow> int \<Rightarrow> (octet list) krb5_result" where
  "prepare_error_tgs realm codec request rserver ticket error =
     bindE (us_timeofday realm) (\<lambda>(stime, susec).
       mk_error codec \<lparr>er_ctime = rq_nonce request, er_cusec = 0, er_susec = susec, er_stime = stime,
         er_error = error,
         er_client = (case ticket of None \<Rightarrow> None | Some t \<Rightarrow> map_option et_client (tk_enc_part2 t)),
         er_server = rserver,
         er_text = error_message realm (error + ERROR_TABLE_BASE_krb5) @ [NUL], er_e_data = []\<rparr>)"

text \<open>
  The server the request names after the search for its entry: \<open>find_alternate_tgs\<close> puts the
  service it has found in the place of the requested one, and an error later on names that one.
\<close>

definition request_server :: "kdc_realm \<Rightarrow> kdc_ap \<Rightarrow> krb5_principal \<Rightarrow> krb5_principal" where
  "request_server realm ap rserver =
     (case tgs_find_server realm ap rserver of Continue (found, server) \<Rightarrow> found | _ \<Rightarrow> rserver)"

text \<open>
  The body of \<open>process_tgs_req\<close> behind the decoder: the names, the authentication, the exchange.
  A request without a server name is not caught: its null pointer is printed for the log.  With
  the result come the ticket and the server's name for an error message.
\<close>

definition tgs_exchange ::
  "kdc_realm \<Rightarrow> kdc_crypto \<Rightarrow> kdc_codec \<Rightarrow> kdc_ap \<Rightarrow> krb5_kdc_req \<Rightarrow> octet list \<Rightarrow>
     (krb5_kdc_rep \<times> krb5_enc_kdc_rep_part \<times> octet list) handler \<times> krb5_ticket option \<times> krb5_principal option" where
  "tgs_exchange realm crypto codec ap request pkt =
     (case rq_server request of
        None \<Rightarrow> (Undefined, None, None)
      | Some rserver \<Rightarrow>
          (case unparseH rserver of
             Continue sname \<Rightarrow>
               (case kdc_process_tgs_req realm crypto codec ap request pkt of
                  Done (errcode, Some ticket, subkey) \<Rightarrow>
                    (case tk_enc_part2 ticket of
                       Some header \<Rightarrow>
                         (bindH (unparseH (et_client header)) (\<lambda>cname.
                            if errcode \<noteq> 0 then Errout errcode ''PROCESS_TGS'' []
                            else tgs_issue realm crypto codec ap request rserver ticket header subkey), Some ticket,
                          Some (if errcode \<noteq> 0 then rserver else request_server realm ap rserver))
                     | None \<Rightarrow> (if errcode \<noteq> 0 then Errout errcode ''PROCESS_TGS'' [] else Undefined, Some ticket, Some rserver))
                | Done (errcode, None, subkey) \<Rightarrow>
                    (if errcode \<noteq> 0 then Errout errcode ''PROCESS_TGS'' []
                     else Errout KRB5_NO_TKT_SUPPLIED ''UNEXPECTED NULL in header_ticket'' [], None, Some rserver)
                | _ \<Rightarrow> (Undefined, None, Some rserver))
           | _ \<Rightarrow> (Undefined, None, Some rserver)))"

definition process_tgs_req ::
  "kdc_realm \<Rightarrow> kdc_crypto \<Rightarrow> kdc_codec \<Rightarrow> kdc_ap \<Rightarrow> octet list \<Rightarrow> (octet list) c_outcome" where
  "process_tgs_req realm crypto codec ap pkt =
     (case decode_tgs_req ap pkt of
        Inl retval \<Rightarrow> Error retval
      | Inr request \<Rightarrow>
          if setup_server_realm ap (rq_server request) \<noteq> 0
          then Error (setup_server_realm ap (rq_server request))
          else case tgs_exchange realm crypto codec ap request pkt of
              (Continue (reply, part, response), _) \<Rightarrow> Done response
            | (Errout errcode status e_data, ticket, rserver) \<Rightarrow>
                of_result (prepare_error_tgs realm codec request rserver ticket (protocol_error errcode))
            | (Undefined, _) \<Rightarrow> Out_of_bounds)"

section \<open>What an issued ticket went through\<close>

definition tgs_passed ::
  "kdc_realm \<Rightarrow> kdc_crypto \<Rightarrow> kdc_ap \<Rightarrow> krb5_kdc_req \<Rightarrow> krb5_principal \<Rightarrow> krb5_ticket \<Rightarrow> krb5_enc_tkt_part \<Rightarrow>
     krb5_kdc_rep \<Rightarrow> krb5_enc_kdc_rep_part \<Rightarrow> krb5_principal \<Rightarrow> krb5_db_entry \<Rightarrow> krb5_timestamp \<Rightarrow>
     krb5_enc_tkt_part option \<Rightarrow> krb5_enc_tkt_part \<Rightarrow> bool" where
  "tgs_passed realm crypto ap request rs header_ticket header rep part rserver server t second tkt \<longleftrightarrow>
     tgs_find_server realm ap rs = Continue (rserver, server) \<and> timeofday realm = Inr t \<and>
     validate_tgs_request request rserver (realm_tgsprinc realm) server header_ticket header t = None \<and>
     (\<exists>e. tgs_second_ticket realm crypto request = Continue (e, second)) \<and>
     (\<exists>key authdata transited. tkt = (tgs_ticket realm request server (fix_starttime header) t key)
            \<lparr>et_authdata := authdata, et_transited := transited\<rparr>) \<and>
     tk_enc_part2 (kr_ticket rep) = Some tkt \<and> rp_flags part = et_flags tkt \<and> rp_times part = et_times tkt \<and>
     rp_session part = et_session tkt \<and> kr_client rep = et_client header \<and>
     (\<forall>st. second = Some st \<longrightarrow> krb5_principal_compare rserver (et_client st) \<and>
        (\<exists>enc. encrypt_tkt_part crypto (et_session st) tkt = Inr enc \<and> tk_enc_part (kr_ticket rep) = enc\<lparr>ed_kvno := 0\<rparr>))"

lemma fix_starttime_same [simp]:
  "et_flags (fix_starttime tkt) = et_flags tkt" "et_client (fix_starttime tkt) = et_client tkt"
  "authtime (et_times (fix_starttime tkt)) = authtime (et_times tkt)"
  "endtime (et_times (fix_starttime tkt)) = endtime (et_times tkt)"
  "renew_till (et_times (fix_starttime tkt)) = renew_till (et_times tkt)"
  "et_caddrs (fix_starttime tkt) = et_caddrs tkt"
  by (simp_all add: fix_starttime_def)

lemma tgs_ticket_simps [simp]:
  "et_times (tgs_ticket realm request server header t key) =
     \<lparr>authtime = authtime (et_times header), starttime = (if t = authtime (et_times header) then 0 else t),
      endtime = tgs_endtime realm request server header t,
      renew_till = tgs_renew_till realm (tgs_renewable realm request server header t) server header t\<rparr>"
  "et_session (tgs_ticket realm request server header t key) = key"
  "et_client (tgs_ticket realm request server header t key) = et_client header"
  by (simp_all add: tgs_ticket_def tgs_draft_def Let_def)

lemma tgs_second_ticket_Continue:
  "tgs_second_ticket realm crypto request = Continue (e, second) \<Longrightarrow>
     (case second of None \<Rightarrow> \<not> isflagset (rq_kdc_options request) KDC_OPT_ENC_TKT_IN_SKEY
      | Some st_part \<Rightarrow> isflagset (rq_kdc_options request) KDC_OPT_ENC_TKT_IN_SKEY \<and>
          (\<exists>st rest key kvno. rq_second_ticket request = st # rest \<and>
             kdc_get_server_key realm crypto st = Inr (key, kvno) \<and> decrypt_tkt_part crypto key st = Inr st_part))"
  by (auto simp: tgs_second_ticket_def handler_continue Let_def split: if_splits list.splits option.splits)

lemma tgs_encrypt_Continue:
  "tgs_encrypt crypto request rserver tserver server second tkt = Continue ticket \<Longrightarrow>
     tk_enc_part2 ticket = Some tkt \<and>
     (\<forall>st. second = Some st \<longrightarrow> krb5_principal_compare rserver (et_client st) \<and>
          (\<exists>enc. encrypt_tkt_part crypto (et_session st) tkt = Inr enc \<and> tk_enc_part ticket = enc\<lparr>ed_kvno := 0\<rparr>))"
  by (auto simp: tgs_encrypt_def handler_continue dest: encrypt_for_server_Continue split: option.splits if_splits)

lemma tgs_reply_Continue:
  "tgs_reply codec request header subkey ticket tkt = Continue (rep, part, response) \<Longrightarrow>
     kr_ticket rep = ticket \<and> kr_client rep = et_client header \<and> rp_flags part = et_flags tkt \<and>
     rp_times part = (et_times tkt)\<lparr>authtime := authtime (et_times header)\<rparr> \<and> rp_session part = et_session tkt"
  by (auto simp: tgs_reply_def handler_continue Let_def)

lemma verdict_Continue:
  "(case v of None \<Rightarrow> Continue () | Some (errcode, status) \<Rightarrow> Errout (errcode + ERROR_TABLE_BASE_krb5) status []) = Continue u
     \<longleftrightarrow> v = None"
  by (auto split: option.splits)

lemma tgs_issue_passed:
  assumes "tgs_issue realm crypto codec ap request rs header_ticket header subkey = Continue (rep, part, response)"
  obtains rserver server t second tkt where
    "tgs_passed realm crypto ap request rs header_ticket header rep part rserver server t second tkt"
proof -
  from assms obtain rserver server t e second key authdata transited ticket where
    *: "tgs_find_server realm ap rs = Continue (rserver, server)" "timeofday realm = Inr t"
    "validate_tgs_request request rserver (realm_tgsprinc realm) server header_ticket header t = None"
    "tgs_second_ticket realm crypto request = Continue (e, second)"
    "tgs_encrypt crypto request rserver
       (if isflagset (rq_kdc_options request) KDC_OPT_VALIDATE \<or> isflagset (rq_kdc_options request) KDC_OPT_RENEW
        then tk_server header_ticket else rserver) server second
       ((tgs_ticket realm request server (fix_starttime header) t key)\<lparr>et_authdata := authdata, et_transited := transited\<rparr>) =
       Continue ticket"
    "tgs_reply codec request (fix_starttime header) subkey ticket
       ((tgs_ticket realm request server (fix_starttime header) t key)\<lparr>et_authdata := authdata, et_transited := transited\<rparr>) =
       Continue (rep, part, response)"
    unfolding tgs_issue_def Let_def by (auto simp: handler_continue verdict_Continue simp del: tgs_ticket_simps)
  have "tgs_passed realm crypto ap request rs header_ticket header rep part rserver server t second
      ((tgs_ticket realm request server (fix_starttime header) t key)\<lparr>et_authdata := authdata, et_transited := transited\<rparr>)"
    unfolding tgs_passed_def
    using *(1-4) tgs_encrypt_Continue [OF *(5)] tgs_reply_Continue [OF *(6)] by auto
  then show ?thesis by (rule that)
qed

lemma validate_tgs_request_None:
  assumes "validate_tgs_request request rserver tgs server ticket tkt t = None"
  shows "isflagset (rq_kdc_options request) KDC_OPT_FORWARDED \<or> isflagset (rq_kdc_options request) KDC_OPT_FORWARDABLE \<Longrightarrow>
      isflagset (et_flags tkt) TKT_FLG_FORWARDABLE"
    and "isflagset (rq_kdc_options request) KDC_OPT_PROXY \<or> isflagset (rq_kdc_options request) KDC_OPT_PROXIABLE \<Longrightarrow>
      isflagset (et_flags tkt) TKT_FLG_PROXIABLE"
    and "isflagset (rq_kdc_options request) KDC_OPT_ALLOW_POSTDATE \<or> isflagset (rq_kdc_options request) KDC_OPT_POSTDATED \<Longrightarrow>
      isflagset (et_flags tkt) TKT_FLG_MAY_POSTDATE"
    and "isflagset (rq_kdc_options request) KDC_OPT_RENEW \<or> isflagset (rq_kdc_options request) KDC_OPT_RENEWABLE \<Longrightarrow>
      isflagset (et_flags tkt) TKT_FLG_RENEWABLE"
    and "isflagset (rq_kdc_options request) KDC_OPT_RENEW \<Longrightarrow> t \<le> renew_till (et_times tkt)"
    and "isflagset (rq_kdc_options request) KDC_OPT_ENC_TKT_IN_SKEY \<Longrightarrow>
      krb5_principal_compare (tk_server (hd (rq_second_ticket request))) tgs"
  using assms
  unfolding validate_tgs_request_def verdict_else_None first_failure_None set_append ball_Un
    tgs_option_checks_def tgs_state_checks_def Let_def
  by (simp_all add: not_less)

end
