(* ===== verification/Kdc_Tickets.thy ===== *)
theory Kdc_Tickets
  imports Kdc_TGS
begin

text \<open>
  What the ticket-granting service guarantees of the tickets it issues: which flags, times and
  names a ticket takes from the one it was obtained with, user-to-user tickets, the
  authentication of the request, and what holds along any chain of exchanges.
\<close>

section \<open>Flags\<close>

text \<open>The flags that a ticket can only have when the ticket it was obtained with has them.\<close>

definition inherited_flags :: "flags set" where
  "inherited_flags = {TKT_FLG_FORWARDABLE, TKT_FLG_PROXIABLE, TKT_FLG_MAY_POSTDATE, TKT_FLG_RENEWABLE,
     TKT_FLG_INITIAL, TKT_FLG_PRE_AUTH, TKT_FLG_HW_AUTH}"

lemma isflagset_clearflag_mono: "isflagset (clearflag w f) g \<Longrightarrow> isflagset w g"
  by (auto simp: isflagset_def clearflag_def bit_eq_iff bit_simps)

lemmas isflagset_numeral = isflagset_def [of "numeral m" "numeral n" for m n]

lemma tgs_flags_bits:
  "isflagset (tgs_flags request header) TKT_FLG_FORWARDABLE \<longleftrightarrow> isflagset (rq_kdc_options request) KDC_OPT_FORWARDABLE"
  "isflagset (tgs_flags request header) TKT_FLG_PROXIABLE \<longleftrightarrow> isflagset (rq_kdc_options request) KDC_OPT_PROXIABLE"
  "isflagset (tgs_flags request header) TKT_FLG_MAY_POSTDATE \<longleftrightarrow>
     isflagset (rq_kdc_options request) KDC_OPT_ALLOW_POSTDATE"
  "isflagset (tgs_flags request header) TKT_FLG_INVALID \<longleftrightarrow> isflagset (rq_kdc_options request) KDC_OPT_POSTDATED"
  "isflagset (tgs_flags request header) TKT_FLG_POSTDATED \<longleftrightarrow> isflagset (rq_kdc_options request) KDC_OPT_POSTDATED"
  "isflagset (tgs_flags request header) TKT_FLG_FORWARDED \<longleftrightarrow>
     isflagset (rq_kdc_options request) KDC_OPT_FORWARDED \<or> isflagset (et_flags header) TKT_FLG_FORWARDED"
  "\<not> isflagset (tgs_flags request header) TKT_FLG_RENEWABLE" "\<not> isflagset (tgs_flags request header) TKT_FLG_INITIAL"
  "\<not> isflagset (tgs_flags request header) TKT_FLG_PRE_AUTH" "\<not> isflagset (tgs_flags request header) TKT_FLG_HW_AUTH"
  unfolding tgs_flags_def Let_def isflagset_set_if
  by (simp_all add: krb5_flags isflagset_numeral)

lemma tgs_draft_inherits:
  assumes "validate_tgs_request request rserver tgs server ticket header t = None"
    and "f \<in> inherited_flags" and "isflagset (et_flags (tgs_draft request (fix_starttime header) t)) f"
  shows "isflagset (et_flags header) f"
proof (cases "isflagset (rq_kdc_options request) KDC_OPT_RENEW \<or> isflagset (rq_kdc_options request) KDC_OPT_VALIDATE")
  case True
  then have "isflagset (et_flags header) f \<or> isflagset (clearflag (et_flags header) TKT_FLG_INVALID) f"
    using assms(3) by (simp add: tgs_draft_def Let_def split: if_splits)
  then show ?thesis using isflagset_clearflag_mono by blast
next
  case False
  then have made: "isflagset (tgs_flags request (fix_starttime header)) f"
    using assms(3) by (simp add: tgs_draft_def Let_def)
  note allowed = validate_tgs_request_None(1-3) [OF assms(1)]
  from assms(2) consider "f = TKT_FLG_FORWARDABLE" | "f = TKT_FLG_PROXIABLE" | "f = TKT_FLG_MAY_POSTDATE" |
      "f \<in> {TKT_FLG_RENEWABLE, TKT_FLG_INITIAL, TKT_FLG_PRE_AUTH, TKT_FLG_HW_AUTH}"
    unfolding inherited_flags_def by blast
  then show ?thesis
    using made allowed by cases (use tgs_flags_bits in blast)+
qed

lemma tgs_ticket_inherits:
  assumes "validate_tgs_request request rserver tgs server ticket header t = None"
    and "f \<in> inherited_flags" and "isflagset (et_flags (tgs_ticket realm request server (fix_starttime header) t key)) f"
  shows "isflagset (et_flags header) f"
proof -
  let ?r = "tgs_renewable realm request server (fix_starttime header) t"
  have renewable: "isflagset (rq_kdc_options ?r) KDC_OPT_RENEWABLE \<Longrightarrow> isflagset (et_flags header) TKT_FLG_RENEWABLE"
    using validate_tgs_request_None(4) [OF assms(1)] by (simp add: tgs_renewable_def split: if_splits)
  have only: "isflagset g f \<Longrightarrow> g \<in> {TKT_FLG_RENEWABLE, TKT_FLG_PRE_AUTH, TKT_FLG_HW_AUTH} \<Longrightarrow> f = g" for g
    using assms(2) by (auto simp: inherited_flags_def krb5_flags isflagset_numeral)
  from assms(3) consider "isflagset (et_flags (tgs_draft request (fix_starttime header) t)) f"
    | "isflagset (rq_kdc_options ?r) KDC_OPT_RENEWABLE" "isflagset TKT_FLG_RENEWABLE f"
    | "isflagset (et_flags header) TKT_FLG_PRE_AUTH" "isflagset TKT_FLG_PRE_AUTH f"
    | "isflagset (et_flags header) TKT_FLG_HW_AUTH" "isflagset TKT_FLG_HW_AUTH f"
    by (auto simp: tgs_ticket_def Let_def isflagset_set_if)
  then show ?thesis
  proof cases
    case 1
    then show ?thesis by (rule tgs_draft_inherits [OF assms(1,2)])
  next
    case 2
    then show ?thesis using renewable only [of TKT_FLG_RENEWABLE] by simp
  next
    case 3
    then show ?thesis using only [of TKT_FLG_PRE_AUTH] by simp
  next
    case 4
    then show ?thesis using only [of TKT_FLG_HW_AUTH] by simp
  qed
qed

lemma tgs_draft_forwarded:
  assumes "isflagset (et_flags header) TKT_FLG_FORWARDED"
  shows "isflagset (et_flags (tgs_draft request (fix_starttime header) t)) TKT_FLG_FORWARDED"
proof -
  have "\<not> isflagset TKT_FLG_INVALID TKT_FLG_FORWARDED" by (simp add: krb5_flags isflagset_numeral)
  then have "isflagset (clearflag (et_flags header) TKT_FLG_INVALID) TKT_FLG_FORWARDED"
    using assms by (simp add: isflagset_clearflag_other)
  then show ?thesis using assms by (simp add: tgs_draft_def Let_def tgs_flags_bits)
qed

lemma tgs_ticket_keeps:
  assumes "f \<in> {TKT_FLG_PRE_AUTH, TKT_FLG_HW_AUTH, TKT_FLG_FORWARDED}" and "isflagset (et_flags header) f"
  shows "isflagset (et_flags (tgs_ticket realm request server (fix_starttime header) t key)) f"
proof -
  have same: "isflagset TKT_FLG_PRE_AUTH TKT_FLG_PRE_AUTH" "isflagset TKT_FLG_HW_AUTH TKT_FLG_HW_AUTH"
    by (simp_all add: krb5_flags isflagset_numeral)
  from assms(1) consider "f = TKT_FLG_PRE_AUTH" | "f = TKT_FLG_HW_AUTH" | "f = TKT_FLG_FORWARDED" by blast
  then show ?thesis
    using assms(2) tgs_draft_forwarded [of header request t] same
    by cases (simp_all add: tgs_ticket_def Let_def isflagset_set_if)
qed

section \<open>One exchange\<close>

lemma tgs_issue_ticket:
  assumes "tgs_issue realm crypto codec ap request rs header_ticket header subkey = Continue (rep, part, response)"
    and "tk_enc_part2 (kr_ticket rep) = Some tkt"
  obtains rserver server t key where "timeofday realm = Inr t"
    "validate_tgs_request request rserver (realm_tgsprinc realm) server header_ticket header t = None"
    "et_flags tkt = et_flags (tgs_ticket realm request server (fix_starttime header) t key)"
    "et_times tkt = et_times (tgs_ticket realm request server (fix_starttime header) t key)"
    "et_client tkt = et_client header"
proof -
  obtain rserver server t second tkt' where
    p: "tgs_passed realm crypto ap request rs header_ticket header rep part rserver server t second tkt'"
    by (rule tgs_issue_passed [OF assms(1)])
  then have "tkt' = tkt" using assms(2) by (simp add: tgs_passed_def)
  with p obtain key authdata transited where
    "timeofday realm = Inr t"
    "validate_tgs_request request rserver (realm_tgsprinc realm) server header_ticket header t = None"
    "tkt = (tgs_ticket realm request server (fix_starttime header) t key)
       \<lparr>et_authdata := authdata, et_transited := transited\<rparr>"
    unfolding tgs_passed_def by blast
  then show ?thesis by (intro that [of t rserver server key]) simp_all
qed

lemma tgs_renew_till_bound:
  "tgs_renew_till realm request server header t = 0 \<or>
     tgs_renew_till realm request server header t \<le> renew_till (et_times header)"
  by (simp add: tgs_renew_till_def Let_def min.coboundedI1 min.coboundedI2)

lemma tgs_endtime_bound:
  "tgs_endtime realm request server header t \<le>
     (if isflagset (rq_kdc_options request) KDC_OPT_RENEW then renew_till (et_times header) else endtime (et_times header))"
  by (simp add: tgs_endtime_def Let_def min.coboundedI2)

text \<open>The relation of a ticket to the one it was obtained with.\<close>

definition weaker_ticket :: "krb5_enc_tkt_part \<Rightarrow> krb5_enc_tkt_part \<Rightarrow> bool" where
  "weaker_ticket tkt header \<longleftrightarrow>
     et_client tkt = et_client header \<and> authtime (et_times tkt) = authtime (et_times header) \<and>
     (\<forall>f \<in> inherited_flags. isflagset (et_flags tkt) f \<longrightarrow> isflagset (et_flags header) f) \<and>
     (\<forall>f \<in> {TKT_FLG_PRE_AUTH, TKT_FLG_HW_AUTH, TKT_FLG_FORWARDED}.
        isflagset (et_flags header) f \<longrightarrow> isflagset (et_flags tkt) f) \<and>
     renew_till (et_times tkt) \<le> max 0 (renew_till (et_times header)) \<and>
     (endtime (et_times tkt) \<le> endtime (et_times header) \<or>
      isflagset (et_flags header) TKT_FLG_RENEWABLE \<and> endtime (et_times tkt) \<le> max 0 (renew_till (et_times header)))"

lemma weaker_ticket_refl: "weaker_ticket tkt tkt"
  by (simp add: weaker_ticket_def)

lemma weaker_ticket_renewable:
  "weaker_ticket tkt header \<Longrightarrow> isflagset (et_flags tkt) TKT_FLG_RENEWABLE \<Longrightarrow>
     isflagset (et_flags header) TKT_FLG_RENEWABLE"
  by (simp add: weaker_ticket_def inherited_flags_def)

lemma weaker_ticket_trans:
  assumes "weaker_ticket a b" "weaker_ticket b c"
  shows "weaker_ticket a c"
proof -
  note renewable = weaker_ticket_renewable [OF assms(2)]
  have "endtime (et_times a) \<le> endtime (et_times c) \<or>
      isflagset (et_flags c) TKT_FLG_RENEWABLE \<and> endtime (et_times a) \<le> max 0 (renew_till (et_times c))"
    using assms renewable unfolding weaker_ticket_def by (elim conjE) linarith
  moreover have "renew_till (et_times a) \<le> max 0 (renew_till (et_times c))"
    using assms unfolding weaker_ticket_def by linarith
  ultimately show ?thesis
    using assms unfolding weaker_ticket_def by simp
qed

lemma tgs_issue_weaker:
  assumes "tgs_issue realm crypto codec ap request rs header_ticket header subkey = Continue (rep, part, response)"
    and "tk_enc_part2 (kr_ticket rep) = Some tkt"
  shows "weaker_ticket tkt header"
proof -
  obtain rserver server t key where
    v: "validate_tgs_request request rserver (realm_tgsprinc realm) server header_ticket header t = None" and
    flags: "et_flags tkt = et_flags (tgs_ticket realm request server (fix_starttime header) t key)" and
    times: "et_times tkt = et_times (tgs_ticket realm request server (fix_starttime header) t key)" and
    client: "et_client tkt = et_client header"
    by (rule tgs_issue_ticket [OF assms])
  note renew = validate_tgs_request_None(4) [OF v, OF disjI1]
  have "endtime (et_times tkt) \<le> (if isflagset (rq_kdc_options request) KDC_OPT_RENEW
      then renew_till (et_times header) else endtime (et_times header))"
    using tgs_endtime_bound [of realm request server "fix_starttime header" t] unfolding fix_starttime_same
    by (simp add: times)
  then have "endtime (et_times tkt) \<le> endtime (et_times header) \<or>
      isflagset (et_flags header) TKT_FLG_RENEWABLE \<and> endtime (et_times tkt) \<le> max 0 (renew_till (et_times header))"
    using renew by (auto split: if_splits)
  moreover have "renew_till (et_times tkt) \<le> max 0 (renew_till (et_times header))"
    using tgs_renew_till_bound [of realm "tgs_renewable realm request server (fix_starttime header) t" server
        "fix_starttime header" t] by (auto simp: times)
  moreover have "authtime (et_times tkt) = authtime (et_times header)" by (simp add: times)
  ultimately show ?thesis
    unfolding weaker_ticket_def flags
    using client tgs_ticket_inherits [OF v] tgs_ticket_keeps by blast
qed

section \<open>Chains of exchanges\<close>

text \<open>
  The tickets that can be had from one ticket: each step is an exchange of a ticket-granting
  service with any realm data, services, request and further arguments.
\<close>

inductive descends :: "krb5_enc_tkt_part \<Rightarrow> krb5_enc_tkt_part \<Rightarrow> bool" for origin where
  descends_origin: "descends origin origin"
| descends_exchange: "descends origin header \<Longrightarrow>
    tgs_issue realm crypto codec ap request rs header_ticket header subkey = Continue (rep, part, response) \<Longrightarrow>
    tk_enc_part2 (kr_ticket rep) = Some tkt \<Longrightarrow> descends origin tkt"

lemma descends_weaker: "descends origin tkt \<Longrightarrow> weaker_ticket tkt origin"
  by (induction rule: descends.induct) (blast intro: weaker_ticket_refl weaker_ticket_trans tgs_issue_weaker)+

section \<open>A concrete environment\<close>

definition sample_header :: krb5_enc_tkt_part where
  "sample_header = sample_tkt_part (setflag (setflag TKT_FLG_FORWARDABLE TKT_FLG_RENEWABLE) TKT_FLG_PRE_AUTH)"

definition sample_authenticator :: "octet list \<Rightarrow> krb5_authenticator" where
  "sample_authenticator cksum =
     \<lparr>au_client = sample_client, au_checksum = Some \<lparr>checksum_type = 7, cksum_contents = cksum\<rparr>, au_cusec = 0,
      au_ctime = 1000000, au_subkey = None, au_seq_number = 0, au_authorization_data = None\<rparr>"

definition sample_ap :: "octet list \<Rightarrow> kdc_ap" where
  "sample_ap cksum =
     \<lparr>rd_req_decoded_anyflag = (\<lambda>n apreq. Inr (sample_header, sample_authenticator cksum)),
      kdc_initialize_rcache = 0, decode_tgs_req = (\<lambda>pkt. Inr (sample_kdc_req sample_client KDC_OPT_FORWARDABLE)),
      setup_server_realm = (\<lambda>p. 0), capaths = (\<lambda>c s. None), byte_below = NUL\<rparr>"

definition sample_tgs_reply :: "flags \<Rightarrow> (krb5_kdc_rep \<times> krb5_enc_kdc_rep_part \<times> octet list) handler" where
  "sample_tgs_reply options =
     tgs_issue (sample_realm 0) sample_crypto sample_codec (sample_ap [])
       ((sample_kdc_req sample_client options)\<lparr>rq_second_ticket := [sample_ticket 0]\<rparr>) sample_client (sample_ticket 0)
       sample_header None"

lemma sample_tgs_issued:
  assumes "continued (sample_tgs_reply options)"
  obtains rep part response tkt where
    "tgs_issue (sample_realm 0) sample_crypto sample_codec (sample_ap [])
       ((sample_kdc_req sample_client options)\<lparr>rq_second_ticket := [sample_ticket 0]\<rparr>) sample_client (sample_ticket 0)
       sample_header None = Continue (rep, part, response)"
    "tk_enc_part2 (kr_ticket rep) = Some tkt" "rp_flags part = et_flags tkt"
proof -
  from assms obtain r where r: "sample_tgs_reply options = Continue r" by (rule continuedE)
  obtain rep part response where "r = (rep, part, response)" by (cases r)
  note issued = r [unfolded sample_tgs_reply_def this]
  from tgs_issue_passed [OF issued] obtain tkt where
    "tk_enc_part2 (kr_ticket rep) = Some tkt" "rp_flags part = et_flags tkt"
    unfolding tgs_passed_def by blast
  then show ?thesis by (rule that [OF issued])
qed

section \<open>Properties\<close>

text \<open>
  C3. What holds along any chain of exchanges that starts with one ticket, in any realms: the
  client and the time of authentication stay those of the first ticket; the flags
  \<open>FORWARDABLE\<close>, \<open>PROXIABLE\<close>, \<open>MAY_POSTDATE\<close>, \<open>RENEWABLE\<close>, \<open>INITIAL\<close>, \<open>PRE_AUTH\<close> and \<open>HW_AUTH\<close> are
  never gained, and the latter two and \<open>FORWARDED\<close> never lost; no ticket outlives the first one,
  or its renew time when the first one is renewable.
\<close>

theorem chain_keeps_limits:
  assumes "descends origin tkt"
  shows "et_client tkt = et_client origin \<and> authtime (et_times tkt) = authtime (et_times origin) \<and>
    (\<forall>f \<in> {TKT_FLG_FORWARDABLE, TKT_FLG_PROXIABLE, TKT_FLG_MAY_POSTDATE, TKT_FLG_RENEWABLE, TKT_FLG_INITIAL}.
       isflagset (et_flags tkt) f \<longrightarrow> isflagset (et_flags origin) f) \<and>
    (\<forall>f \<in> {TKT_FLG_PRE_AUTH, TKT_FLG_HW_AUTH}. isflagset (et_flags tkt) f \<longleftrightarrow> isflagset (et_flags origin) f) \<and>
    (isflagset (et_flags origin) TKT_FLG_FORWARDED \<longrightarrow> isflagset (et_flags tkt) TKT_FLG_FORWARDED) \<and>
    renew_till (et_times tkt) \<le> max 0 (renew_till (et_times origin)) \<and>
    endtime (et_times tkt) \<le> (if isflagset (et_flags origin) TKT_FLG_RENEWABLE
      then max (endtime (et_times origin)) (max 0 (renew_till (et_times origin))) else endtime (et_times origin))"
proof -
  note w = descends_weaker [OF assms, unfolded weaker_ticket_def]
  have "endtime (et_times tkt) \<le> (if isflagset (et_flags origin) TKT_FLG_RENEWABLE
      then max (endtime (et_times origin)) (max 0 (renew_till (et_times origin))) else endtime (et_times origin))"
    using w by auto
  moreover have "\<forall>f \<in> {TKT_FLG_PRE_AUTH, TKT_FLG_HW_AUTH}. isflagset (et_flags tkt) f \<longleftrightarrow> isflagset (et_flags origin) f"
    using w unfolding inherited_flags_def by blast
  ultimately show ?thesis using w by (simp add: inherited_flags_def)
qed

theorem chain_keeps_limits_witness:
  "\<exists>tkt. descends sample_header tkt \<and> tkt \<noteq> sample_header \<and> et_client tkt = sample_client"
proof -
  have "continued (sample_tgs_reply KDC_OPT_FORWARDABLE)"
    "\<not> issued_with TKT_FLG_RENEWABLE (sample_tgs_reply KDC_OPT_FORWARDABLE)"
    "isflagset (et_flags sample_header) TKT_FLG_RENEWABLE"
    by code_simp+
  note facts = this
  from facts(1) obtain rep part response tkt where
    r: "tgs_issue (sample_realm 0) sample_crypto sample_codec (sample_ap [])
      ((sample_kdc_req sample_client KDC_OPT_FORWARDABLE)\<lparr>rq_second_ticket := [sample_ticket 0]\<rparr>) sample_client
      (sample_ticket 0) sample_header None = Continue (rep, part, response)" and
    t: "tk_enc_part2 (kr_ticket rep) = Some tkt" "rp_flags part = et_flags tkt"
    by (rule sample_tgs_issued)
  have "descends sample_header tkt" by (rule descends_exchange [OF descends_origin r t(1)])
  moreover have "tkt \<noteq> sample_header"
    using facts(2,3) t(2) r by (auto simp: issued_with_def sample_tgs_reply_def)
  moreover have "et_client tkt = et_client sample_header"
    using chain_keeps_limits [OF calculation(1)] by blast
  ultimately show ?thesis by (auto simp: sample_header_def sample_tkt_part_def)
qed

text \<open>
  C29. User-to-user exchanges: a ticket issued with the option \<open>ENC_TKT_IN_SKEY\<close> is encrypted in
  the session key of the second ticket of the request, which is a ticket for this
  ticket-granting service, decrypts with that service's key, and belongs to the principal
  that the new ticket is for; its key version is 0.
\<close>

theorem user_to_user_ticket:
  assumes "tgs_issue realm crypto codec ap request rs header_ticket header subkey = Continue (rep, part, response)"
    and "isflagset (rq_kdc_options request) KDC_OPT_ENC_TKT_IN_SKEY"
  shows "\<exists>st rest key kvno st_part tkt enc rserver server. rq_second_ticket request = st # rest \<and>
    krb5_principal_compare (tk_server st) (realm_tgsprinc realm) \<and>
    kdc_get_server_key realm crypto st = Inr (key, kvno) \<and> decrypt_tkt_part crypto key st = Inr st_part \<and>
    tgs_find_server realm ap rs = Continue (rserver, server) \<and> krb5_principal_compare rserver (et_client st_part) \<and>
    tk_enc_part2 (kr_ticket rep) = Some tkt \<and> encrypt_tkt_part crypto (et_session st_part) tkt = Inr enc \<and>
    tk_enc_part (kr_ticket rep) = enc\<lparr>ed_kvno := 0\<rparr>"
proof -
  obtain rserver server t second tkt where
    p: "tgs_passed realm crypto ap request rs header_ticket header rep part rserver server t second tkt"
    by (rule tgs_issue_passed [OF assms(1)])
  then obtain e where e: "tgs_second_ticket realm crypto request = Continue (e, second)"
    unfolding tgs_passed_def by blast
  with assms(2) obtain st_part st rest key kvno where
    second: "second = Some st_part" "rq_second_ticket request = st # rest"
      "kdc_get_server_key realm crypto st = Inr (key, kvno)" "decrypt_tkt_part crypto key st = Inr st_part"
    by (auto dest!: tgs_second_ticket_Continue split: option.splits)
  have "validate_tgs_request request rserver (realm_tgsprinc realm) server header_ticket header t = None"
    using p unfolding tgs_passed_def by blast
  from validate_tgs_request_None(6) [OF this assms(2)] have "krb5_principal_compare (tk_server st) (realm_tgsprinc realm)"
    by (simp add: second(2))
  then show ?thesis
    using p second unfolding tgs_passed_def by blast
qed

theorem user_to_user_ticket_witness:
  "\<exists>rep part response. sample_tgs_reply KDC_OPT_ENC_TKT_IN_SKEY = Continue (rep, part, response) \<and>
     ed_kvno (tk_enc_part (kr_ticket rep)) = 0"
proof -
  have "continued (sample_tgs_reply KDC_OPT_ENC_TKT_IN_SKEY)" by code_simp
  then obtain rep part response tkt where
    r: "tgs_issue (sample_realm 0) sample_crypto sample_codec (sample_ap [])
      ((sample_kdc_req sample_client KDC_OPT_ENC_TKT_IN_SKEY)\<lparr>rq_second_ticket := [sample_ticket 0]\<rparr>) sample_client
      (sample_ticket 0) sample_header None = Continue (rep, part, response)"
    by (rule sample_tgs_issued)
  moreover have "isflagset (rq_kdc_options ((sample_kdc_req sample_client KDC_OPT_ENC_TKT_IN_SKEY)
      \<lparr>rq_second_ticket := [sample_ticket 0]\<rparr>)) KDC_OPT_ENC_TKT_IN_SKEY"
    by code_simp
  from user_to_user_ticket [OF r this] have "ed_kvno (tk_enc_part (kr_ticket rep)) = 0" by auto
  ultimately show ?thesis by (auto simp: sample_tgs_reply_def)
qed

lemma comp_cksum_0:
  assumes "comp_cksum crypto body tkt cksum = 0"
    and "\<forall>key usage bytes ck. c_verify_checksum crypto key usage bytes ck \<noteq> Inl 0"
  shows "is_coll_proof_cksum crypto (checksum_type cksum) \<and>
    c_verify_checksum crypto (et_session tkt) KRB5_KEYUSAGE_TGS_REQ_AUTH_CKSUM body cksum = Inr True"
  using assms by (auto simp: comp_cksum_def krb5_errs split: if_splits sum.splits)

lemma check_body_0:
  assumes "check_body crypto codec request pkt tkt cksum = Done 0"
    and "\<forall>key usage bytes ck. c_verify_checksum crypto key usage bytes ck \<noteq> Inl 0"
    and "encode_kdc_req_body codec request \<noteq> Inl 0"
  shows "(\<exists>e. fetch_asn1_field pkt 1 4 = Error e) \<or>
    (\<exists>body. ((\<exists>f. fetch_asn1_field pkt 1 4 = Done f \<and> field_bytes pkt f = Done body) \<or>
             encode_kdc_req_body codec request = Inr body) \<and> comp_cksum crypto body tkt cksum = 0)"
  using assms(1,3) unfolding check_body_def
  by (auto simp: bindO_eq_Done split: c_outcome.splits if_splits sum.splits)

lemma check_header_0:
  assumes "check_header realm crypto codec request pkt ticket header authenticator = Done (0, Some ticket', subkey)"
  shows "\<exists>cksum. ticket' = ticket\<lparr>tk_enc_part2 := Some header\<rparr> \<and> au_checksum authenticator = Some cksum \<and>
    (isflagset (et_flags header) TKT_FLG_INVALID \<longrightarrow> isflagset (rq_kdc_options request) KDC_OPT_VALIDATE) \<and>
    (p_realm (tk_server ticket) = p_realm (realm_tgsprinc realm) \<or>
     p_realm (et_client header) \<noteq> p_realm (realm_tgsprinc realm)) \<and>
    check_body crypto codec request pkt header cksum = Done 0"
  using assms unfolding check_header_def Let_def
  by (auto simp: bindO_eq_Done krb5_errs split: option.splits if_splits)

lemma found_in_list: "find P xs = Some x \<Longrightarrow> x \<in> set xs \<and> P x"
  by (auto simp: find_Some_iff)

lemma kdc_process_tgs_req_0:
  assumes "kdc_process_tgs_req realm crypto codec ap request pkt = Done (0, Some ticket, subkey)"
  obtains pas pa apreq n header authenticator where "rq_padata request = Some pas" "pa \<in> set pas"
    "pa_type pa = KRB5_PADATA_AP_REQ" "decode_ap_req codec (pa_contents pa) = Inr apreq"
    "rd_req_decoded_anyflag ap n apreq = Inr (header, authenticator)"
    "check_header realm crypto codec request pkt (ap_ticket apreq) header authenticator = Done (0, Some ticket, subkey)"
  using assms unfolding kdc_process_tgs_req_def
  by (auto dest!: found_in_list split: option.splits sum.splits if_splits prod.splits; blast)

text \<open>
  C8. A request accepted by \<open>kdc_process_tgs_req\<close> carries an authentication request whose ticket
  and authenticator were read; the ticket is valid unless the request asks for its validation,
  a ticket of another realm's ticket-granting service is not for a client of the local realm,
  and the authenticator has a checksum: unless no request body is found in the packet, this
  is of a collision-proof type and verifies with the session key of the ticket, over the body
  as received or as encoded again.
\<close>

theorem tgs_request_authenticated:
  assumes "kdc_process_tgs_req realm crypto codec ap request pkt = Done (0, Some ticket, subkey)"
    and "\<forall>key usage bytes ck. c_verify_checksum crypto key usage bytes ck \<noteq> Inl 0"
    and "encode_kdc_req_body codec request \<noteq> Inl 0"
  shows "\<exists>pas pa apreq n header authenticator cksum. rq_padata request = Some pas \<and> pa \<in> set pas \<and>
    pa_type pa = KRB5_PADATA_AP_REQ \<and> decode_ap_req codec (pa_contents pa) = Inr apreq \<and>
    rd_req_decoded_anyflag ap n apreq = Inr (header, authenticator) \<and> tk_enc_part2 ticket = Some header \<and>
    tk_server ticket = tk_server (ap_ticket apreq) \<and> au_checksum authenticator = Some cksum \<and>
    (isflagset (et_flags header) TKT_FLG_INVALID \<longrightarrow> isflagset (rq_kdc_options request) KDC_OPT_VALIDATE) \<and>
    (p_realm (tk_server ticket) = p_realm (realm_tgsprinc realm) \<or>
     p_realm (et_client header) \<noteq> p_realm (realm_tgsprinc realm)) \<and>
    ((\<exists>e. fetch_asn1_field pkt 1 4 = Error e) \<or>
     (\<exists>body. ((\<exists>f. fetch_asn1_field pkt 1 4 = Done f \<and> field_bytes pkt f = Done body) \<or>
             encode_kdc_req_body codec request = Inr body) \<and>
        is_coll_proof_cksum crypto (checksum_type cksum) \<and>
        c_verify_checksum crypto (et_session header) KRB5_KEYUSAGE_TGS_REQ_AUTH_CKSUM body cksum = Inr True))"
proof -
  obtain pas pa apreq n header authenticator where
    found: "rq_padata request = Some pas" "pa \<in> set pas" "pa_type pa = KRB5_PADATA_AP_REQ"
      "decode_ap_req codec (pa_contents pa) = Inr apreq" "rd_req_decoded_anyflag ap n apreq = Inr (header, authenticator)" and
    checked: "check_header realm crypto codec request pkt (ap_ticket apreq) header authenticator =
      Done (0, Some ticket, subkey)"
    by (rule kdc_process_tgs_req_0 [OF assms(1)])
  obtain cksum where
    c: "ticket = (ap_ticket apreq)\<lparr>tk_enc_part2 := Some header\<rparr>" "au_checksum authenticator = Some cksum"
      "isflagset (et_flags header) TKT_FLG_INVALID \<longrightarrow> isflagset (rq_kdc_options request) KDC_OPT_VALIDATE"
      "p_realm (tk_server (ap_ticket apreq)) = p_realm (realm_tgsprinc realm) \<or>
       p_realm (et_client header) \<noteq> p_realm (realm_tgsprinc realm)" and
    body: "check_body crypto codec request pkt header cksum = Done 0"
    using check_header_0 [OF checked] by blast
  have "(\<exists>e. fetch_asn1_field pkt 1 4 = Error e) \<or>
     (\<exists>body. ((\<exists>f. fetch_asn1_field pkt 1 4 = Done f \<and> field_bytes pkt f = Done body) \<or>
             encode_kdc_req_body codec request = Inr body) \<and>
        is_coll_proof_cksum crypto (checksum_type cksum) \<and>
        c_verify_checksum crypto (et_session header) KRB5_KEYUSAGE_TGS_REQ_AUTH_CKSUM body cksum = Inr True)"
    using check_body_0 [OF body assms(2,3)] comp_cksum_0 [OF _ assms(2)] by blast
  then show ?thesis
    using found c by (intro exI [of _ pas] exI [of _ pa] exI [of _ apreq] exI [of _ n] exI [of _ header]
        exI [of _ authenticator] exI [of _ cksum]) simp
qed

definition sample_tgs_auth_req :: krb5_kdc_req where
  "sample_tgs_auth_req = (sample_kdc_req sample_client KDC_OPT_FORWARDABLE)
     \<lparr>rq_padata := Some [\<lparr>pa_type = KRB5_PADATA_AP_REQ, pa_contents = []\<rparr>]\<rparr>"

text \<open>A packet with the fields 1 to 4 of a request, the length of the whole encoded in \<open>len\<close>.\<close>

definition sample_tgs_packet :: "octet list \<Rightarrow> octet list" where
  "sample_tgs_packet len = 0x6c # len @ [0x30, 15, 0xa1, 3, 2, 1, 5, 0xa2, 3, 2, 1, 12, 0xa4, 3, 2, 1, 9]"

definition accepts_request :: "octet list \<Rightarrow> octet list \<Rightarrow> bool" where
  "accepts_request cksum pkt =
     (case kdc_process_tgs_req (sample_realm 0) sample_crypto sample_codec (sample_ap cksum) sample_tgs_auth_req pkt of
        Done (retval, Some ticket, subkey) \<Rightarrow> retval = 0
      | _ \<Rightarrow> False)"

theorem tgs_request_authenticated_witness:
  "\<exists>ticket header subkey. kdc_process_tgs_req (sample_realm 0) sample_crypto sample_codec (sample_ap [2, 1, 9])
     sample_tgs_auth_req (sample_tgs_packet [17]) = Done (0, Some ticket, subkey) \<and> tk_enc_part2 ticket = Some header"
proof -
  have "accepts_request [2, 1, 9] (sample_tgs_packet [17])" by code_simp
  then obtain ticket subkey where
    "kdc_process_tgs_req (sample_realm 0) sample_crypto sample_codec (sample_ap [2, 1, 9])
       sample_tgs_auth_req (sample_tgs_packet [17]) = Done (0, Some ticket, subkey)"
    unfolding accepts_request_def by (auto split: c_outcome.splits option.splits prod.splits)
  moreover have "\<exists>header. tk_enc_part2 ticket = Some header"
    using tgs_request_authenticated [OF calculation] by (auto simp: sample_crypto_def sample_codec_def)
  ultimately show ?thesis by blast
qed

text \<open>
  C38. When the length of the whole request is written with four octets, no body is found in the
  packet and the checksum is not looked at, whatever it is: a request with a wrong checksum
  is accepted, which is refused when its length is written with one octet.
\<close>

theorem checksum_skipped:
  "check_body crypto codec request (tag # 0x84 # rest) header cksum = Done 0 \<and>
   accepts_request [0] (sample_tgs_packet [0x84, 0, 0, 0, 17]) \<and> \<not> accepts_request [0] (sample_tgs_packet [17])"
proof -
  have "fetch_asn1_field (tag # 0x84 # rest) 1 4 = Error (-1)"
    by (simp add: fetch_asn1_field_def asn1length_def byte_at_def)
  moreover have "accepts_request [0] (sample_tgs_packet [0x84, 0, 0, 0, 17])"
    "\<not> accepts_request [0] (sample_tgs_packet [17])"
    by code_simp+
  ultimately show ?thesis by (simp add: check_body_def)
qed

text \<open>
  A postdated ticket of the ticket-granting service is not postdated: with the option
  \<open>POSTDATED\<close>, and neither \<open>RENEW\<close> nor \<open>VALIDATE\<close>, the ticket is marked as postdated and invalid,
  but it starts at the KDC's time (a start of 0 stands for the time of authentication)
  whatever start the request asks for.
\<close>

theorem tgs_postdated_starts_now:
  assumes "tgs_issue realm crypto codec ap request rs header_ticket header subkey = Continue (rep, part, response)"
    and "isflagset (rq_kdc_options request) KDC_OPT_POSTDATED"
    and "\<not> isflagset (rq_kdc_options request) KDC_OPT_RENEW" "\<not> isflagset (rq_kdc_options request) KDC_OPT_VALIDATE"
  shows "\<exists>tkt t. tk_enc_part2 (kr_ticket rep) = Some tkt \<and> timeofday realm = Inr t \<and>
    isflagset (et_flags tkt) TKT_FLG_POSTDATED \<and> isflagset (et_flags tkt) TKT_FLG_INVALID \<and>
    starttime (et_times tkt) = (if t = authtime (et_times tkt) then 0 else t)"
proof -
  obtain tkt where tkt: "tk_enc_part2 (kr_ticket rep) = Some tkt"
    using tgs_issue_passed [OF assms(1)] unfolding tgs_passed_def by blast
  obtain rserver server t key where
    t: "timeofday realm = Inr t" and
    flags: "et_flags tkt = et_flags (tgs_ticket realm request server (fix_starttime header) t key)" and
    times: "et_times tkt = et_times (tgs_ticket realm request server (fix_starttime header) t key)"
    by (rule tgs_issue_ticket [OF assms(1) tkt])
  have "et_flags (tgs_draft request (fix_starttime header) t) = tgs_flags request (fix_starttime header)"
    using assms(3,4) by (simp add: tgs_draft_def Let_def)
  then have "isflagset (et_flags tkt) TKT_FLG_POSTDATED" "isflagset (et_flags tkt) TKT_FLG_INVALID"
    unfolding flags using assms(2) by (simp_all add: tgs_ticket_def Let_def isflagset_set_if tgs_flags_bits)
  then show ?thesis using tkt t times by simp
qed

definition sample_postdated :: "(krb5_kdc_rep \<times> krb5_enc_kdc_rep_part \<times> octet list) handler" where
  "sample_postdated = tgs_issue (sample_realm 0) sample_crypto sample_codec (sample_ap [])
     ((sample_kdc_req sample_client KDC_OPT_POSTDATED)\<lparr>rq_from := 1005000\<rparr>) sample_client (sample_ticket 0)
     (sample_tkt_part TKT_FLG_MAY_POSTDATE) None"

theorem tgs_postdated_starts_now_witness:
  "\<exists>rep part response tkt. sample_postdated = Continue (rep, part, response) \<and>
     tk_enc_part2 (kr_ticket rep) = Some tkt \<and> starttime (et_times tkt) \<noteq> 1005000"
proof -
  have "continued sample_postdated" by code_simp
  then obtain rep part response where r: "sample_postdated = Continue (rep, part, response)"
    using continued_result by (metis prod_cases3)
  have "isflagset (rq_kdc_options ((sample_kdc_req sample_client KDC_OPT_POSTDATED)\<lparr>rq_from := 1005000\<rparr>)) KDC_OPT_POSTDATED"
    "\<not> isflagset (rq_kdc_options ((sample_kdc_req sample_client KDC_OPT_POSTDATED)\<lparr>rq_from := 1005000\<rparr>)) KDC_OPT_RENEW"
    "\<not> isflagset (rq_kdc_options ((sample_kdc_req sample_client KDC_OPT_POSTDATED)\<lparr>rq_from := 1005000\<rparr>)) KDC_OPT_VALIDATE"
    by code_simp+
  from tgs_postdated_starts_now [OF r [unfolded sample_postdated_def] this] show ?thesis
    using r by (intro exI [of _ rep] exI [of _ part] exI [of _ response]) (auto simp: sample_realm_def split: if_splits)
qed

end
