(* ===== verification/Kdc_Lookaside.thy ===== *)
theory Kdc_Lookaside
  imports Kdc_Tickets
begin

text \<open>
  The lookaside cache of replies (\<open>kdc/replay.c\<close>) and the dispatcher in front of the two
  services (\<open>kdc/dispatch.c\<close>, built without the version 4 compatibility code).  The cache is
  shown to implement a map from requests to replies that forgets nothing but stale entries;
  the contract is a locale, in which it is proved once that a retransmitted request gets the
  reply of the first one.
\<close>

section \<open>The cache\<close>

record krb5_kdc_replay_ent =
  num_hits :: int
  timein :: krb5_timestamp
  db_age :: int
  req_packet :: "octet list"
  reply_packet :: "octet list"
  ent_addr :: krb5_address

text \<open>The file's variables: the list behind \<open>root_ptr\<close> and the statistics.\<close>

record lookaside =
  root_ptr :: "krb5_kdc_replay_ent list"
  hits :: int
  calls :: int
  max_hits_per_entry :: int
  num_entries :: int

definition STALE_TIME :: int where "STALE_TIME = 2 * 60"

text \<open>
  The difference of two times wraps around as the 32-bit subtraction does.  At a difference of
  \<open>-2 ^ 31\<close> the C function \<open>abs\<close> has no result that fits; the model then takes the mathematical
  absolute value, by which the entry is stale.
\<close>

definition STALE :: "krb5_timestamp \<Rightarrow> int \<Rightarrow> krb5_kdc_replay_ent \<Rightarrow> bool" where
  "STALE timenow age e \<longleftrightarrow> \<bar>i32 (timein e - timenow)\<bar> \<ge> STALE_TIME \<or> db_age e \<noteq> age"

definition MATCH :: "octet list \<Rightarrow> krb5_address \<Rightarrow> int \<Rightarrow> krb5_kdc_replay_ent \<Rightarrow> bool" where
  "MATCH inpkt from_addr age e \<longleftrightarrow>
     req_packet e = inpkt \<and> addr_contents (ent_addr e) = addr_contents from_addr \<and> db_age e = age"

text \<open>
  The search: the reply found, the entries left in the list, and the statistics about the
  entries removed.
\<close>

fun lookaside_search ::
  "krb5_timestamp \<Rightarrow> int \<Rightarrow> octet list \<Rightarrow> krb5_address \<Rightarrow> int \<Rightarrow> krb5_kdc_replay_ent list \<Rightarrow>
     (octet list) option \<times> krb5_kdc_replay_ent list \<times> int" where
  "lookaside_search timenow age inpkt from_addr max_hits [] = (None, [], max_hits)"
| "lookaside_search timenow age inpkt from_addr max_hits (e # es) =
     (if MATCH inpkt from_addr age e then (Some (reply_packet e), e\<lparr>num_hits := num_hits e + 1\<rparr> # es, max_hits)
      else if STALE timenow age e
      then lookaside_search timenow age inpkt from_addr (max max_hits (num_hits e)) es
      else case lookaside_search timenow age inpkt from_addr max_hits es of
          (out, es', m) \<Rightarrow> (out, e # es', m))"

text \<open>
  The clock and the age of the database are the first arguments of the two operations;
  \<open>None\<close> stands for the failure of either.  The copies of the packets that both operations make
  are taken to succeed: they fail only when memory is exhausted.
\<close>

definition kdc_check_lookaside ::
  "(krb5_timestamp \<times> int) option \<Rightarrow> octet list \<Rightarrow> krb5_address \<Rightarrow> lookaside \<Rightarrow> (octet list) option \<times> lookaside" where
  "kdc_check_lookaside clock inpkt from_addr l =
     (case clock of
        None \<Rightarrow> (None, l)
      | Some (timenow, age) \<Rightarrow>
          (case lookaside_search timenow age inpkt from_addr (max_hits_per_entry l) (root_ptr l) of
             (out, es, m) \<Rightarrow>
               (out, l\<lparr>root_ptr := es, calls := calls l + 1, max_hits_per_entry := m,
                       hits := (if out = None then hits l else hits l + 1)\<rparr>)))"

definition kdc_insert_lookaside ::
  "(krb5_timestamp \<times> int) option \<Rightarrow> octet list \<Rightarrow> krb5_address \<Rightarrow> octet list \<Rightarrow> lookaside \<Rightarrow> lookaside" where
  "kdc_insert_lookaside clock inpkt from_addr outpkt l =
     (case clock of
        None \<Rightarrow> l
      | Some (timenow, age) \<Rightarrow>
          l\<lparr>root_ptr := \<lparr>num_hits = 0, timein = timenow, db_age = age, req_packet = inpkt, reply_packet = outpkt,
               ent_addr = from_addr\<rparr> # root_ptr l,
            num_entries := num_entries l + 1\<rparr>)"

section \<open>The dispatcher\<close>

definition krb5_is_tgs_req :: "octet list \<Rightarrow> bool" where
  "krb5_is_tgs_req dat \<longleftrightarrow> dat \<noteq> [] \<and> (hd dat = 0x6c \<or> hd dat = 0x4c)"

definition krb5_is_as_req :: "octet list \<Rightarrow> bool" where
  "krb5_is_as_req dat \<longleftrightarrow> dat \<noteq> [] \<and> (hd dat = 0x6a \<or> hd dat = 0x4a)"

definition KRB5KRB_AP_ERR_MSG_TYPE where [krb5_errs]: "KRB5KRB_AP_ERR_MSG_TYPE = krb5_err 40"

text \<open>What one call of the dispatcher runs in: the clocks of its two calls of the cache and the services.\<close>

record dispatch_env =
  de_check :: "(krb5_timestamp \<times> int) option"
  de_insert :: "(krb5_timestamp \<times> int) option"
  de_realm :: kdc_realm
  de_crypto :: kdc_crypto
  de_codec :: kdc_codec
  de_ap :: kdc_ap
  decode_as_req :: "octet list \<Rightarrow> krb5_kdc_req krb5_result"

definition dispatch_request :: "dispatch_env \<Rightarrow> octet list \<Rightarrow> (octet list) c_outcome" where
  "dispatch_request env pkt =
     (if krb5_is_tgs_req pkt
      then process_tgs_req (de_realm env) (de_crypto env) (de_codec env) (de_ap env) pkt
      else if krb5_is_as_req pkt then
        (case decode_as_req env pkt of
           Inl retval \<Rightarrow> Error retval
         | Inr request \<Rightarrow>
             if setup_server_realm (de_ap env) (rq_server request) \<noteq> 0
             then Error (setup_server_realm (de_ap env) (rq_server request))
             else process_as_req (de_realm env) (de_crypto env) (de_codec env) request)
      else Error KRB5KRB_AP_ERR_MSG_TYPE)"

definition dispatch ::
  "dispatch_env \<Rightarrow> octet list \<Rightarrow> krb5_address \<Rightarrow> lookaside \<Rightarrow> (octet list) c_outcome \<times> lookaside" where
  "dispatch env pkt from_addr l =
     (case kdc_check_lookaside (de_check env) pkt from_addr l of
        (Some response, l) \<Rightarrow> (Done response, l)
      | (None, l) \<Rightarrow>
          let retval = dispatch_request env pkt in
          (retval, case retval of
                     Done response \<Rightarrow> kdc_insert_lookaside (de_insert env) pkt from_addr response l
                   | _ \<Rightarrow> l))"

section \<open>The contract of a cache of replies\<close>

text \<open>
  A cache is seen through \<open>recall\<close>, the reply to a key and the time it was stored at.  Looking a
  request up returns what is recalled for its key and loses at most what has expired; storing
  a reply changes what is recalled for the key of its request only.
\<close>

locale reply_cache =
  fixes recall :: "'s \<Rightarrow> 'k \<Rightarrow> ('r \<times> 't) option"
    and key_of :: "'q \<Rightarrow> 'k"
    and look :: "'t \<Rightarrow> 'q \<Rightarrow> 's \<Rightarrow> 'r option \<times> 's"
    and store :: "'t \<Rightarrow> 'q \<Rightarrow> 'r \<Rightarrow> 's \<Rightarrow> 's"
    and expired :: "'t \<Rightarrow> 'q \<Rightarrow> 'k \<Rightarrow> 't \<Rightarrow> bool"
  assumes look_recall: "fst (look t q s) = map_option fst (recall s (key_of q))"
    and look_keeps: "recall s k = Some (r, t0) \<Longrightarrow> \<not> expired t q k t0 \<Longrightarrow> recall (snd (look t q s)) k = Some (r, t0)"
    and store_recall: "recall (store t q r s) = (recall s)(key_of q \<mapsto> (r, t))"
begin

text \<open>A request is answered from the cache, or by \<open>res\<close>, which is then stored.\<close>

definition answer :: "'t \<Rightarrow> 't \<Rightarrow> 'q \<Rightarrow> 'r option \<Rightarrow> 's \<Rightarrow> 'r option \<times> 's" where
  "answer t t' q res s =
     (case look t q s of
        (Some r, s') \<Rightarrow> (Some r, s')
      | (None, s') \<Rightarrow> (res, case res of Some r \<Rightarrow> store t' q r s' | None \<Rightarrow> s'))"

lemma answer_known: "recall s (key_of q) = Some (r, t0) \<Longrightarrow> fst (answer t t' q res s) = Some r"
  using look_recall [of t q s] by (auto simp: answer_def split: prod.splits option.splits)

lemma answer_keeps:
  assumes "recall s k = Some (r, t0)" and "\<not> expired t q k t0"
  shows "recall (snd (answer t t' q res s)) k = Some (r, t0)"
  using look_keeps [OF assms] look_recall [of t q s] assms(1)
  by (cases "look t q s") (auto simp: answer_def store_recall split: option.splits)

lemma answer_new:
  assumes "recall s (key_of q) = None"
  shows "recall (snd (answer t t' q (Some r) s)) (key_of q) = Some (r, t')"
  using look_recall [of t q s] assms
  by (cases "look t q s") (auto simp: answer_def store_recall split: option.splits)

text \<open>What is known stays known through requests that come before it expires.\<close>

lemma answers_keep:
  assumes "recall s k = Some (r, t0)" and "\<forall>(t, t', q, res) \<in> set rqs. \<not> expired t q k t0"
  shows "recall (fold (\<lambda>(t, t', q, res) s. snd (answer t t' q res s)) rqs s) k = Some (r, t0)"
  using assms by (induction rqs arbitrary: s) (auto simp: answer_keeps)

end

section \<open>The cache implements the contract\<close>

type_synonym lookaside_key = "octet list \<times> octet list \<times> int"

type_synonym lookaside_query = "octet list \<times> krb5_address \<times> int"

definition query_key :: "lookaside_query \<Rightarrow> lookaside_key" where
  "query_key q = (case q of (pkt, from_addr, age) \<Rightarrow> (pkt, addr_contents from_addr, age))"

definition entry_pair :: "krb5_kdc_replay_ent \<Rightarrow> lookaside_key \<times> octet list \<times> krb5_timestamp" where
  "entry_pair e = ((req_packet e, addr_contents (ent_addr e), db_age e), reply_packet e, timein e)"

definition remembered :: "lookaside \<Rightarrow> lookaside_key \<Rightarrow> (octet list \<times> krb5_timestamp) option" where
  "remembered l = map_of (map entry_pair (root_ptr l))"

definition distinct_keys :: "lookaside \<Rightarrow> bool" where
  "distinct_keys l \<longleftrightarrow> distinct (map (fst \<circ> entry_pair) (root_ptr l))"

definition lookaside_expired :: "krb5_timestamp \<Rightarrow> lookaside_query \<Rightarrow> lookaside_key \<Rightarrow> krb5_timestamp \<Rightarrow> bool" where
  "lookaside_expired t q k t0 \<longleftrightarrow> \<bar>i32 (t0 - t)\<bar> \<ge> STALE_TIME \<or> snd (snd k) \<noteq> snd (snd q)"

definition lookaside_look :: "krb5_timestamp \<Rightarrow> lookaside_query \<Rightarrow> lookaside \<Rightarrow> (octet list) option \<times> lookaside" where
  "lookaside_look t q l = (case q of (pkt, from_addr, age) \<Rightarrow> kdc_check_lookaside (Some (t, age)) pkt from_addr l)"

definition lookaside_store :: "krb5_timestamp \<Rightarrow> lookaside_query \<Rightarrow> octet list \<Rightarrow> lookaside \<Rightarrow> lookaside" where
  "lookaside_store t q r l = (case q of (pkt, from_addr, age) \<Rightarrow> kdc_insert_lookaside (Some (t, age)) pkt from_addr r l)"

lemma MATCH_iff: "MATCH pkt from_addr age e \<longleftrightarrow> fst (entry_pair e) = query_key (pkt, from_addr, age)"
  by (auto simp: MATCH_def entry_pair_def query_key_def)

lemma entry_pair_hit [simp]: "entry_pair (e\<lparr>num_hits := n\<rparr>) = entry_pair e"
  by (simp add: entry_pair_def)

lemma entry_pair_parts [simp]:
  "snd (entry_pair e) = (reply_packet e, timein e)" "snd (snd (fst (entry_pair e))) = db_age e"
  by (simp_all add: entry_pair_def)

lemma search_result:
  "fst (lookaside_search t age pkt from_addr m es) =
     map_option fst (map_of (map entry_pair es) (query_key (pkt, from_addr, age)))"
  by (induction t age pkt from_addr m es rule: lookaside_search.induct)
    (auto simp: MATCH_iff split: prod.splits)

lemma STALE_expired:
  "STALE t age e \<Longrightarrow> lookaside_expired t (pkt, from_addr, age) (fst (entry_pair e)) (timein e)"
  by (simp add: STALE_def lookaside_expired_def)

lemma search_keeps:
  "map_of (map entry_pair es) k = Some (r, t0) \<Longrightarrow> \<not> lookaside_expired t (pkt, from_addr, age) k t0 \<Longrightarrow>
     map_of (map entry_pair (fst (snd (lookaside_search t age pkt from_addr m es)))) k = Some (r, t0)"
proof (induction t age pkt from_addr m es rule: lookaside_search.induct)
  case (2 t age pkt from_addr m e es)
  show ?case
  proof (cases "fst (entry_pair e) = k")
    case True
    then have "\<not> STALE t age e" using 2(3,4) STALE_expired [of t age e pkt from_addr] by auto
    then show ?thesis using 2(3) True by (simp split: prod.split)
  next
    case False
    then show ?thesis using 2 by (cases "lookaside_search t age pkt from_addr m es") auto
  qed
qed simp

lemma search_subset:
  "entry_pair ` set (fst (snd (lookaside_search t age pkt from_addr m es))) \<subseteq> entry_pair ` set es"
proof (induction t age pkt from_addr m es rule: lookaside_search.induct)
  case (2 t age pkt from_addr m e es)
  then show ?case
    by (cases "MATCH pkt from_addr age e"; cases "STALE t age e"; cases "lookaside_search t age pkt from_addr m es")
      (simp_all add: subset_insertI2, blast?)
qed simp

lemma search_distinct:
  "distinct (map (fst \<circ> entry_pair) es) \<Longrightarrow>
     distinct (map (fst \<circ> entry_pair) (fst (snd (lookaside_search t age pkt from_addr m es))))"
proof (induction t age pkt from_addr m es rule: lookaside_search.induct)
  case (2 t age pkt from_addr m e es)
  have "(fst \<circ> entry_pair) ` set (fst (snd (lookaside_search t age pkt from_addr m es))) \<subseteq> (fst \<circ> entry_pair) ` set es"
    using image_mono [OF search_subset [of t age pkt from_addr m es], of fst] by (simp only: image_comp)
  with 2 show ?case
    by (cases "MATCH pkt from_addr age e"; cases "STALE t age e"; cases "lookaside_search t age pkt from_addr m es")
      (simp_all, blast)
qed simp

lemma check_lookaside_eqs:
  "fst (kdc_check_lookaside (Some (t, age)) pkt from_addr l) =
     fst (lookaside_search t age pkt from_addr (max_hits_per_entry l) (root_ptr l))"
  "root_ptr (snd (kdc_check_lookaside (Some (t, age)) pkt from_addr l)) =
     fst (snd (lookaside_search t age pkt from_addr (max_hits_per_entry l) (root_ptr l)))"
  by (simp_all add: kdc_check_lookaside_def split: prod.split)

lemma insert_lookaside_remembered:
  "remembered (kdc_insert_lookaside (Some (t, age)) pkt from_addr r l) =
     (remembered l)(query_key (pkt, from_addr, age) \<mapsto> (r, t))"
  by (simp add: remembered_def kdc_insert_lookaside_def entry_pair_def query_key_def)

lemma check_lookaside_subset:
  assumes "distinct_keys l"
  shows "remembered (snd (kdc_check_lookaside (Some (t, age)) pkt from_addr l)) \<subseteq>\<^sub>m remembered l"
proof -
  let ?es = "fst (snd (lookaside_search t age pkt from_addr (max_hits_per_entry l) (root_ptr l)))"
  have "map_of (map entry_pair (root_ptr l)) k = Some v" if "map_of (map entry_pair ?es) k = Some v" for k v
  proof -
    have "(k, v) \<in> entry_pair ` set ?es" using map_of_SomeD [OF that] by simp
    then have "(k, v) \<in> set (map entry_pair (root_ptr l))" using search_subset by fastforce
    then show ?thesis using assms by (intro map_of_is_SomeI) (simp_all add: distinct_keys_def)
  qed
  then show ?thesis
    by (auto simp: map_le_def dom_def remembered_def check_lookaside_eqs)
qed

lemma insert_lookaside_distinct:
  assumes "distinct_keys l" and "remembered l (query_key (pkt, from_addr, age)) = None"
  shows "distinct_keys (kdc_insert_lookaside (Some (t, age)) pkt from_addr r l)"
proof -
  have "query_key (pkt, from_addr, age) \<notin> fst ` entry_pair ` set (root_ptr l)"
    using assms(2) by (simp add: remembered_def map_of_eq_None_iff)
  then have "query_key (pkt, from_addr, age) \<noteq> fst (entry_pair e)" if "e \<in> set (root_ptr l)" for e
    using that by blast
  with assms(1) show ?thesis
    by (auto simp: distinct_keys_def kdc_insert_lookaside_def entry_pair_def query_key_def)
qed

interpretation rc: reply_cache remembered query_key lookaside_look lookaside_store lookaside_expired
proof
  show "fst (lookaside_look t q l) = map_option fst (remembered l (query_key q))" for t q l
    by (cases q) (simp add: lookaside_look_def check_lookaside_eqs search_result remembered_def)
  show "remembered (snd (lookaside_look t q l)) k = Some (r, t0)"
    if "remembered l k = Some (r, t0)" "\<not> lookaside_expired t q k t0" for l k r t0 t q
    using that by (cases q) (simp add: lookaside_look_def remembered_def check_lookaside_eqs search_keeps)
  show "remembered (lookaside_store t q r l) = (remembered l)(query_key q \<mapsto> (r, t))" for t q r l
    by (cases q) (simp add: lookaside_store_def insert_lookaside_remembered)
qed

lemma dispatch_answer:
  assumes "de_check env = Some (t, age)" "de_insert env = Some (t', age)"
  shows "snd (dispatch env pkt from_addr l) = snd (rc.answer t t' (pkt, from_addr, age)
      (case dispatch_request env pkt of Done r \<Rightarrow> Some r | _ \<Rightarrow> None) l)"
  using assms
  by (auto simp: dispatch_def rc.answer_def lookaside_look_def lookaside_store_def Let_def
      split: prod.splits option.splits c_outcome.splits)

text \<open>The requests that reach the dispatcher one after the other.\<close>

definition dispatch_all :: "(dispatch_env \<times> octet list \<times> krb5_address) list \<Rightarrow> lookaside \<Rightarrow> lookaside" where
  "dispatch_all rqs l = fold (\<lambda>(env, pkt, from_addr) l. snd (dispatch env pkt from_addr l)) rqs l"

definition as_answers ::
  "(dispatch_env \<times> octet list \<times> krb5_address) list \<Rightarrow>
     (krb5_timestamp \<times> krb5_timestamp \<times> lookaside_query \<times> (octet list) option) list" where
  "as_answers rqs = map (\<lambda>(env, pkt, from_addr).
     (fst (the (de_check env)), fst (the (de_insert env)), (pkt, from_addr, snd (the (de_check env))),
      case dispatch_request env pkt of Done r \<Rightarrow> Some r | _ \<Rightarrow> None)) rqs"

lemma dispatch_all_answers:
  assumes "\<forall>(env, pkt, from_addr) \<in> set rqs. \<exists>t t'. de_check env = Some (t, age) \<and> de_insert env = Some (t', age)"
  shows "dispatch_all rqs l = fold (\<lambda>(t, t', q, res) l. snd (rc.answer t t' q res l)) (as_answers rqs) l"
  using assms by (induction rqs arbitrary: l) (auto simp: dispatch_all_def as_answers_def dispatch_answer)

text \<open>Requests that are dispatched at one database age leave no entry for another age.\<close>

lemma dispatch_other_age:
  assumes "de_check env = Some (t, age)" "de_insert env = Some (t', age)"
    and "remembered l k = None" "snd (snd k) \<noteq> age"
  shows "remembered (snd (dispatch env pkt from_addr l)) k = None"
proof -
  obtain out l1 where c: "kdc_check_lookaside (Some (t, age)) pkt from_addr l = (out, l1)" by fastforce
  have "entry_pair ` set (root_ptr l1) \<subseteq> entry_pair ` set (root_ptr l)"
    using search_subset [of t age pkt from_addr "max_hits_per_entry l" "root_ptr l"]
      check_lookaside_eqs(2) [of t age pkt from_addr l] c by simp
  then have "remembered l1 k = None"
    using assms(3) by (auto simp: remembered_def map_of_eq_None_iff)
  then show ?thesis using assms c
    by (auto simp: dispatch_def insert_lookaside_remembered query_key_def Let_def split: option.splits c_outcome.splits)
qed

lemma dispatch_all_other_age:
  assumes "\<forall>(env, pkt, from_addr) \<in> set rqs. \<exists>t t'. de_check env = Some (t, age) \<and> de_insert env = Some (t', age)"
    and "remembered l k = None" "snd (snd k) \<noteq> age"
  shows "remembered (dispatch_all rqs l) k = None"
  using assms by (induction rqs arbitrary: l) (auto simp: dispatch_all_def dispatch_other_age)

section \<open>Properties\<close>

text \<open>
  C10. The list of \<open>replay.c\<close> implements a map from requests (the packet, the sender's address
  and the age of the database) to replies: a look-up returns the reply that the map has for
  the request, and afterwards the map is the old one without some entries that are two
  minutes away or made for another database age; an insertion is the update of the map.
  The keys in the list stay distinct when, as the caller makes sure, what is inserted is not
  there yet.
\<close>

theorem lookaside_refines_map:
  assumes "distinct_keys l" and "kdc_check_lookaside (Some (t, age)) pkt from_addr l = (out, l')"
  shows "out = map_option fst (remembered l (query_key (pkt, from_addr, age))) \<and>
    remembered l' \<subseteq>\<^sub>m remembered l \<and>
    (\<forall>k r t0. remembered l k = Some (r, t0) \<and> remembered l' k = None \<longrightarrow>
       \<bar>i32 (t0 - t)\<bar> \<ge> STALE_TIME \<or> snd (snd k) \<noteq> age) \<and>
    distinct_keys l' \<and>
    remembered (kdc_insert_lookaside (Some (t, age)) pkt from_addr r l') =
      (remembered l')(query_key (pkt, from_addr, age) \<mapsto> (r, t)) \<and>
    (out = None \<longrightarrow> distinct_keys (kdc_insert_lookaside (Some (t, age)) pkt from_addr r l'))"
proof -
  have l': "out = fst (kdc_check_lookaside (Some (t, age)) pkt from_addr l)"
    "l' = snd (kdc_check_lookaside (Some (t, age)) pkt from_addr l)"
    using assms(2) by simp_all
  have out: "out = map_option fst (remembered l (query_key (pkt, from_addr, age)))"
    by (simp add: l' check_lookaside_eqs search_result remembered_def)
  have distinct: "distinct_keys l'"
    using assms(1) by (simp add: distinct_keys_def l' check_lookaside_eqs search_distinct)
  have sub: "remembered l' \<subseteq>\<^sub>m remembered l"
    using check_lookaside_subset assms(1) by (simp add: l')
  have lost: "\<forall>k r t0. remembered l k = Some (r, t0) \<and> remembered l' k = None \<longrightarrow>
       \<bar>i32 (t0 - t)\<bar> \<ge> STALE_TIME \<or> snd (snd k) \<noteq> age"
  proof (intro allI impI)
    fix k r t0
    assume k: "remembered l k = Some (r, t0) \<and> remembered l' k = None"
    then have "lookaside_expired t (pkt, from_addr, age) k t0"
      using rc.look_keeps [of l k r t0 t "(pkt, from_addr, age)"] by (auto simp: lookaside_look_def l')
    then show "\<bar>i32 (t0 - t)\<bar> \<ge> STALE_TIME \<or> snd (snd k) \<noteq> age"
      by (simp add: lookaside_expired_def)
  qed
  have "distinct_keys (kdc_insert_lookaside (Some (t, age)) pkt from_addr r l')" if "out = None"
  proof (rule insert_lookaside_distinct [OF distinct])
    show "remembered l' (query_key (pkt, from_addr, age)) = None"
      using that out map_le_implies_dom_le [OF sub] by (auto simp: domIff)
  qed
  then show ?thesis using out sub lost distinct insert_lookaside_remembered by simp
qed

definition sample_lookaside :: lookaside where
  "sample_lookaside =
     \<lparr>root_ptr = [\<lparr>num_hits = 0, timein = 999000, db_age = 5, req_packet = [1], reply_packet = [2],
        ent_addr = \<lparr>addrtype = 2, addr_contents = [18, 72, 0, 1]\<rparr>\<rparr>],
      hits = 0, calls = 1, max_hits_per_entry = 0, num_entries = 1\<rparr>"

theorem lookaside_refines_map_witness:
  "\<exists>l'. kdc_check_lookaside (Some (1000000, 5)) [3] \<lparr>addrtype = 2, addr_contents = []\<rparr> sample_lookaside = (None, l') \<and>
     remembered l' \<subseteq>\<^sub>m remembered sample_lookaside \<and> root_ptr l' = []"
proof -
  have "distinct_keys sample_lookaside" by (simp add: distinct_keys_def sample_lookaside_def)
  moreover obtain out l' where
    l': "kdc_check_lookaside (Some (1000000, 5)) [3] \<lparr>addrtype = 2, addr_contents = []\<rparr> sample_lookaside = (out, l')"
    by fastforce
  moreover have "out = None" "root_ptr l' = []"
    using l' by (auto simp: kdc_check_lookaside_def sample_lookaside_def MATCH_def STALE_def STALE_TIME_def i32_def)
  ultimately show ?thesis using lookaside_refines_map by blast
qed

text \<open>
  C11. A request sent again gets the reply of the first one as long as the database does not
  change: when the dispatcher has answered a request that it did not know, then whatever requests
  it answers in the following two minutes, all of them at the same age of the database, the same
  packet from the same address gets the same reply, without being processed again.  Once the age
  is another one, for which the cache had no reply, the packet is processed anew.
\<close>

theorem retransmission_gets_first_reply:
  assumes "dispatch env pkt from_addr l = (Done r, l')" and "remembered l (query_key (pkt, from_addr, age)) = None"
    and "de_check env = Some (t, age)" "de_insert env = Some (t0, age)"
    and "\<forall>(env', pkt', from') \<in> set rqs. \<exists>t1 t2. de_check env' = Some (t1, age) \<and> de_insert env' = Some (t2, age) \<and>
      \<bar>i32 (t0 - t1)\<bar> < STALE_TIME"
    and "de_check env2 = Some (t3, age2)"
  shows "(age2 = age \<longrightarrow> fst (dispatch env2 pkt from_addr (dispatch_all rqs l')) = Done r) \<and>
    (age2 \<noteq> age \<and> remembered l (query_key (pkt, from_addr, age2)) = None \<longrightarrow>
       fst (dispatch env2 pkt from_addr (dispatch_all rqs l')) = dispatch_request env2 pkt)"
proof -
  let ?k = "query_key (pkt, from_addr, age)"
  have found: "fst (kdc_check_lookaside (Some (t3, age2)) pkt from_addr l1) =
      map_option fst (remembered l1 (query_key (pkt, from_addr, age2)))" for l1
    by (simp add: check_lookaside_eqs search_result remembered_def)
  have "fst (kdc_check_lookaside (Some (t, age)) pkt from_addr l) = None"
    using assms(2) by (simp add: check_lookaside_eqs search_result remembered_def)
  then have "dispatch_request env pkt = Done r"
    using assms(1,3) by (cases "kdc_check_lookaside (Some (t, age)) pkt from_addr l") (simp add: dispatch_def Let_def)
  then have "l' = snd (rc.answer t t0 (pkt, from_addr, age) (Some r) l)"
    using arg_cong [OF assms(1), of snd] dispatch_answer [OF assms(3,4), of pkt from_addr l] by simp
  then have known: "remembered l' ?k = Some (r, t0)" using rc.answer_new [OF assms(2)] by simp
  have ages: "\<forall>(env, pkt, from_addr) \<in> set rqs. \<exists>t t'. de_check env = Some (t, age) \<and> de_insert env = Some (t', age)"
    using assms(5) by fastforce
  have "\<forall>(t, t', q, res) \<in> set (as_answers rqs). \<not> lookaside_expired t q ?k t0"
    using assms(5) by (fastforce simp: as_answers_def lookaside_expired_def query_key_def)
  then have "remembered (dispatch_all rqs l') ?k = Some (r, t0)"
    using rc.answers_keep [OF known] dispatch_all_answers [OF ages] by simp
  then have same: "fst (dispatch env2 pkt from_addr (dispatch_all rqs l')) = Done r" if "age2 = age"
    using assms(6) found [of "dispatch_all rqs l'"] that
    by (cases "kdc_check_lookaside (Some (t3, age2)) pkt from_addr (dispatch_all rqs l')") (simp add: dispatch_def)
  have "fst (dispatch env2 pkt from_addr (dispatch_all rqs l')) = dispatch_request env2 pkt"
    if other: "age2 \<noteq> age" "remembered l (query_key (pkt, from_addr, age2)) = None"
  proof -
    have "remembered l' (query_key (pkt, from_addr, age2)) = None"
      using dispatch_other_age [OF assms(3,4) other(2), of pkt from_addr] assms(1) other(1) by (simp add: query_key_def)
    then have "remembered (dispatch_all rqs l') (query_key (pkt, from_addr, age2)) = None"
      using other(1) by (intro dispatch_all_other_age [OF ages]) (simp_all add: query_key_def)
    then show ?thesis using assms(6) found [of "dispatch_all rqs l'"]
      by (cases "kdc_check_lookaside (Some (t3, age2)) pkt from_addr (dispatch_all rqs l')") (simp add: dispatch_def Let_def)
  qed
  then show ?thesis using same by blast
qed

definition sample_dispatch_env :: dispatch_env where
  "sample_dispatch_env =
     \<lparr>de_check = Some (1000000, 5), de_insert = Some (1000001, 5), de_realm = sample_realm 0, de_crypto = sample_crypto,
      de_codec = sample_codec, de_ap = sample_ap [], decode_as_req = (\<lambda>pkt. Inr (sample_as_req\<lparr>rq_padata := None\<rparr>))\<rparr>"

definition dispatch_answers :: "octet list \<Rightarrow> lookaside \<Rightarrow> bool" where
  "dispatch_answers pkt l =
     (case fst (dispatch sample_dispatch_env pkt \<lparr>addrtype = 2, addr_contents = []\<rparr> l) of Done r \<Rightarrow> True | _ \<Rightarrow> False)"

theorem retransmission_gets_first_reply_witness:
  "\<exists>r l'. dispatch sample_dispatch_env [0x6a] \<lparr>addrtype = 2, addr_contents = []\<rparr> sample_lookaside = (Done r, l') \<and>
     fst (dispatch sample_dispatch_env [0x6a] \<lparr>addrtype = 2, addr_contents = []\<rparr>
       (dispatch_all [(sample_dispatch_env, [0x6a, 1], \<lparr>addrtype = 2, addr_contents = []\<rparr>)] l')) = Done r \<and>
     fst (dispatch (sample_dispatch_env\<lparr>de_check := Some (1000002, 6)\<rparr>) [0x6a] \<lparr>addrtype = 2, addr_contents = []\<rparr>
       (dispatch_all [(sample_dispatch_env, [0x6a, 1], \<lparr>addrtype = 2, addr_contents = []\<rparr>)] l')) =
     dispatch_request (sample_dispatch_env\<lparr>de_check := Some (1000002, 6)\<rparr>) [0x6a]"
proof -
  let ?rqs = "[(sample_dispatch_env, [0x6a, 1], \<lparr>addrtype = 2, addr_contents = []\<rparr>)]"
  have "dispatch_answers [0x6a] sample_lookaside" by code_simp
  then obtain r l' where
    r: "dispatch sample_dispatch_env [0x6a] \<lparr>addrtype = 2, addr_contents = []\<rparr> sample_lookaside = (Done r, l')"
    unfolding dispatch_answers_def
    by (cases "dispatch sample_dispatch_env [0x6a] \<lparr>addrtype = 2, addr_contents = []\<rparr> sample_lookaside")
      (auto split: c_outcome.splits)
  have n: "remembered sample_lookaside (query_key ([0x6a], \<lparr>addrtype = 2, addr_contents = []\<rparr>, age)) = None" for age
    by (simp add: remembered_def sample_lookaside_def entry_pair_def query_key_def)
  note f = retransmission_gets_first_reply [OF r n [of 5], of 1000000 1000001 ?rqs]
  show ?thesis using r f [of sample_dispatch_env 1000000 5] f [of "sample_dispatch_env\<lparr>de_check := Some (1000002, 6)\<rparr>" 1000002 6] n [of 6]
    by (auto simp: sample_dispatch_env_def STALE_TIME_def i32_def)
qed

end
