(* ===== verification/Krb5_Rcache.thy ===== *)
theory Krb5_Rcache
  imports Kdc_Env
begin

text \<open>
  The default replay cache (\<open>lib/krb5/rcache/rc_dfl.c\<close>, with the file operations it uses from
  \<open>rc_io.c\<close>): the hash table and the list in memory, the file that is written record by record,
  read back by \<open>krb5_rc_dfl_recover\<close> and rewritten by \<open>krb5_rc_dfl_expunge\<close>.

  The file of the cache is its bytes and the position of the descriptor.  An \<open>int\<close> is four
  bytes, the lowest first.  The result of each system call that can fail is an argument; the
  clock is an argument that is \<open>None\<close> when it cannot be read.  A read that returns fewer bytes
  than asked for leaves a part of its buffer undefined: the outcome is \<open>Out_of_bounds\<close>.
\<close>

section \<open>Entries\<close>

definition HASHSIZE :: nat where "HASHSIZE = 997"

definition EXCESSREPS :: int where "EXCESSREPS = 30"

definition KRB5_RC_VNO :: int where "KRB5_RC_VNO = 0x0501"

definition KRB5_RC_IO where [krb5_errs]: "KRB5_RC_IO = krb5_err 164"
definition KRB5_RC_IO_EOF where [krb5_errs]: "KRB5_RC_IO_EOF = krb5_err 167"
definition KRB5_RCACHE_BADVNO where [krb5_errs]: "KRB5_RCACHE_BADVNO = krb5_err 211"
definition KRB5KRB_AP_ERR_REPEAT where [krb5_errs]: "KRB5KRB_AP_ERR_REPEAT = krb5_err 34"

text \<open>The remainder of C, whose sign is that of the dividend; a \<open>char\<close> is signed.\<close>

definition c_rem :: "int \<Rightarrow> int \<Rightarrow> int" where
  "c_rem a b = (if a < 0 then - ((- a) mod b) else a mod b)"

definition first_char :: "string \<Rightarrow> int" where
  "first_char s = (let c = of_char (case s of [] \<Rightarrow> NUL | c # _ \<Rightarrow> c) in if c < 128 then c else c - 256)"

definition hash :: "krb5_donot_replay \<Rightarrow> int \<Rightarrow> int" where
  "hash rep hsize =
     c_rem (c_rem (i32 (dr_cusec rep + dr_ctime rep + first_char (dr_server rep) + first_char (dr_client rep))) hsize + hsize)
       hsize"

datatype cmp_code = CMP_MALLOC | CMP_EXPIRED | CMP_REPLAY | CMP_HOHUM

definition cmp :: "krb5_donot_replay \<Rightarrow> krb5_donot_replay \<Rightarrow> cmp_code" where
  "cmp old new =
     (if dr_cusec old = dr_cusec new \<and> dr_ctime old = dr_ctime new \<and> c_str (dr_client old) = c_str (dr_client new) \<and>
         c_str (dr_server old) = c_str (dr_server new)
      then CMP_REPLAY else CMP_HOHUM)"

definition alive :: "krb5_timestamp option \<Rightarrow> krb5_donot_replay \<Rightarrow> int \<Rightarrow> cmp_code" where
  "alive clock new t =
     (case clock of
        None \<Rightarrow> CMP_HOHUM
      | Some time \<Rightarrow> if i32 (dr_ctime new + t) < time then CMP_EXPIRED else CMP_HOHUM)"

section \<open>The cache in memory\<close>

text \<open>
  The flag \<open>recovering\<close> of the structure only tells the two callers of \<open>krb5_rc_dfl_expunge\<close>
  apart, which are two definitions here; the hash size is the length of the table.
\<close>

record dfl_data =
  rc_lifespan :: int
  numhits :: int
  nummisses :: int
  rc_h :: "krb5_donot_replay list list"
  rc_a :: "krb5_donot_replay list"
  rc_file :: "octet list"
  rc_pos :: nat

text \<open>The search of a chain: whether it holds the entry, and the counts of the entries passed.\<close>

fun search_chain ::
  "krb5_timestamp option \<Rightarrow> krb5_donot_replay \<Rightarrow> int \<Rightarrow> krb5_donot_replay list \<Rightarrow> int \<times> int \<Rightarrow> bool \<times> int \<times> int" where
  "search_chain clock rep lifespan [] n = (False, n)"
| "search_chain clock rep lifespan (ta # tas) (hits, misses) =
     (case cmp ta rep of
        CMP_REPLAY \<Rightarrow> (True, hits, misses)
      | _ \<Rightarrow> search_chain clock rep lifespan tas
               (if alive clock ta lifespan = CMP_EXPIRED then (hits, misses + 1) else (hits + 1, misses)))"

definition rc_store_dfl :: "krb5_timestamp option \<Rightarrow> krb5_donot_replay \<Rightarrow> dfl_data \<Rightarrow> cmp_code \<times> dfl_data" where
  "rc_store_dfl clock rep t =
     (let rephash = nat (hash rep (int (length (rc_h t)))) in
      case search_chain clock rep (rc_lifespan t) (rc_h t ! rephash) (numhits t, nummisses t) of
        (found, hits, misses) \<Rightarrow>
          let t = t\<lparr>numhits := hits, nummisses := misses\<rparr> in
          if found then (CMP_REPLAY, t)
          else (CMP_HOHUM, t\<lparr>rc_a := rep # rc_a t, rc_h := (rc_h t)[rephash := rep # rc_h t ! rephash]\<rparr>))"

section \<open>The file\<close>

record rc_io =
  io_open :: krb5_error_code
  io_creat :: krb5_error_code
  io_write :: krb5_error_code
  io_sync :: krb5_error_code
  io_move :: krb5_error_code

definition mem_int :: "int \<Rightarrow> octet list" where
  "mem_int i = krb5_kdb_encode_int32 i"

text \<open>Bytes written at the position of the descriptor.\<close>

definition write_at :: "octet list \<Rightarrow> dfl_data \<Rightarrow> dfl_data" where
  "write_at buf t =
     t\<lparr>rc_file := take (rc_pos t) (rc_file t) @ buf @ drop (rc_pos t + length buf) (rc_file t),
       rc_pos := rc_pos t + length buf\<rparr>"

definition krb5_rc_io_read :: "nat \<Rightarrow> octet list \<Rightarrow> nat \<Rightarrow> (octet list \<times> nat) c_outcome" where
  "krb5_rc_io_read num file pos =
     (if length file \<le> pos then Error KRB5_RC_IO_EOF
      else if pos + num \<le> length file then Done (take num (drop pos file), pos + num)
      else Out_of_bounds)"

definition read_int :: "octet list \<Rightarrow> nat \<Rightarrow> (int \<times> nat) c_outcome" where
  "read_int file pos =
     bindO (krb5_rc_io_read 4 file pos) (\<lambda>(bs, pos). bindO (krb5_kdb_decode_int32 bs) (\<lambda>i. Done (i, pos)))"

text \<open>A length and the string of that length with its terminating NUL.\<close>

definition read_string :: "octet list \<Rightarrow> int \<Rightarrow> nat \<Rightarrow> (string \<times> nat) c_outcome" where
  "read_string file maxlen pos =
     bindO (read_int file pos) (\<lambda>(len, pos).
       if len \<le> 0 \<or> len \<ge> maxlen then Error KRB5_RC_IO_EOF
       else bindO (krb5_rc_io_read (nat len) file pos) (\<lambda>(bs, pos).
              if NUL \<in> set (octets_text bs) then Done (c_str (octets_text bs), pos) else Out_of_bounds))"

definition krb5_rc_io_fetch :: "octet list \<Rightarrow> int \<Rightarrow> nat \<Rightarrow> (krb5_donot_replay \<times> nat) c_outcome" where
  "krb5_rc_io_fetch file maxlen pos =
     bindO (read_string file maxlen pos) (\<lambda>(client, pos).
     bindO (read_string file maxlen pos) (\<lambda>(server, pos).
     bindO (read_int file pos) (\<lambda>(cusec, pos).
     bindO (read_int file pos) (\<lambda>(ctime, pos).
       Done (\<lparr>dr_server = server, dr_client = client, dr_cusec = cusec, dr_ctime = ctime\<rparr>, pos)))))"

text \<open>The buffer that \<open>krb5_rc_io_store\<close> writes.\<close>

definition rc_record :: "krb5_donot_replay \<Rightarrow> octet list" where
  "rc_record rep =
     mem_int (int (strlen (dr_client rep)) + 1) @ octets (c_str (dr_client rep)) @ [0] @
     mem_int (int (strlen (dr_server rep)) + 1) @ octets (c_str (dr_server rep)) @ [0] @
     mem_int (dr_cusec rep) @ mem_int (dr_ctime rep)"

definition krb5_rc_io_store :: "rc_io \<Rightarrow> krb5_donot_replay \<Rightarrow> dfl_data \<Rightarrow> krb5_error_code \<times> dfl_data" where
  "krb5_rc_io_store io rep t = (if io_write io \<noteq> 0 then (io_write io, t) else (0, write_at (rc_record rep) t))"

definition rc_header :: "int \<Rightarrow> octet list" where
  "rc_header lifespan = [word_of_int (KRB5_RC_VNO div 256), word_of_int KRB5_RC_VNO] @ mem_int lifespan"

lemma read_int_advances: "read_int file pos = Done (i, pos') \<Longrightarrow> pos < pos'"
  by (auto simp: read_int_def krb5_rc_io_read_def bindO_eq_Done split: if_splits)

lemma read_string_advances: "read_string file maxlen pos = Done (s, pos') \<Longrightarrow> pos < pos'"
  by (auto simp: read_string_def krb5_rc_io_read_def bindO_eq_Done split: if_splits dest!: read_int_advances)

lemma fetch_advances: "krb5_rc_io_fetch file maxlen pos = Done (rep, pos') \<Longrightarrow> pos < pos'"
  by (auto simp: krb5_rc_io_fetch_def bindO_eq_Done dest!: read_int_advances read_string_advances)

lemma fetch_inside: "krb5_rc_io_fetch file maxlen pos = Done (rep, pos') \<Longrightarrow> pos < length file"
  by (auto simp: krb5_rc_io_fetch_def read_string_def read_int_def krb5_rc_io_read_def bindO_eq_Done split: if_splits)

lemma fetch_decreases:
  "krb5_rc_io_fetch file maxlen pos = Done (rep, pos') \<Longrightarrow> length file - pos' < length file - pos"
  by (frule fetch_advances, drule fetch_inside) arith

section \<open>The operations\<close>

definition krb5_rc_dfl_resolve :: "octet list \<Rightarrow> dfl_data" where
  "krb5_rc_dfl_resolve file =
     \<lparr>rc_lifespan = 0, numhits = 0, nummisses = 0, rc_h = replicate HASHSIZE [], rc_a = [], rc_file = file, rc_pos = 0\<rparr>"

definition krb5_rc_dfl_init :: "rc_io \<Rightarrow> int \<Rightarrow> int \<Rightarrow> dfl_data \<Rightarrow> krb5_error_code \<times> dfl_data" where
  "krb5_rc_dfl_init io skew lifespan t =
     (let t = t\<lparr>rc_lifespan := if lifespan \<noteq> 0 then lifespan else skew\<rparr> in
      if io_creat io \<noteq> 0 then (io_creat io, t)
      else if io_write io \<noteq> 0 \<or> io_sync io \<noteq> 0 then (KRB5_RC_IO, t)
      else (0, t\<lparr>rc_file := rc_header (rc_lifespan t), rc_pos := length (rc_header (rc_lifespan t))\<rparr>))"

text \<open>
  Reading a cache back.  A file with no or another version number is deleted.

  The size of the file bounds the lengths that are read from it; the code keeps it in an \<open>int\<close>, so
  the model is that of files shorter than two gigabytes.

  The loop of \<open>krb5_rc_dfl_recover\<close>.  Its result is the return code of the failing fetch (0 for
  the end of the file), the cache and the number of expired records.
\<close>

function recover_loop ::
  "krb5_timestamp option \<Rightarrow> int \<Rightarrow> octet list \<Rightarrow> nat \<Rightarrow> dfl_data \<Rightarrow> int \<Rightarrow> (krb5_error_code \<times> dfl_data \<times> int) c_outcome" where
  "recover_loop clock max_size file pos t expired =
     (case krb5_rc_io_fetch file max_size pos of
        Done (rep, pos') \<Rightarrow>
          if alive clock rep (rc_lifespan t) \<noteq> CMP_EXPIRED
          then recover_loop clock max_size file pos' (snd (rc_store_dfl clock rep t)) expired
          else recover_loop clock max_size file pos' t (expired + 1)
      | Error retval \<Rightarrow>
          if retval = KRB5_RC_IO_EOF then Done (0, t\<lparr>rc_pos := pos\<rparr>, expired) else Done (retval, t, expired)
      | Aborted \<Rightarrow> Aborted
      | Out_of_bounds \<Rightarrow> Out_of_bounds)"
  by pat_completeness auto
termination
  by (relation "measure (\<lambda>(clock, max_size, file, pos, t, expired). length file - pos)")
    (auto dest: fetch_decreases)

declare recover_loop.simps [simp del]

text \<open>The second half of \<open>krb5_rc_dfl_expunge\<close>: a new file with the entries of the list, moved over the old one.\<close>

definition rewrite_file :: "rc_io \<Rightarrow> int \<Rightarrow> int \<Rightarrow> dfl_data \<Rightarrow> krb5_error_code \<times> dfl_data" where
  "rewrite_file io skew lifespan t =
     (case krb5_rc_dfl_init io skew lifespan (krb5_rc_dfl_resolve []) of
        (retval, tmp) \<Rightarrow>
          if retval \<noteq> 0 then (retval, t)
          else
            let tmp = fold (\<lambda>rep tmp. write_at (rc_record rep) tmp) (rc_a t) tmp in
            if (rc_a t \<noteq> [] \<and> io_write io \<noteq> 0) \<or> io_sync io \<noteq> 0 \<or> io_move io \<noteq> 0 then (KRB5_RC_IO, t)
            else (0, t\<lparr>rc_file := rc_file tmp, rc_pos := rc_pos tmp\<rparr>))"

definition krb5_rc_dfl_recover ::
  "rc_io \<Rightarrow> int \<Rightarrow> krb5_timestamp option \<Rightarrow> dfl_data \<Rightarrow> (krb5_error_code \<times> dfl_data) c_outcome" where
  "krb5_rc_dfl_recover io skew clock t =
     (if io_open io \<noteq> 0 then Done (io_open io, t)
      else
        case krb5_rc_io_read 2 (rc_file t) 0 of
          Error retval \<Rightarrow> Done (retval, t\<lparr>rc_file := []\<rparr>)
        | Done (vno, pos) \<Rightarrow>
            if uint (vno ! 0) * 256 + uint (vno ! 1) \<noteq> KRB5_RC_VNO
            then Done (KRB5_RCACHE_BADVNO, t\<lparr>rc_file := []\<rparr>)
            else (case read_int (rc_file t) pos of
                Error _ \<Rightarrow> Done (KRB5_RC_IO, t)
              | Done (lifespan, pos) \<Rightarrow>
                  bindO (recover_loop clock (int (length (rc_file t))) (rc_file t) pos (t\<lparr>rc_lifespan := lifespan\<rparr>) 0)
                    (\<lambda>(retval, t, expired).
                      if retval \<noteq> 0 then Done (retval, t)
                      else if expired > EXCESSREPS
                      then Done (rewrite_file io skew (rc_lifespan t) t) else Done (0, t))
              | Aborted \<Rightarrow> Aborted
              | Out_of_bounds \<Rightarrow> Out_of_bounds)
        | Aborted \<Rightarrow> Aborted
        | Out_of_bounds \<Rightarrow> Out_of_bounds)"

definition krb5_rc_dfl_expunge ::
  "rc_io \<Rightarrow> int \<Rightarrow> krb5_timestamp option \<Rightarrow> dfl_data \<Rightarrow> (krb5_error_code \<times> dfl_data) c_outcome" where
  "krb5_rc_dfl_expunge io skew clock t =
     bindO (krb5_rc_dfl_recover io skew clock (krb5_rc_dfl_resolve (rc_file t))) (\<lambda>(retval, t').
       if retval \<noteq> 0 then Done (retval, t')
       else Done (rewrite_file io skew (rc_lifespan t) t'))"

definition krb5_rc_dfl_store ::
  "rc_io \<Rightarrow> int \<Rightarrow> krb5_timestamp option \<Rightarrow> krb5_donot_replay \<Rightarrow> dfl_data \<Rightarrow> (krb5_error_code \<times> dfl_data) c_outcome" where
  "krb5_rc_dfl_store io skew clock rep t =
     (case rc_store_dfl clock rep t of
        (code, t) \<Rightarrow>
          if code = CMP_REPLAY then Done (KRB5KRB_AP_ERR_REPEAT, t)
          else
            case krb5_rc_io_store io rep t of
              (ret, t) \<Rightarrow>
                if ret \<noteq> 0 then Done (ret, t)
                else if nummisses t > numhits t + EXCESSREPS then krb5_rc_dfl_expunge io skew clock t
                else if io_sync io \<noteq> 0 then Done (KRB5_RC_IO, t)
                else Done (0, t))"

section \<open>Reading back what was written\<close>

text \<open>An entry whose numbers fit their types and whose names are C strings of a size that fits an \<open>int\<close>.\<close>

definition good_rep :: "krb5_donot_replay \<Rightarrow> bool" where
  "good_rep r \<longleftrightarrow>
     NUL \<notin> set (dr_client r) \<and> NUL \<notin> set (dr_server r) \<and> is_i32 (dr_cusec r) \<and> is_i32 (dr_ctime r) \<and>
     is_i32 (int (length (dr_client r)) + 1) \<and> is_i32 (int (length (dr_server r)) + 1)"

lemma octets_simps [simp]: "length (octets s) = length s"
  by (simp add: octets_def)

lemma octets_text_string: "octets_text (octets s @ [0]) = s @ [NUL]"
proof -
  have "octets_text [0] = [NUL]" by code_simp
  then show ?thesis by (simp add: octets_text_append octets_text_octets)
qed

lemma length_mem_int [simp]: "length (mem_int i) = 4"
  by (simp add: mem_int_def)

lemma read_at: "krb5_rc_io_read (length bs) (pre @ bs @ rest) (length pre) =
    (if bs @ rest = [] then Error KRB5_RC_IO_EOF else Done (bs, length pre + length bs))"
  by (auto simp: krb5_rc_io_read_def)

lemma read_int_at:
  assumes "is_i32 i"
  shows "read_int (pre @ mem_int i @ rest) (length pre) = Done (i, length pre + 4)"
proof -
  have "mem_int i @ rest \<noteq> []" using length_mem_int [of i] by (cases "mem_int i") auto
  then have "krb5_rc_io_read 4 (pre @ mem_int i @ rest) (length pre) = Done (mem_int i, length pre + 4)"
    using read_at [of "mem_int i" pre rest] by simp
  moreover have "krb5_kdb_decode_int32 (mem_int i) = Done i"
    using decode_encode_int32 [of i "[]"] assms by (simp add: mem_int_def i32_id)
  ultimately show ?thesis by (simp add: read_int_def)
qed

lemma read_string_at:
  assumes "NUL \<notin> set s" "is_i32 (int (length s) + 1)" "int (length s) + 1 < maxlen"
  shows "read_string (pre @ mem_int (int (length s) + 1) @ octets s @ [0] @ rest) maxlen (length pre) =
    Done (s, length pre + 4 + (length s + 1))"
proof -
  let ?file = "pre @ mem_int (int (length s) + 1) @ octets s @ [0] @ rest"
  have "krb5_rc_io_read (length s + 1) ?file (length pre + 4) = Done (octets s @ [0], length pre + 4 + (length s + 1))"
    using read_at [of "octets s @ [0]" "pre @ mem_int (int (length s) + 1)" rest] by simp
  moreover have "nat (int (length s) + 1) = length s + 1" by simp
  moreover have "c_str (octets_text (octets s @ [0])) = s" "NUL \<in> set (octets_text (octets s @ [0]))"
    using c_str_terminated [OF assms(1), of "[]"] by (simp_all add: octets_text_string)
  ultimately show ?thesis
    using read_int_at [OF assms(2), of pre "octets s @ [0] @ rest"] assms(3) by (simp add: read_string_def)
qed

lemma fetch_at:
  assumes "good_rep r" "int (length (rc_record r)) \<le> maxlen"
  shows "krb5_rc_io_fetch (pre @ rc_record r @ rest) maxlen (length pre) = Done (r, length pre + length (rc_record r))"
proof -
  let ?c = "mem_int (int (length (dr_client r)) + 1) @ octets (dr_client r) @ [0]"
  let ?s = "mem_int (int (length (dr_server r)) + 1) @ octets (dr_server r) @ [0]"
  note good = assms(1) [unfolded good_rep_def]
  have rec: "rc_record r = ?c @ ?s @ mem_int (dr_cusec r) @ mem_int (dr_ctime r)"
    using good by (simp add: rc_record_def strlen_def c_str_id)
  have small: "int (length (dr_client r)) + 1 < maxlen" "int (length (dr_server r)) + 1 < maxlen"
    using assms(2) by (simp_all add: rec)
  have "read_string (pre @ rc_record r @ rest) maxlen (length pre) = Done (dr_client r, length (pre @ ?c))"
    using read_string_at [of "dr_client r" maxlen pre "?s @ mem_int (dr_cusec r) @ mem_int (dr_ctime r) @ rest"]
      good small(1) by (simp add: rec)
  moreover have "read_string (pre @ rc_record r @ rest) maxlen (length (pre @ ?c)) = Done (dr_server r, length (pre @ ?c @ ?s))"
    using read_string_at [of "dr_server r" maxlen "pre @ ?c" "mem_int (dr_cusec r) @ mem_int (dr_ctime r) @ rest"]
      good small(2) by (simp add: rec)
  moreover have "read_int (pre @ rc_record r @ rest) (length (pre @ ?c @ ?s)) =
      Done (dr_cusec r, length (pre @ ?c @ ?s @ mem_int (dr_cusec r)))"
    using read_int_at [of "dr_cusec r" "pre @ ?c @ ?s" "mem_int (dr_ctime r) @ rest"] good by (simp add: rec)
  moreover have "read_int (pre @ rc_record r @ rest) (length (pre @ ?c @ ?s @ mem_int (dr_cusec r))) =
      Done (dr_ctime r, length (pre @ rc_record r))"
    using read_int_at [of "dr_ctime r" "pre @ ?c @ ?s @ mem_int (dr_cusec r)" rest] good by (simp add: rec)
  ultimately show ?thesis by (simp add: krb5_rc_io_fetch_def)
qed

lemma fetch_end: "krb5_rc_io_fetch file maxlen (length file) = Error KRB5_RC_IO_EOF"
  by (simp add: krb5_rc_io_fetch_def read_string_def read_int_def krb5_rc_io_read_def)

section \<open>The table and the list hold the same entries\<close>

definition table_ok :: "dfl_data \<Rightarrow> bool" where
  "table_ok t \<longleftrightarrow>
     rc_h t = map (\<lambda>i. filter (\<lambda>r. nat (hash r (int HASHSIZE)) = i) (rc_a t)) [0..<HASHSIZE] \<and>
     (\<forall>r \<in> set (rc_a t). good_rep r)"

definition live :: "krb5_timestamp option \<Rightarrow> int \<Rightarrow> krb5_donot_replay \<Rightarrow> bool" where
  "live clock lifespan r \<longleftrightarrow> alive clock r lifespan \<noteq> CMP_EXPIRED"

lemma hash_range: "0 < h \<Longrightarrow> 0 \<le> hash r h \<and> hash r h < h"
proof -
  assume h: "0 < h"
  have rem: "- h < c_rem a h" for a
  proof (cases "a < 0")
    case True
    then show ?thesis using pos_mod_bound [OF h, of "- a"] by (simp add: c_rem_def)
  next
    case False
    then have "0 \<le> c_rem a h" using pos_mod_sign [OF h, of a] by (simp add: c_rem_def)
    then show ?thesis using h by linarith
  qed
  define a where "a = c_rem (i32 (dr_cusec r + dr_ctime r + first_char (dr_server r) + first_char (dr_client r))) h + h"
  have "0 < a"
    using rem [of "i32 (dr_cusec r + dr_ctime r + first_char (dr_server r) + first_char (dr_client r))"]
    unfolding a_def by linarith
  then have "c_rem a h = a mod h" by (simp add: c_rem_def)
  then show ?thesis using h by (simp add: hash_def a_def)
qed

lemma search_chain_found:
  "fst (search_chain clock rep lifespan tas n) \<longleftrightarrow> (\<exists>ta \<in> set tas. cmp ta rep = CMP_REPLAY)"
  by (induction clock rep lifespan tas n rule: search_chain.induct) (auto split: cmp_code.splits)

lemma cmp_good: "good_rep r \<Longrightarrow> good_rep r' \<Longrightarrow> cmp r r' = CMP_REPLAY \<longleftrightarrow> r = r'"
  by (auto simp: cmp_def good_rep_def c_str_id)

lemma table_chain:
  assumes "table_ok t"
  shows "rc_h t ! nat (hash r (int HASHSIZE)) = filter (\<lambda>r'. hash r' (int HASHSIZE) = hash r (int HASHSIZE)) (rc_a t)"
    and "length (rc_h t) = HASHSIZE" "nat (hash r (int HASHSIZE)) < HASHSIZE"
proof -
  have range: "0 \<le> hash r (int HASHSIZE) \<and> hash r (int HASHSIZE) < int HASHSIZE" for r
    by (rule hash_range) (simp add: HASHSIZE_def)
  then show less: "nat (hash r (int HASHSIZE)) < HASHSIZE" by (simp add: nat_less_iff)
  show "length (rc_h t) = HASHSIZE" using assms by (simp add: table_ok_def)
  have "nat (hash r' (int HASHSIZE)) = nat (hash r (int HASHSIZE)) \<longleftrightarrow> hash r' (int HASHSIZE) = hash r (int HASHSIZE)" for r'
    using range [of r] range [of r'] by auto
  then show "rc_h t ! nat (hash r (int HASHSIZE)) =
      filter (\<lambda>r'. hash r' (int HASHSIZE) = hash r (int HASHSIZE)) (rc_a t)"
    using assms less by (simp add: table_ok_def)
qed

lemma rc_store_dfl_spec:
  assumes "table_ok t" "good_rep rep"
  shows "fst (rc_store_dfl clock rep t) = (if rep \<in> set (rc_a t) then CMP_REPLAY else CMP_HOHUM)"
    and "table_ok (snd (rc_store_dfl clock rep t))"
    and "set (rc_a (snd (rc_store_dfl clock rep t))) = insert rep (set (rc_a t))"
    and "rc_lifespan (snd (rc_store_dfl clock rep t)) = rc_lifespan t"
    and "rc_file (snd (rc_store_dfl clock rep t)) = rc_file t" "rc_pos (snd (rc_store_dfl clock rep t)) = rc_pos t"
proof -
  define k where "k = nat (hash rep (int HASHSIZE))"
  note chain = table_chain(1) [OF assms(1), of rep, folded k_def] table_chain(2) [OF assms(1)]
    table_chain(3) [OF assms(1), of rep, folded k_def]
  obtain found hits misses where
    search: "search_chain clock rep (rc_lifespan t) (rc_h t ! k) (numhits t, nummisses t) = (found, hits, misses)"
    by (metis prod_cases3)
  have "found \<longleftrightarrow> (\<exists>ta \<in> set (rc_h t ! k). cmp ta rep = CMP_REPLAY)"
    using search_chain_found [of clock rep "rc_lifespan t" "rc_h t ! k" "(numhits t, nummisses t)"] by (simp add: search)
  moreover have "cmp ta rep = CMP_REPLAY \<longleftrightarrow> ta = rep" if "ta \<in> set (rc_a t)" for ta
    using that assms by (intro cmp_good) (simp_all add: table_ok_def)
  ultimately have found: "found \<longleftrightarrow> rep \<in> set (rc_a t)"
    by (auto simp: chain(1))
  define t1 where "t1 = t\<lparr>numhits := hits, nummisses := misses\<rparr>"
  have result: "rc_store_dfl clock rep t =
      (if found then (CMP_REPLAY, t1) else (CMP_HOHUM, t1\<lparr>rc_a := rep # rc_a t, rc_h := (rc_h t)[k := rep # rc_h t ! k]\<rparr>))"
    by (simp add: rc_store_dfl_def chain(2) search Let_def t1_def flip: k_def)
  show "fst (rc_store_dfl clock rep t) = (if rep \<in> set (rc_a t) then CMP_REPLAY else CMP_HOHUM)"
    by (simp add: result found)
  show "set (rc_a (snd (rc_store_dfl clock rep t))) = insert rep (set (rc_a t))"
    using found by (auto simp: result t1_def)
  show "rc_lifespan (snd (rc_store_dfl clock rep t)) = rc_lifespan t"
    "rc_file (snd (rc_store_dfl clock rep t)) = rc_file t" "rc_pos (snd (rc_store_dfl clock rep t)) = rc_pos t"
    by (simp_all add: result t1_def)
  have "(rc_h t)[k := rep # rc_h t ! k] =
      map (\<lambda>i. filter (\<lambda>r. nat (hash r (int HASHSIZE)) = i) (rep # rc_a t)) [0..<HASHSIZE]"
    using assms(1) chain(3) by (intro nth_equalityI) (auto simp: table_ok_def nth_list_update k_def)
  then show "table_ok (snd (rc_store_dfl clock rep t))"
    using assms by (simp add: result t1_def table_ok_def)
qed

text \<open>What the loop of \<open>krb5_rc_dfl_recover\<close> does with a record.\<close>

definition recover_step :: "krb5_timestamp option \<Rightarrow> krb5_donot_replay \<Rightarrow> dfl_data \<Rightarrow> dfl_data" where
  "recover_step clock r t = (if live clock (rc_lifespan t) r then snd (rc_store_dfl clock r t) else t)"

lemma recover_loop_records:
  assumes "\<forall>r \<in> set rs. good_rep r" "table_ok t"
    and "file = pre @ concat (map rc_record rs)"
  shows "\<exists>n. recover_loop clock (int (length file)) file (length pre) t expired =
    Done (0, (fold (recover_step clock) rs t)\<lparr>rc_pos := length file\<rparr>, n)"
  using assms
proof (induction rs arbitrary: pre t expired)
  case Nil
  then show ?case by (subst recover_loop.simps) (simp add: fetch_end [of pre])
next
  case (Cons r rs)
  let ?pre = "pre @ rc_record r"
  have fetched: "krb5_rc_io_fetch file (int (length file)) (length pre) = Done (r, length ?pre)"
    using fetch_at [of r "int (length file)" pre "concat (map rc_record rs)"] Cons.prems(1,3) by simp
  have rest: "file = ?pre @ concat (map rc_record rs)" using Cons.prems(3) by simp
  show ?case
  proof (cases "live clock (rc_lifespan t) r")
    case True
    have "table_ok (snd (rc_store_dfl clock r t))" using rc_store_dfl_spec(2) Cons.prems by simp
    moreover have "recover_step clock r t = snd (rc_store_dfl clock r t)" using True by (simp add: recover_step_def)
    ultimately show ?thesis
      using Cons.IH [OF _ _ rest, of "snd (rc_store_dfl clock r t)"] Cons.prems(1) fetched True
      by (subst recover_loop.simps) (simp add: live_def)
  next
    case False
    then have "recover_step clock r t = t" by (simp add: recover_step_def)
    then show ?thesis
      using Cons.IH [OF _ Cons.prems(2) rest] Cons.prems(1) fetched False
      by (subst recover_loop.simps) (simp add: live_def)
  qed
qed

lemma recover_steps:
  assumes "\<forall>r \<in> set rs. good_rep r" "table_ok t"
  shows "table_ok (fold (recover_step clock) rs t) \<and> rc_lifespan (fold (recover_step clock) rs t) = rc_lifespan t \<and>
    rc_file (fold (recover_step clock) rs t) = rc_file t \<and>
    set (rc_a (fold (recover_step clock) rs t)) = set (rc_a t) \<union> {r \<in> set rs. live clock (rc_lifespan t) r}"
  using assms
proof (induction rs arbitrary: t)
  case (Cons r rs)
  have good: "good_rep r" using Cons.prems(1) by simp
  note spec = rc_store_dfl_spec [OF Cons.prems(2) good, of clock]
  have step: "table_ok (recover_step clock r t)" "rc_lifespan (recover_step clock r t) = rc_lifespan t"
    "rc_file (recover_step clock r t) = rc_file t"
    "set (rc_a (recover_step clock r t)) = set (rc_a t) \<union> (if live clock (rc_lifespan t) r then {r} else {})"
    using spec Cons.prems(2) by (auto simp: recover_step_def)
  show ?case using Cons.IH [OF _ step(1)] Cons.prems(1) step(2-4) by auto
qed simp

section \<open>The invariant\<close>

text \<open>The file holds a record for every entry in memory, and maybe records of others.\<close>

definition file_ok :: "dfl_data \<Rightarrow> bool" where
  "file_ok t \<longleftrightarrow>
     is_i32 (rc_lifespan t) \<and> rc_lifespan t \<noteq> 0 \<and> rc_pos t = length (rc_file t) \<and>
     (\<exists>rs. rc_file t = rc_header (rc_lifespan t) @ concat (map rc_record rs) \<and> set (rc_a t) \<subseteq> set rs \<and>
        (\<forall>r \<in> set rs. good_rep r))"

definition rc_inv :: "dfl_data \<Rightarrow> bool" where
  "rc_inv t \<longleftrightarrow> table_ok t \<and> file_ok t"

definition io_ok :: "rc_io \<Rightarrow> bool" where
  "io_ok io \<longleftrightarrow> io_open io = 0 \<and> io_creat io = 0 \<and> io_write io = 0 \<and> io_sync io = 0 \<and> io_move io = 0"

lemma write_at_end:
  "rc_pos t = length (rc_file t) \<Longrightarrow>
     write_at buf t = t\<lparr>rc_file := rc_file t @ buf, rc_pos := length (rc_file t @ buf)\<rparr>"
  by (simp add: write_at_def)

lemma write_all:
  "rc_pos t = length (rc_file t) \<Longrightarrow>
     rc_file (fold (\<lambda>rep t. write_at (rc_record rep) t) rs t) = rc_file t @ concat (map rc_record rs) \<and>
     rc_pos (fold (\<lambda>rep t. write_at (rc_record rep) t) rs t) = length (rc_file t @ concat (map rc_record rs))"
  by (induction rs arbitrary: t) (simp_all add: write_at_end)

lemma rewrite_file_ok:
  assumes "io_ok io" "table_ok t" "is_i32 (rc_lifespan t)" "rc_lifespan t \<noteq> 0"
  shows "\<exists>t'. rewrite_file io skew (rc_lifespan t) t = (0, t') \<and> rc_inv t' \<and> rc_a t' = rc_a t \<and>
    rc_lifespan t' = rc_lifespan t"
proof -
  define tmp where "tmp = snd (krb5_rc_dfl_init io skew (rc_lifespan t) (krb5_rc_dfl_resolve []))"
  have init: "krb5_rc_dfl_init io skew (rc_lifespan t) (krb5_rc_dfl_resolve []) = (0, tmp)"
    "rc_file tmp = rc_header (rc_lifespan t)" "rc_pos tmp = length (rc_file tmp)"
    using assms(1,4) by (simp_all add: krb5_rc_dfl_init_def krb5_rc_dfl_resolve_def io_ok_def tmp_def Let_def)
  define tmp' where "tmp' = fold (\<lambda>rep tmp. write_at (rc_record rep) tmp) (rc_a t) tmp"
  have tmp': "rc_file tmp' = rc_header (rc_lifespan t) @ concat (map rc_record (rc_a t))" "rc_pos tmp' = length (rc_file tmp')"
    using write_all [OF init(3), of "rc_a t"] by (simp_all add: tmp'_def init(2))
  let ?t = "t\<lparr>rc_file := rc_file tmp', rc_pos := rc_pos tmp'\<rparr>"
  have "rewrite_file io skew (rc_lifespan t) t = (0, ?t)"
    using assms(1) by (simp add: rewrite_file_def init(1) io_ok_def Let_def flip: tmp'_def)
  moreover have "table_ok ?t" using assms(2) by (simp add: table_ok_def)
  moreover have "file_ok ?t"
    using assms(2-4) tmp' unfolding file_ok_def by (auto simp: table_ok_def intro!: exI [of _ "rc_a t"])
  ultimately show ?thesis by (auto simp: rc_inv_def)
qed

lemma rc_header_bytes: "rc_header lifespan = [5, 1] @ mem_int lifespan"
proof -
  have "(word_of_int (KRB5_RC_VNO div 256) :: octet) = 5" "(word_of_int KRB5_RC_VNO :: octet) = 1" by code_simp+
  then show ?thesis by (simp add: rc_header_def)
qed

lemma header_read:
  assumes "is_i32 lifespan"
  shows "krb5_rc_io_read 2 (rc_header lifespan @ rest) 0 = Done ([5, 1], 2)"
    "read_int (rc_header lifespan @ rest) 2 = Done (lifespan, 6)"
  using read_at [of "[5, 1]" "[]" "mem_int lifespan @ rest"] read_int_at [OF assms, of "[5, 1]" rest]
  by (simp_all add: rc_header_bytes numeral_2_eq_2)

lemma resolve_table_ok: "table_ok (krb5_rc_dfl_resolve file)"
  by (auto simp: table_ok_def krb5_rc_dfl_resolve_def intro: nth_equalityI)

lemma recover_records:
  assumes "io_ok io" "\<forall>r \<in> set rs. good_rep r" "is_i32 lifespan" "lifespan \<noteq> 0"
  shows "\<exists>t'. krb5_rc_dfl_recover io skew clock
      (krb5_rc_dfl_resolve (rc_header lifespan @ concat (map rc_record rs))) = Done (0, t') \<and>
    rc_inv t' \<and> rc_lifespan t' = lifespan \<and> set (rc_a t') = {r \<in> set rs. live clock lifespan r}"
proof -
  let ?file = "rc_header lifespan @ concat (map rc_record rs)"
  define t0 where "t0 = (krb5_rc_dfl_resolve ?file)\<lparr>rc_lifespan := lifespan\<rparr>"
  define t1 where "t1 = (fold (recover_step clock) rs t0)\<lparr>rc_pos := length ?file\<rparr>"
  have "table_ok t0" using resolve_table_ok [of ?file] by (simp add: t0_def table_ok_def)
  note steps = recover_steps [OF assms(2) this, of clock]
  have "length (rc_header lifespan) = 6" by (simp add: rc_header_def)
  then obtain n where loop: "recover_loop clock (int (length ?file)) ?file 6 t0 0 = Done (0, t1, n)"
    using recover_loop_records [OF assms(2) \<open>table_ok t0\<close> refl, where pre = "rc_header lifespan" and clock = clock
        and expired = 0] by (auto simp: t1_def)
  have t1: "table_ok t1" "rc_lifespan t1 = lifespan" "set (rc_a t1) = {r \<in> set rs. live clock lifespan r}"
    "rc_file t1 = ?file" "rc_pos t1 = length ?file"
    using steps by (simp_all add: t1_def t0_def table_ok_def krb5_rc_dfl_resolve_def)
  then have inv: "rc_inv t1"
    using assms(2-4) unfolding rc_inv_def file_ok_def by (auto intro!: exI [of _ rs])
  have recover: "krb5_rc_dfl_recover io skew clock (krb5_rc_dfl_resolve ?file) =
      (if n > EXCESSREPS then Done (rewrite_file io skew (rc_lifespan t1) t1) else Done (0, t1))"
    using assms(1) header_read [OF assms(3), of "concat (map rc_record rs)"] loop
    by (simp add: krb5_rc_dfl_recover_def io_ok_def KRB5_RC_VNO_def t0_def krb5_rc_dfl_resolve_def)
  show ?thesis
    using rewrite_file_ok [OF assms(1) t1(1), of skew] inv t1(2,3) assms(3,4) by (auto simp: recover)
qed

lemma recover_ok:
  assumes "io_ok io" "rc_inv t"
  shows "\<exists>t'. krb5_rc_dfl_recover io skew clock (krb5_rc_dfl_resolve (rc_file t)) = Done (0, t') \<and> rc_inv t' \<and>
    rc_lifespan t' = rc_lifespan t \<and> (\<forall>r \<in> set (rc_a t). live clock (rc_lifespan t) r \<longrightarrow> r \<in> set (rc_a t'))"
proof -
  from assms(2) obtain rs where
    rs: "rc_file t = rc_header (rc_lifespan t) @ concat (map rc_record rs)" "set (rc_a t) \<subseteq> set rs"
      "\<forall>r \<in> set rs. good_rep r" and l: "is_i32 (rc_lifespan t)" "rc_lifespan t \<noteq> 0"
    unfolding rc_inv_def file_ok_def by blast
  from recover_records [OF assms(1) rs(3) l, of skew clock] rs(1,2) show ?thesis by auto
qed

lemma expunge_ok:
  assumes "io_ok io" "rc_inv t"
  shows "\<exists>t'. krb5_rc_dfl_expunge io skew clock t = Done (0, t') \<and> rc_inv t' \<and>
    rc_lifespan t' = rc_lifespan t \<and> (\<forall>r \<in> set (rc_a t). live clock (rc_lifespan t) r \<longrightarrow> r \<in> set (rc_a t'))"
proof -
  obtain t1 where
    t1: "krb5_rc_dfl_recover io skew clock (krb5_rc_dfl_resolve (rc_file t)) = Done (0, t1)" "rc_inv t1"
      "rc_lifespan t1 = rc_lifespan t" "\<forall>r \<in> set (rc_a t). live clock (rc_lifespan t) r \<longrightarrow> r \<in> set (rc_a t1)"
    using recover_ok [OF assms] by blast
  have "table_ok t1" "is_i32 (rc_lifespan t1)" "rc_lifespan t1 \<noteq> 0"
    using t1(2) by (simp_all add: rc_inv_def file_ok_def)
  from rewrite_file_ok [OF assms(1) this, of skew] t1 show ?thesis
    by (auto simp: krb5_rc_dfl_expunge_def)
qed

lemma append_record_ok:
  assumes "file_ok t" "good_rep rep" "set (rc_a t') \<subseteq> insert rep (set (rc_a t))" "rc_lifespan t' = rc_lifespan t"
    "rc_file t' = rc_file t" "rc_pos t' = rc_pos t"
  shows "file_ok (write_at (rc_record rep) t')"
proof -
  from assms(1) obtain rs where
    rs: "rc_file t = rc_header (rc_lifespan t) @ concat (map rc_record rs)" "set (rc_a t) \<subseteq> set rs"
      "\<forall>r \<in> set rs. good_rep r" and l: "is_i32 (rc_lifespan t)" "rc_lifespan t \<noteq> 0" "rc_pos t = length (rc_file t)"
    unfolding file_ok_def by blast
  have "write_at (rc_record rep) t' = t'\<lparr>rc_file := rc_file t @ rc_record rep, rc_pos := length (rc_file t @ rc_record rep)\<rparr>"
    using l(3) assms(5,6) by (simp add: write_at_end)
  moreover have "set (rc_a t') \<subseteq> set (rs @ [rep])" using assms(3) rs(2) by auto
  moreover have "\<forall>r \<in> set (rs @ [rep]). good_rep r" using assms(2) rs(3) by auto
  moreover have "rc_file t @ rc_record rep = rc_header (rc_lifespan t) @ concat (map rc_record (rs @ [rep]))"
    by (simp add: rs(1))
  ultimately show ?thesis
    using l(1,2) assms(4) unfolding file_ok_def by (auto intro!: exI [of _ "rs @ [rep]"])
qed

lemma store_ok:
  assumes "io_ok io" "rc_inv t" "good_rep rep"
  shows "\<exists>t'. krb5_rc_dfl_store io skew clock rep t =
      Done (if rep \<in> set (rc_a t) then KRB5KRB_AP_ERR_REPEAT else 0, t') \<and> rc_inv t' \<and> rc_lifespan t' = rc_lifespan t \<and>
    (\<forall>r \<in> insert rep (set (rc_a t)). live clock (rc_lifespan t) r \<longrightarrow> r \<in> set (rc_a t'))"
proof -
  have inv: "table_ok t" "file_ok t" using assms(2) by (simp_all add: rc_inv_def)
  obtain code t1 where stored: "rc_store_dfl clock rep t = (code, t1)" by fastforce
  note spec = rc_store_dfl_spec [OF inv(1) assms(3), of clock, unfolded stored fst_conv snd_conv]
  show ?thesis
  proof (cases "rep \<in> set (rc_a t)")
    case True
    then have "file_ok t1" using inv(2) spec by (simp add: file_ok_def insert_absorb)
    then show ?thesis using True spec by (simp add: krb5_rc_dfl_store_def stored rc_inv_def insert_absorb)
  next
    case False
    define t2 where "t2 = write_at (rc_record rep) t1"
    have "file_ok t2" using append_record_ok [OF inv(2) assms(3)] spec by (simp add: t2_def)
    moreover have "table_ok t2" "rc_a t2 = rc_a t1" "rc_lifespan t2 = rc_lifespan t"
      using spec by (simp_all add: t2_def write_at_def table_ok_def)
    ultimately have t2: "rc_inv t2" "rc_a t2 = rc_a t1" "rc_lifespan t2 = rc_lifespan t" by (simp_all add: rc_inv_def)
    have "krb5_rc_dfl_store io skew clock rep t =
        (if nummisses t2 > numhits t2 + EXCESSREPS then krb5_rc_dfl_expunge io skew clock t2 else Done (0, t2))"
      using False spec(1) assms(1) by (simp add: krb5_rc_dfl_store_def stored krb5_rc_io_store_def io_ok_def t2_def)
    then show ?thesis
      using False expunge_ok [OF assms(1) t2(1), of skew clock] t2 spec(3) by auto
  qed
qed

section \<open>The contract of a replay cache\<close>

text \<open>
  A replay cache knows a set of entries.  An event keeps the entries that are not expired at
  its time; which these are does not depend on the events before.
\<close>

locale replay_guard =
  fixes known :: "'s \<Rightarrow> 'r set"
    and run :: "'e \<Rightarrow> 's \<Rightarrow> 's"
    and wf :: "'s \<Rightarrow> bool"
    and admitted :: "'e \<Rightarrow> bool"
    and kept :: "'e \<Rightarrow> 's \<Rightarrow> 'r \<Rightarrow> bool"
  assumes run_wf: "wf s \<Longrightarrow> admitted e \<Longrightarrow> wf (run e s)"
    and run_known: "wf s \<Longrightarrow> admitted e \<Longrightarrow> r \<in> known s \<Longrightarrow> kept e s r \<Longrightarrow> r \<in> known (run e s)"
    and run_kept: "wf s \<Longrightarrow> admitted e \<Longrightarrow> kept e' (run e s) r \<longleftrightarrow> kept e' s r"
begin

lemma runs_known:
  "wf s \<Longrightarrow> r \<in> known s \<Longrightarrow> \<forall>e \<in> set es. admitted e \<and> kept e s r \<Longrightarrow>
     wf (fold run es s) \<and> r \<in> known (fold run es s)"
proof (induction es arbitrary: s)
  case (Cons e es)
  then have "wf (run e s)" "r \<in> known (run e s)" by (simp_all add: run_wf run_known)
  moreover have "\<forall>e' \<in> set es. admitted e' \<and> kept e' (run e s) r"
    using Cons.prems by (simp add: run_kept)
  ultimately show ?case using Cons.IH by simp
qed simp

end

text \<open>
  What happens to a cache: an entry is stored, the cache is expunged, or another process reads
  the file.
\<close>

datatype rc_event =
  Rc_store rc_io int "krb5_timestamp option" krb5_donot_replay
| Rc_expunge rc_io int "krb5_timestamp option"
| Rc_restart rc_io int "krb5_timestamp option"

definition state_after :: "(krb5_error_code \<times> dfl_data) c_outcome \<Rightarrow> dfl_data \<Rightarrow> dfl_data" where
  "state_after r t = (case r of Done (code, t') \<Rightarrow> t' | _ \<Rightarrow> t)"

fun rc_run :: "rc_event \<Rightarrow> dfl_data \<Rightarrow> dfl_data" where
  "rc_run (Rc_store io skew clock rep) t = state_after (krb5_rc_dfl_store io skew clock rep t) t"
| "rc_run (Rc_expunge io skew clock) t = state_after (krb5_rc_dfl_expunge io skew clock t) t"
| "rc_run (Rc_restart io skew clock) t =
     state_after (krb5_rc_dfl_recover io skew clock (krb5_rc_dfl_resolve (rc_file t))) t"

fun rc_admitted :: "rc_event \<Rightarrow> bool" where
  "rc_admitted (Rc_store io skew clock rep) \<longleftrightarrow> io_ok io \<and> good_rep rep"
| "rc_admitted (Rc_expunge io skew clock) \<longleftrightarrow> io_ok io"
| "rc_admitted (Rc_restart io skew clock) \<longleftrightarrow> io_ok io"

fun rc_clock :: "rc_event \<Rightarrow> krb5_timestamp option" where
  "rc_clock (Rc_store io skew clock rep) = clock"
| "rc_clock (Rc_expunge io skew clock) = clock"
| "rc_clock (Rc_restart io skew clock) = clock"

lemma rc_run_ok:
  assumes "rc_inv t" "rc_admitted e"
  shows "rc_inv (rc_run e t) \<and> rc_lifespan (rc_run e t) = rc_lifespan t \<and>
    (\<forall>r \<in> set (rc_a t). live (rc_clock e) (rc_lifespan t) r \<longrightarrow> r \<in> set (rc_a (rc_run e t)))"
proof (cases e)
  case (Rc_store io skew clock rep)
  then show ?thesis using store_ok [of io t rep skew clock] assms by (auto simp: state_after_def)
next
  case (Rc_expunge io skew clock)
  then show ?thesis using expunge_ok [of io t skew clock] assms by (auto simp: state_after_def)
next
  case (Rc_restart io skew clock)
  then show ?thesis using recover_ok [of io t skew clock] assms by (auto simp: state_after_def)
qed

interpretation rg: replay_guard "\<lambda>t. set (rc_a t)" rc_run rc_inv rc_admitted "\<lambda>e t. live (rc_clock e) (rc_lifespan t)"
  by unfold_locales (use rc_run_ok in auto)

section \<open>Properties\<close>

text \<open>A new cache.\<close>

lemma init_ok:
  assumes "io_ok io" "lifespan \<noteq> 0" "is_i32 lifespan"
  shows "\<exists>t. krb5_rc_dfl_init io skew lifespan (krb5_rc_dfl_resolve []) = (0, t) \<and> rc_inv t \<and> rc_a t = [] \<and>
    rc_lifespan t = lifespan"
  using assms resolve_table_ok [of "[]"]
  by (auto simp: krb5_rc_dfl_init_def io_ok_def rc_inv_def table_ok_def file_ok_def krb5_rc_dfl_resolve_def
      intro!: exI [of _ "[]"])

definition io_works :: rc_io where
  "io_works = \<lparr>io_open = 0, io_creat = 0, io_write = 0, io_sync = 0, io_move = 0\<rparr>"

definition sample_replay :: "int \<Rightarrow> krb5_donot_replay" where
  "sample_replay cusec = \<lparr>dr_server = ''krbtgt/ATHENA.MIT.EDU@ATHENA.MIT.EDU'', dr_client = ''jis@ATHENA.MIT.EDU'',
     dr_cusec = cusec, dr_ctime = 1000000\<rparr>"

lemma io_works_ok: "io_ok io_works"
  by (simp add: io_ok_def io_works_def)

lemma sample_replay_good: "is_i32 cusec \<Longrightarrow> good_rep (sample_replay cusec)"
  by (simp add: good_rep_def sample_replay_def is_i32_def NUL_def)

lemma stored_entry_refused:
  assumes "rc_inv t" and "good_rep rep" and "io_ok io"
    and "krb5_rc_dfl_store io skew (Some now) rep t = Done (0, t1)" and "now \<le> i32 (dr_ctime rep + rc_lifespan t)"
    and "\<forall>e \<in> set es. rc_admitted e \<and> (\<forall>time. rc_clock e = Some time \<longrightarrow> time \<le> i32 (dr_ctime rep + rc_lifespan t))"
    and "io_ok io'"
  shows "\<exists>t2. krb5_rc_dfl_store io' skew' clock rep (fold rc_run es t1) = Done (KRB5KRB_AP_ERR_REPEAT, t2)"
proof -
  have t1: "rc_inv t1" "rc_lifespan t1 = rc_lifespan t" "rep \<in> set (rc_a t1)"
    using store_ok [OF assms(3,1,2), of skew "Some now"] assms(4,5) by (auto simp: live_def alive_def)
  have "\<forall>e \<in> set es. rc_admitted e \<and> live (rc_clock e) (rc_lifespan t1) rep"
    using assms(6) by (auto simp: live_def alive_def t1(2) not_less split: option.split)
  then have "rc_inv (fold rc_run es t1)" "rep \<in> set (rc_a (fold rc_run es t1))"
    using rg.runs_known [OF t1(1,3)] by blast+
  then show ?thesis using store_ok [OF assms(7) _ assms(2), of "fold rc_run es t1" skew' clock] by auto
qed

text \<open>
  C7. No authenticator is accepted twice: after an entry has been stored, storing it again is
  refused as a replay as long as it has not expired, whatever other entries are stored,
  however often the cache is expunged, and also by a process that has read the cache from its
  file, provided that the file operations succeed.
\<close>

theorem replay_refused:
  assumes "rc_inv t" and "good_rep rep" and "io_ok io"
    and "krb5_rc_dfl_store io skew (Some now) rep t = Done (0, t1)" and "now \<le> i32 (dr_ctime rep + rc_lifespan t)"
    and "\<forall>e \<in> set es. rc_admitted e \<and> (\<forall>time. rc_clock e = Some time \<longrightarrow> time \<le> i32 (dr_ctime rep + rc_lifespan t))"
    and "io_ok io'"
  shows "\<exists>t2. krb5_rc_dfl_store io' skew' clock rep (fold rc_run es t1) = Done (KRB5KRB_AP_ERR_REPEAT, t2)"
  by (rule stored_entry_refused [OF assms])

theorem replay_refused_witness:
  "\<exists>t t1 t2. krb5_rc_dfl_init io_works 300 300 (krb5_rc_dfl_resolve []) = (0, t) \<and>
     krb5_rc_dfl_store io_works 300 (Some 1000010) (sample_replay 5) t = Done (0, t1) \<and>
     krb5_rc_dfl_store io_works 300 (Some 1000100) (sample_replay 5)
       (fold rc_run [Rc_store io_works 300 (Some 1000020) (sample_replay 6), Rc_expunge io_works 300 (Some 1000030),
          Rc_restart io_works 300 (Some 1000040)] t1) = Done (KRB5KRB_AP_ERR_REPEAT, t2)"
proof -
  obtain t where
    t: "krb5_rc_dfl_init io_works 300 300 (krb5_rc_dfl_resolve []) = (0, t)" "rc_inv t" "rc_a t = []" "rc_lifespan t = 300"
    using init_ok [OF io_works_ok, of 300 300] by (auto simp: is_i32_def)
  have good: "good_rep (sample_replay 5)" "good_rep (sample_replay 6)" by (simp_all add: sample_replay_good is_i32_def)
  obtain t1 where t1: "krb5_rc_dfl_store io_works 300 (Some 1000010) (sample_replay 5) t = Done (0, t1)"
    using store_ok [OF io_works_ok t(2) good(1), of 300 "Some 1000010"] t(3) by auto
  have end_time: "i32 (dr_ctime (sample_replay 5) + rc_lifespan t) = 1000300"
    by (simp add: t(4) sample_replay_def i32_def)
  have "\<exists>t2. krb5_rc_dfl_store io_works 300 (Some 1000100) (sample_replay 5)
       (fold rc_run [Rc_store io_works 300 (Some 1000020) (sample_replay 6), Rc_expunge io_works 300 (Some 1000030),
          Rc_restart io_works 300 (Some 1000040)] t1) = Done (KRB5KRB_AP_ERR_REPEAT, t2)"
    by (rule replay_refused [OF t(2) good(1) io_works_ok t1 _ _ io_works_ok]) (simp_all add: end_time io_works_ok good(2))
  then show ?thesis using t(1) t1 by blast
qed

text \<open>
  C16. The file of a cache is read back: from a file with a header and any records, as \<open>krb5_rc_dfl_init\<close>
  and \<open>krb5_rc_io_store\<close> write them, \<open>krb5_rc_dfl_recover\<close> returns a well-formed cache with the
  lifespan of the header and exactly the entries that have not expired.
\<close>

theorem recover_reads_back:
  assumes "io_ok io" and "\<forall>r \<in> set rs. good_rep r" and "is_i32 lifespan" "lifespan \<noteq> 0"
  shows "\<exists>t. krb5_rc_dfl_recover io skew (Some now)
      (krb5_rc_dfl_resolve (rc_header lifespan @ concat (map rc_record rs))) = Done (0, t) \<and>
    rc_inv t \<and> rc_lifespan t = lifespan \<and> set (rc_a t) = {r \<in> set rs. now \<le> i32 (dr_ctime r + lifespan)}"
  using recover_records [OF assms, of skew "Some now"] by (auto simp: live_def alive_def not_less)

theorem recover_reads_back_witness:
  "\<exists>t. krb5_rc_dfl_recover io_works 300 (Some 1000100)
      (krb5_rc_dfl_resolve (rc_header 300 @ concat (map rc_record [sample_replay 5, sample_replay 6]))) = Done (0, t) \<and>
    set (rc_a t) = {sample_replay 5, sample_replay 6}"
proof -
  have "\<forall>r \<in> set [sample_replay 5, sample_replay 6]. good_rep r" by (simp add: sample_replay_good is_i32_def)
  moreover have "is_i32 300" "(300::int) \<noteq> 0" by (simp_all add: is_i32_def)
  moreover have "i32 (dr_ctime (sample_replay c) + 300) = 1000300" for c by (simp add: sample_replay_def i32_def)
  ultimately show ?thesis
    using recover_reads_back [OF io_works_ok, of "[sample_replay 5, sample_replay 6]" 300 300 1000100] by auto
qed

end
