(* ===== verification/Krb5_RdReq.thy ===== *)
theory Krb5_RdReq
  imports Krb5_Rcache Krb5_Realm
begin

text \<open>
  The reader of an authentication request, \<open>krb5_rd_req_decoded_opt\<close> of
  \<open>lib/krb5/krb/rd_req_dec.c\<close> in the hierarchical configuration, with what it calls: the
  comparison and search of addresses (\<open>addr_comp.c\<close>, \<open>addr_srch.c\<close>, \<open>addr_order.c\<close>), the check of
  ticket times (\<open>valid_times.c\<close>), the entry made for the replay cache (\<open>rcache/rc_conv.c\<close>), and
  the replay cache and the check of the transited field of the theories imported.
\<close>

section \<open>Addresses and times\<close>

definition krb5_address_compare :: "krb5_address \<Rightarrow> krb5_address \<Rightarrow> bool" where
  "krb5_address_compare addr1 addr2 \<longleftrightarrow>
     addrtype addr1 = addrtype addr2 \<and> length (addr_contents addr1) = length (addr_contents addr2) \<and>
     take (length (addr_contents addr1)) (addr_contents addr1) = take (length (addr_contents addr1)) (addr_contents addr2)"

fun address_search_loop :: "krb5_address \<Rightarrow> krb5_address list \<Rightarrow> bool" where
  "address_search_loop addr [] = False"
| "address_search_loop addr (a # addrlist) = (krb5_address_compare addr a \<or> address_search_loop addr addrlist)"

definition krb5_address_search :: "krb5_address \<Rightarrow> krb5_address list option \<Rightarrow> bool" where
  "krb5_address_search addr addrlist = (case addrlist of None \<Rightarrow> True | Some as \<Rightarrow> address_search_loop addr as)"

fun order_loop :: "octet list \<Rightarrow> octet list \<Rightarrow> int \<Rightarrow> int" where
  "order_loop (a # as) (b # bs) dir = (if a < b then -1 else if a > b then 1 else order_loop as bs dir)"
| "order_loop _ _ dir = dir"

definition krb5_address_order :: "krb5_address \<Rightarrow> krb5_address \<Rightarrow> int" where
  "krb5_address_order addr1 addr2 =
     (if addrtype addr1 \<noteq> addrtype addr2 then 0
      else order_loop (addr_contents addr1) (addr_contents addr2)
             (int (length (addr_contents addr1)) - int (length (addr_contents addr2))))"

definition krb5_validate_times :: "krb5_timestamp krb5_result \<Rightarrow> int \<Rightarrow> krb5_ticket_times \<Rightarrow> krb5_error_code" where
  "krb5_validate_times clock skew tt =
     (case clock of
        Inl retval \<Rightarrow> retval
      | Inr currenttime \<Rightarrow>
          let start = (if starttime tt \<noteq> 0 then starttime tt else authtime tt) in
          if i32 (start - currenttime) > skew then KRB5KRB_AP_ERR_TKT_NYV
          else if i32 (currenttime - endtime tt) > skew then KRB5KRB_AP_ERR_TKT_EXPIRED
          else 0)"

definition in_clock_skew :: "krb5_timestamp \<Rightarrow> int \<Rightarrow> krb5_timestamp \<Rightarrow> bool" where
  "in_clock_skew currenttime skew date \<longleftrightarrow> \<bar>i32 (date - currenttime)\<bar> < skew"

section \<open>The reader\<close>

text \<open>
  The authentication context, and the services: the key table, encryption, the decoder, the
  local realm and realm paths, the permitted types, the clock skew, the results of the file
  operations of the replay cache, and the clock as it is read for the replay cache (call 0),
  for the ticket (call 1) and for the authenticator (call 2).
\<close>

record auth_context =
  ac_remote_addr :: "krb5_address option"
  ac_keyblock :: "krb5_keyblock option"
  ac_remote_subkey :: "krb5_keyblock option"
  ac_flags :: flags
  ac_remote_seq_number :: "32 word"
  ac_local_seq_number :: "32 word"
  ac_authentp :: "krb5_authenticator option"
  ac_rcache :: "dfl_data option"
  ac_permitted_etypes :: "krb5_enctype list option"

record rd_env =
  kt_get_entry :: "krb5_principal \<Rightarrow> int \<Rightarrow> krb5_enctype \<Rightarrow> krb5_keyblock krb5_result"
  rd_decrypt_tkt_part :: "krb5_keyblock \<Rightarrow> krb5_ticket \<Rightarrow> krb5_enc_tkt_part krb5_result"
  rd_decrypt :: "krb5_keyblock \<Rightarrow> int \<Rightarrow> krb5_enc_data \<Rightarrow> (octet list) krb5_result"
  decode_authenticator :: "octet list \<Rightarrow> krb5_authenticator krb5_result"
  default_realm :: string
  rd_capaths :: "string \<Rightarrow> string \<Rightarrow> string list option"
  is_permitted_enctype :: "krb5_enctype \<Rightarrow> bool"
  rd_clockskew :: int
  rd_io :: rc_io
  rd_time :: "nat \<Rightarrow> krb5_timestamp krb5_result"

definition KRB5_KEYUSAGE_TGS_REQ_AUTH :: int where "KRB5_KEYUSAGE_TGS_REQ_AUTH = 7"
definition KRB5_KEYUSAGE_AP_REQ_AUTH :: int where "KRB5_KEYUSAGE_AP_REQ_AUTH = 11"
definition KRB5_AUTH_CONTEXT_PERMIT_ALL :: flags where [krb5_flags]: "KRB5_AUTH_CONTEXT_PERMIT_ALL = 0x10"

definition KRB5KRB_AP_WRONG_PRINC where [krb5_errs]: "KRB5KRB_AP_WRONG_PRINC = krb5_err 144"
definition KRB5KRB_AP_ERR_BADMATCH where [krb5_errs]: "KRB5KRB_AP_ERR_BADMATCH = krb5_err 36"
definition KRB5KRB_AP_ERR_BADADDR where [krb5_errs]: "KRB5KRB_AP_ERR_BADADDR = krb5_err 38"
definition KRB5_NOPERM_ETYPE where [krb5_errs]: "KRB5_NOPERM_ETYPE = krb5_err 233"

definition krb5_rd_req_decrypt_tkt_part :: "rd_env \<Rightarrow> krb5_ap_req \<Rightarrow> krb5_enc_tkt_part krb5_result" where
  "krb5_rd_req_decrypt_tkt_part env req =
     bindE (kt_get_entry env (tk_server (ap_ticket req)) (ed_kvno (tk_enc_part (ap_ticket req)))
              (ed_enctype (tk_enc_part (ap_ticket req)))) (\<lambda>key.
       rd_decrypt_tkt_part env key (ap_ticket req))"

definition decrypt_authenticator :: "rd_env \<Rightarrow> krb5_ap_req \<Rightarrow> krb5_enc_tkt_part \<Rightarrow> bool \<Rightarrow> krb5_authenticator krb5_result" where
  "decrypt_authenticator env request tkt is_ap_req =
     bindE (rd_decrypt env (et_session tkt) (if is_ap_req then KRB5_KEYUSAGE_AP_REQ_AUTH else KRB5_KEYUSAGE_TGS_REQ_AUTH)
              (ap_authenticator request)) (decode_authenticator env)"

text \<open>The transited field is checked when it is not empty and does not begin with a NUL.\<close>

definition rd_check_transited :: "rd_env \<Rightarrow> krb5_enc_tkt_part \<Rightarrow> krb5_error_code" where
  "rd_check_transited env tkt =
     (let trans = tr_contents (et_transited tkt) in
      if trans \<noteq> [] \<and> hd trans \<noteq> NUL
      then krb5_check_transited_list (rd_capaths env) (Some trans) (p_realm (et_client tkt)) (default_realm env)
      else 0)"

definition krb5_auth_to_rep :: "krb5_ticket \<Rightarrow> krb5_authenticator \<Rightarrow> krb5_donot_replay option" where
  "krb5_auth_to_rep ticket authenticator =
     (case krb5_unparse_name (tk_server ticket) of
        None \<Rightarrow> None
      | Some server \<Rightarrow>
          (case krb5_unparse_name (au_client authenticator) of
             None \<Rightarrow> None
           | Some client \<Rightarrow> Some \<lparr>dr_server = c_str server, dr_client = c_str client, dr_cusec = au_cusec authenticator,
               dr_ctime = au_ctime authenticator\<rparr>))"

definition clock_or_none :: "krb5_timestamp krb5_result \<Rightarrow> krb5_timestamp option" where
  "clock_or_none c = (case c of Inl _ \<Rightarrow> None | Inr t \<Rightarrow> Some t)"

definition rd_replay ::
  "rd_env \<Rightarrow> krb5_ap_req \<Rightarrow> krb5_authenticator \<Rightarrow> auth_context \<Rightarrow> (krb5_error_code \<times> auth_context) c_outcome" where
  "rd_replay env req authenticator ac =
     (case ac_rcache ac of
        None \<Rightarrow> Done (0, ac)
      | Some rc \<Rightarrow>
          (case krb5_auth_to_rep (ap_ticket req) authenticator of
             None \<Rightarrow> Out_of_bounds
           | Some rep \<Rightarrow>
               bindO (krb5_rc_dfl_store (rd_io env) (rd_clockskew env) (clock_or_none (rd_time env 0)) rep rc)
                 (\<lambda>(retval, rc). Done (retval, ac\<lparr>ac_rcache := Some rc\<rparr>))))"

definition rd_check_times :: "rd_env \<Rightarrow> krb5_enc_tkt_part \<Rightarrow> krb5_authenticator \<Rightarrow> bool \<Rightarrow> krb5_error_code" where
  "rd_check_times env tkt authenticator check_valid_flag =
     (let retval = krb5_validate_times (rd_time env 1) (rd_clockskew env) (et_times tkt) in
      if retval \<noteq> 0 then retval
      else case rd_time env 2 of
          Inl retval \<Rightarrow> retval
        | Inr currenttime \<Rightarrow>
            if \<not> in_clock_skew currenttime (rd_clockskew env) (au_ctime authenticator) then KRB5KRB_AP_ERR_SKEW
            else if check_valid_flag \<and> isflagset (et_flags tkt) TKT_FLG_INVALID then KRB5KRB_AP_ERR_TKT_INVALID
            else 0)"

text \<open>The types of the ticket, the session key and the subkey; the context's list ends at its first 0.\<close>

definition etype_permitted :: "rd_env \<Rightarrow> auth_context \<Rightarrow> krb5_enctype \<Rightarrow> bool" where
  "etype_permitted env ac etype =
     (case ac_permitted_etypes ac of
        None \<Rightarrow> is_permitted_enctype env etype
      | Some etypes \<Rightarrow> etype \<in> set (takeWhile (\<lambda>e. e \<noteq> 0) etypes))"

definition rd_check_etypes :: "rd_env \<Rightarrow> auth_context \<Rightarrow> krb5_ap_req \<Rightarrow> krb5_enc_tkt_part \<Rightarrow> krb5_authenticator \<Rightarrow> krb5_error_code" where
  "rd_check_etypes env ac req tkt authenticator =
     (if isflagset (ac_flags ac) KRB5_AUTH_CONTEXT_PERMIT_ALL then 0
      else if etype_permitted env ac (ed_enctype (tk_enc_part (ap_ticket req))) \<and>
              etype_permitted env ac (kb_enctype (et_session tkt)) \<and>
              (case au_subkey authenticator of None \<Rightarrow> True | Some k \<Rightarrow> etype_permitted env ac (kb_enctype k))
      then 0 else KRB5_NOPERM_ETYPE)"

text \<open>The context after a request has been accepted.\<close>

definition rd_accept :: "auth_context \<Rightarrow> krb5_ap_req \<Rightarrow> krb5_enc_tkt_part \<Rightarrow> krb5_authenticator \<Rightarrow> auth_context" where
  "rd_accept ac req tkt authenticator =
     (let remote = word_of_int (au_seq_number authenticator)
      in ac\<lparr>ac_remote_seq_number := remote, ac_remote_subkey := au_subkey authenticator,
           ac_keyblock := Some (et_session tkt),
           ac_local_seq_number :=
             (if \<not> isflagset (ap_options req) AP_OPTS_MUTUAL_REQUIRED \<and> remote \<noteq> 0
              then ac_local_seq_number ac XOR remote else ac_local_seq_number ac)\<rparr>)"

text \<open>The result: the return code, the context, and the decrypted ticket when the request is accepted.\<close>

definition krb5_rd_req_decoded_opt ::
  "rd_env \<Rightarrow> krb5_principal option \<Rightarrow> bool \<Rightarrow> krb5_ap_req \<Rightarrow> auth_context \<Rightarrow>
     (krb5_error_code \<times> auth_context \<times> krb5_enc_tkt_part option) c_outcome" where
  "krb5_rd_req_decoded_opt env server check_valid_flag req ac =
     (if (case server of None \<Rightarrow> False | Some p \<Rightarrow> \<not> krb5_principal_compare p (tk_server (ap_ticket req)))
      then Done (KRB5KRB_AP_WRONG_PRINC, ac, None)
      else
        case (case ac_keyblock ac of
                Some key \<Rightarrow> rd_decrypt_tkt_part env key (ap_ticket req)
              | None \<Rightarrow> krb5_rd_req_decrypt_tkt_part env req) of
          Inl retval \<Rightarrow> Done (retval, ac, None)
        | Inr tkt \<Rightarrow>
            let ac = ac\<lparr>ac_keyblock := None\<rparr> in
            case decrypt_authenticator env req tkt check_valid_flag of
              Inl retval \<Rightarrow> Done (retval, ac, None)
            | Inr authenticator \<Rightarrow>
                let ac = ac\<lparr>ac_authentp := Some authenticator\<rparr> in
                if \<not> krb5_principal_compare (au_client authenticator) (et_client tkt)
                then Done (KRB5KRB_AP_ERR_BADMATCH, ac, None)
                else if (case ac_remote_addr ac of None \<Rightarrow> False | Some a \<Rightarrow> \<not> krb5_address_search a (et_caddrs tkt))
                then Done (KRB5KRB_AP_ERR_BADADDR, ac, None)
                else if rd_check_transited env tkt \<noteq> 0 then Done (rd_check_transited env tkt, ac, None)
                else bindO (rd_replay env req authenticator ac) (\<lambda>(retval, ac).
                  if retval \<noteq> 0 then Done (retval, ac, None)
                  else if rd_check_times env tkt authenticator check_valid_flag \<noteq> 0
                  then Done (rd_check_times env tkt authenticator check_valid_flag, ac, None)
                  else if rd_check_etypes env ac req tkt authenticator \<noteq> 0
                  then Done (rd_check_etypes env ac req tkt authenticator, ac, None)
                  else Done (0, rd_accept ac req tkt authenticator, Some tkt)))"

definition krb5_rd_req_decoded ::
  "rd_env \<Rightarrow> krb5_principal option \<Rightarrow> krb5_ap_req \<Rightarrow> auth_context \<Rightarrow>
     (krb5_error_code \<times> auth_context \<times> krb5_enc_tkt_part option) c_outcome" where
  "krb5_rd_req_decoded env server req ac = krb5_rd_req_decoded_opt env server True req ac"

definition krb5_rd_req_decoded_anyflag ::
  "rd_env \<Rightarrow> krb5_principal option \<Rightarrow> krb5_ap_req \<Rightarrow> auth_context \<Rightarrow>
     (krb5_error_code \<times> auth_context \<times> krb5_enc_tkt_part option) c_outcome" where
  "krb5_rd_req_decoded_anyflag env server req ac = krb5_rd_req_decoded_opt env server False req ac"

section \<open>What acceptance means\<close>

lemma krb5_address_compare_iff: "krb5_address_compare a b \<longleftrightarrow> a = b"
  by (auto simp: krb5_address_compare_def)

lemma krb5_address_search_iff:
  "krb5_address_search a addrs \<longleftrightarrow> (case addrs of None \<Rightarrow> True | Some as \<Rightarrow> a \<in> set as)"
proof -
  have "address_search_loop a as \<longleftrightarrow> a \<in> set as" for as
    by (induction as) (auto simp: krb5_address_compare_iff)
  then show ?thesis by (simp add: krb5_address_search_def split: option.split)
qed

text \<open>The order of addresses: 0 is returned for equal addresses and also for addresses of different types.\<close>

lemma order_loop_0: "order_loop as bs (int (length as) + n - (int (length bs) + n)) = 0 \<longleftrightarrow> as = bs"
proof (induction as bs "int (length as) + n - (int (length bs) + n)" arbitrary: n rule: order_loop.induct)
  case (1 a as b bs)
  from "1.hyps" [of "n + 1"] show ?case by (auto simp: algebra_simps)
qed auto

lemma krb5_address_order_0: "krb5_address_order a b = 0 \<longleftrightarrow> a = b \<or> addrtype a \<noteq> addrtype b"
  using order_loop_0 [of "addr_contents a" "addr_contents b" 0] by (auto simp: krb5_address_order_def)

lemma krb5_validate_times_0:
  "krb5_validate_times (Inr now) skew tt = 0 \<longleftrightarrow>
     i32 ((if starttime tt \<noteq> 0 then starttime tt else authtime tt) - now) \<le> skew \<and> i32 (now - endtime tt) \<le> skew"
  by (auto simp: krb5_validate_times_def krb5_errs Let_def)

lemma rd_check_times_0:
  assumes "rd_check_times env tkt au check_valid_flag = 0" and "\<forall>n. rd_time env n \<noteq> Inl 0"
  shows "\<exists>now. rd_time env 2 = Inr now \<and> in_clock_skew now (rd_clockskew env) (au_ctime au)"
    and "\<exists>now. rd_time env 1 = Inr now \<and> krb5_validate_times (Inr now) (rd_clockskew env) (et_times tkt) = 0"
    and "check_valid_flag \<Longrightarrow> \<not> isflagset (et_flags tkt) TKT_FLG_INVALID"
proof -
  have v: "krb5_validate_times (rd_time env 1) (rd_clockskew env) (et_times tkt) = 0"
    using assms(1) by (simp add: rd_check_times_def Let_def split: if_splits)
  show "\<exists>now. rd_time env 1 = Inr now \<and> krb5_validate_times (Inr now) (rd_clockskew env) (et_times tkt) = 0"
  proof (cases "rd_time env 1")
    case (Inl e)
    then show ?thesis using v spec [OF assms(2), of 1] by (simp add: krb5_validate_times_def)
  qed (use v in simp)
  show "\<exists>now. rd_time env 2 = Inr now \<and> in_clock_skew now (rd_clockskew env) (au_ctime au)"
  proof (cases "rd_time env 2")
    case (Inl e)
    then show ?thesis using assms(1) spec [OF assms(2), of 2] v by (simp add: rd_check_times_def)
  next
    case (Inr now)
    then show ?thesis using assms(1) v by (simp add: rd_check_times_def krb5_errs split: if_splits)
  qed
  show "check_valid_flag \<Longrightarrow> \<not> isflagset (et_flags tkt) TKT_FLG_INVALID"
    using assms v by (auto simp: rd_check_times_def krb5_errs split: if_splits sum.splits)
qed

definition rd_passed ::
  "rd_env \<Rightarrow> krb5_principal option \<Rightarrow> bool \<Rightarrow> krb5_ap_req \<Rightarrow> auth_context \<Rightarrow> auth_context \<Rightarrow> krb5_enc_tkt_part \<Rightarrow>
     krb5_authenticator \<Rightarrow> auth_context \<Rightarrow> bool" where
  "rd_passed env server check_valid_flag req ac ac1 tkt au ac2 \<longleftrightarrow>
     (\<forall>p. server = Some p \<longrightarrow> krb5_principal_compare p (tk_server (ap_ticket req))) \<and>
     decrypt_authenticator env req tkt check_valid_flag = Inr au \<and> krb5_principal_compare (au_client au) (et_client tkt) \<and>
     (\<forall>a. ac_remote_addr ac = Some a \<longrightarrow> krb5_address_search a (et_caddrs tkt)) \<and> rd_check_transited env tkt = 0 \<and>
     rd_replay env req au (ac\<lparr>ac_keyblock := None, ac_authentp := Some au\<rparr>) = Done (0, ac2) \<and>
     rd_check_times env tkt au check_valid_flag = 0 \<and> rd_check_etypes env ac2 req tkt au = 0 \<and>
     ac1 = rd_accept ac2 req tkt au"

lemma rd_req_passed:
  assumes "krb5_rd_req_decoded_opt env server check_valid_flag req ac = Done (code, ac1, Some tkt)"
  shows "code = 0 \<and> (\<exists>au ac2. rd_passed env server check_valid_flag req ac ac1 tkt au ac2)"
  using assms unfolding krb5_rd_req_decoded_opt_def rd_passed_def
  by (auto simp: Let_def bindO_eq_Done split: if_splits option.splits sum.splits prod.splits)

lemma rd_replay_0:
  assumes "rd_replay env req au ac = Done (0, ac2)" "ac_rcache ac = Some rc" "krb5_auth_to_rep (ap_ticket req) au = Some rep"
  shows "\<exists>rc2. krb5_rc_dfl_store (rd_io env) (rd_clockskew env) (clock_or_none (rd_time env 0)) rep rc = Done (0, rc2) \<and>
    ac_rcache ac2 = Some rc2"
  using assms by (auto simp: rd_replay_def bindO_eq_Done)

lemma rd_accept_same [simp]:
  "ac_rcache (rd_accept ac req tkt au) = ac_rcache ac" "ac_keyblock (rd_accept ac req tkt au) = Some (et_session tkt)"
  "ac_authentp (rd_accept ac req tkt au) = ac_authentp ac"
  by (simp_all add: rd_accept_def Let_def)

text \<open>With times that are not negative, the difference of two fits 32 bits.\<close>

lemma skew_bound:
  assumes "in_clock_skew now skew ctime" "0 \<le> now" "0 \<le> ctime" "is_i32 now" "is_i32 ctime"
  shows "now < ctime + skew"
proof -
  have "is_i32 (ctime - now)" using assms(2-5) by (simp add: is_i32_def)
  then show ?thesis using assms(1) by (simp add: in_clock_skew_def i32_id)
qed

section \<open>Properties\<close>

text \<open>
  C12. A request that \<open>krb5_rd_req_decoded\<close> accepts is for the expected server, its ticket and its
  authenticator are those of one client, comes from an address of the ticket when both are
  known, has passed the check of the transited realms, is not marked invalid, is within its
  times up to the clock skew, and the context has the session key of the ticket.
\<close>

theorem rd_req_accepts_only_valid:
  assumes "krb5_rd_req_decoded env (Some server) req ac = Done (code, ac1, Some tkt)"
    and "\<forall>n. rd_time env n \<noteq> Inl 0"
  shows "\<exists>au now. code = 0 \<and> krb5_principal_compare server (tk_server (ap_ticket req)) \<and>
    decrypt_authenticator env req tkt True = Inr au \<and> krb5_principal_compare (au_client au) (et_client tkt) \<and>
    (\<forall>a addrs. ac_remote_addr ac = Some a \<and> et_caddrs tkt = Some addrs \<longrightarrow> a \<in> set addrs) \<and>
    rd_check_transited env tkt = 0 \<and> \<not> isflagset (et_flags tkt) TKT_FLG_INVALID \<and> rd_time env 1 = Inr now \<and>
    i32 ((if starttime (et_times tkt) \<noteq> 0 then starttime (et_times tkt) else authtime (et_times tkt)) - now)
      \<le> rd_clockskew env \<and>
    i32 (now - endtime (et_times tkt)) \<le> rd_clockskew env \<and> ac_keyblock ac1 = Some (et_session tkt)"
proof -
  obtain au ac2 where code: "code = 0" and p: "rd_passed env (Some server) True req ac ac1 tkt au ac2"
    using rd_req_passed [OF assms(1) [unfolded krb5_rd_req_decoded_def]] by blast
  note a = p [unfolded rd_passed_def]
  have checked: "rd_check_times env tkt au True = 0" using a by blast
  note times = rd_check_times_0 [OF checked assms(2)]
  have "\<forall>b addrs. ac_remote_addr ac = Some b \<and> et_caddrs tkt = Some addrs \<longrightarrow> b \<in> set addrs"
    using a by (auto simp: krb5_address_search_iff)
  moreover obtain now where "rd_time env 1 = Inr now" "krb5_validate_times (Inr now) (rd_clockskew env) (et_times tkt) = 0"
    using times(2) by blast
  ultimately show ?thesis
    using code a times(3) by (intro exI [of _ au] exI [of _ now]) (simp add: krb5_validate_times_0)
qed

definition sample_rd_env :: rd_env where
  "sample_rd_env =
     \<lparr>kt_get_entry = (\<lambda>p kvno e. Inr \<lparr>kb_enctype = 1, kb_contents = [1, 2, 3, 4, 5, 6, 7, 8]\<rparr>),
      rd_decrypt_tkt_part = (\<lambda>key ticket. Inr (sample_tkt_part 0)), rd_decrypt = (\<lambda>key usage enc. Inr []),
      decode_authenticator = (\<lambda>bs. Inr \<lparr>au_client = sample_client, au_checksum = None, au_cusec = 5, au_ctime = 1000000,
        au_subkey = None, au_seq_number = 17, au_authorization_data = None\<rparr>),
      default_realm = ''ATHENA.MIT.EDU'', rd_capaths = (\<lambda>c s. None), is_permitted_enctype = (\<lambda>e. True),
      rd_clockskew = 300, rd_io = io_works, rd_time = (\<lambda>n. Inr 1000010)\<rparr>"

definition sample_ap_req :: krb5_ap_req where
  "sample_ap_req = \<lparr>ap_options = 0, ap_ticket = sample_ticket 0,
     ap_authenticator = \<lparr>ed_enctype = 1, ed_kvno = 0, ed_ciphertext = []\<rparr>\<rparr>"

definition sample_auth_context :: "dfl_data option \<Rightarrow> auth_context" where
  "sample_auth_context rc =
     \<lparr>ac_remote_addr = None, ac_keyblock = None, ac_remote_subkey = None, ac_flags = 0, ac_remote_seq_number = 0,
      ac_local_seq_number = 3, ac_authentp = None, ac_rcache = rc, ac_permitted_etypes = None\<rparr>"

definition rd_accepts :: "(krb5_error_code \<times> auth_context \<times> krb5_enc_tkt_part option) c_outcome \<Rightarrow> bool" where
  "rd_accepts r = (case r of Done (code, ac, Some tkt) \<Rightarrow> True | _ \<Rightarrow> False)"

lemma rd_acceptsE: "rd_accepts r \<Longrightarrow> (\<And>code ac tkt. r = Done (code, ac, Some tkt) \<Longrightarrow> P) \<Longrightarrow> P"
  by (auto simp: rd_accepts_def split: c_outcome.splits option.splits)

theorem rd_req_accepts_only_valid_witness:
  "\<exists>code ac1 tkt. krb5_rd_req_decoded sample_rd_env (Some sample_tgs_principal) sample_ap_req (sample_auth_context None) =
     Done (code, ac1, Some tkt) \<and> \<not> isflagset (et_flags tkt) TKT_FLG_INVALID"
proof -
  have "rd_accepts (krb5_rd_req_decoded sample_rd_env (Some sample_tgs_principal) sample_ap_req (sample_auth_context None))"
    by code_simp
  then obtain code ac1 tkt where
    r: "krb5_rd_req_decoded sample_rd_env (Some sample_tgs_principal) sample_ap_req (sample_auth_context None) =
      Done (code, ac1, Some tkt)"
    by (rule rd_acceptsE)
  have "\<forall>n. rd_time sample_rd_env n \<noteq> Inl 0" by (simp add: sample_rd_env_def)
  from rd_req_accepts_only_valid [OF r this] r show ?thesis by blast
qed

text \<open>
  C4. An authenticator is accepted only once: when a request has been accepted by a service with a
  replay cache, then no later request with an authenticator of the same client, server and
  time is accepted, whatever happened to the cache in between, also by another process that
  has read the cache from its file.  The clock does not go back, the lifespan of the cache is
  at least the clock skew, and its file operations succeed.
\<close>

theorem authenticator_accepted_once:
  assumes "krb5_rd_req_decoded_opt env server check_valid_flag req ac = Done (0, ac1, Some tkt)"
    and "ac_rcache ac = Some rc" "rc_inv rc" "io_ok (rd_io env)" "rd_time env 0 = Inr now0"
    and "\<forall>e \<in> set es. rc_admitted e \<and> (\<forall>time. rc_clock e = Some time \<longrightarrow> time \<le> now2)" "now0 \<le> now2"
    and "ac_rcache ac' = Some (fold rc_run es (the (ac_rcache ac1)))"
    and "io_ok (rd_io env')" "rd_time env' 2 = Inr now2" "\<forall>n. rd_time env' n \<noteq> Inl 0"
    and "rd_clockskew env' \<le> rc_lifespan rc"
    and "decrypt_authenticator env req tkt check_valid_flag = Inr au"
    and "decrypt_authenticator env' req' tkt' check_valid_flag' = Inr au'"
    and "krb5_auth_to_rep (ap_ticket req) au = Some rep" "krb5_auth_to_rep (ap_ticket req') au' = Some rep"
    and "good_rep rep" "0 \<le> dr_ctime rep" "is_i32 (dr_ctime rep + rc_lifespan rc)" "0 \<le> now2" "is_i32 now2"
  shows "krb5_rd_req_decoded_opt env' server' check_valid_flag' req' ac' \<noteq> Done (code, ac2, Some tkt')"
proof
  assume "krb5_rd_req_decoded_opt env' server' check_valid_flag' req' ac' = Done (code, ac2, Some tkt')"
  then obtain ac3 where
    second: "rd_replay env' req' au' (ac'\<lparr>ac_keyblock := None, ac_authentp := Some au'\<rparr>) = Done (0, ac3)"
      "rd_check_times env' tkt' au' check_valid_flag' = 0"
    using rd_req_passed [of env' server' check_valid_flag' req' ac' code ac2 tkt'] assms(14) by (auto simp: rd_passed_def)
  have ctime: "au_ctime au' = dr_ctime rep"
    using assms(16) by (auto simp: krb5_auth_to_rep_def split: option.splits)
  have "in_clock_skew now2 (rd_clockskew env') (dr_ctime rep)"
    using rd_check_times_0(1) [OF second(2) assms(11)] assms(10) by (simp add: ctime)
  then have "now2 < dr_ctime rep + rd_clockskew env'"
    using assms(17,18,20,21) by (intro skew_bound) (simp_all add: good_rep_def)
  then have fresh: "now2 \<le> i32 (dr_ctime rep + rc_lifespan rc)"
    using assms(12,19) by (simp add: i32_id)
  obtain ac4 where "rd_replay env req au (ac\<lparr>ac_keyblock := None, ac_authentp := Some au\<rparr>) = Done (0, ac4)"
      "ac1 = rd_accept ac4 req tkt au"
    using rd_req_passed [OF assms(1)] assms(13) by (auto simp: rd_passed_def)
  then obtain rc1 where
    first: "krb5_rc_dfl_store (rd_io env) (rd_clockskew env) (Some now0) rep rc = Done (0, rc1)" "ac_rcache ac1 = Some rc1"
    using rd_replay_0 [OF _ _ assms(15), of env "ac\<lparr>ac_keyblock := None, ac_authentp := Some au\<rparr>" ac4 rc] assms(2,5)
    by (auto simp: clock_or_none_def)
  obtain rc2 where
    "krb5_rc_dfl_store (rd_io env') (rd_clockskew env') (clock_or_none (rd_time env' 0)) rep (fold rc_run es rc1) = Done (0, rc2)"
    using rd_replay_0 [OF second(1) _ assms(16)] assms(8) first(2) by auto
  moreover have "\<exists>rc2. krb5_rc_dfl_store (rd_io env') (rd_clockskew env') (clock_or_none (rd_time env' 0)) rep
      (fold rc_run es rc1) = Done (KRB5KRB_AP_ERR_REPEAT, rc2)"
    using assms(6,7) fresh by (intro stored_entry_refused [OF assms(3,17,4) first(1) _ _ assms(9)]) fastforce+
  ultimately show False by (auto simp: krb5_errs)
qed

text \<open>The sample request with a new replay cache.\<close>

lemma sample_rd_first:
  assumes "rc_inv rc" "rc_a rc = []"
  shows "\<exists>ac1 rc1. krb5_rd_req_decoded_opt sample_rd_env None True sample_ap_req (sample_auth_context (Some rc)) =
    Done (0, ac1, Some (sample_tkt_part 0)) \<and> ac_rcache ac1 = Some rc1"
proof -
  let ?au = "\<lparr>au_client = sample_client, au_checksum = None, au_cusec = 5, au_ctime = 1000000,
        au_subkey = None, au_seq_number = 17, au_authorization_data = None\<rparr>"
  have good: "good_rep (sample_replay 5)" by (simp add: sample_replay_good is_i32_def)
  have rep: "krb5_auth_to_rep (sample_ticket 0) ?au = Some (sample_replay 5)" by code_simp
  obtain rc1 where "krb5_rc_dfl_store io_works 300 (Some 1000010) (sample_replay 5) rc = Done (0, rc1)"
    using store_ok [OF io_works_ok assms(1) good, of 300 "Some 1000010"] assms(2) by auto
  then have "rd_replay sample_rd_env sample_ap_req ?au ((sample_auth_context (Some rc))\<lparr>ac_keyblock := None, ac_authentp := Some ?au\<rparr>) =
      Done (0, (sample_auth_context (Some rc))\<lparr>ac_keyblock := None, ac_authentp := Some ?au, ac_rcache := Some rc1\<rparr>)"
    by (simp add: rd_replay_def rep sample_rd_env_def sample_ap_req_def sample_auth_context_def clock_or_none_def)
  moreover have "rd_check_times sample_rd_env (sample_tkt_part 0) ?au True = 0"
    "rd_check_transited sample_rd_env (sample_tkt_part 0) = 0" "krb5_principal_compare sample_client sample_client"
    by code_simp+
  moreover have "et_client (sample_tkt_part 0) = sample_client" by (simp add: sample_tkt_part_def)
  moreover have "decrypt_authenticator sample_rd_env sample_ap_req (sample_tkt_part 0) True = Inr ?au"
    "krb5_rd_req_decrypt_tkt_part sample_rd_env sample_ap_req = Inr (sample_tkt_part 0)"
    by (simp_all add: decrypt_authenticator_def krb5_rd_req_decrypt_tkt_part_def sample_rd_env_def)
  moreover have "rd_check_etypes sample_rd_env ac req tkt ?au = 0" if "ac_permitted_etypes ac = None" for ac req tkt
    using that by (simp add: rd_check_etypes_def etype_permitted_def sample_rd_env_def)
  ultimately show ?thesis
    by (simp add: krb5_rd_req_decoded_opt_def sample_auth_context_def Let_def)
qed

theorem authenticator_accepted_once_witness:
  "\<exists>rc ac1 rc1. krb5_rc_dfl_init io_works 300 300 (krb5_rc_dfl_resolve []) = (0, rc) \<and>
     krb5_rd_req_decoded_opt sample_rd_env None True sample_ap_req (sample_auth_context (Some rc)) =
       Done (0, ac1, Some (sample_tkt_part 0)) \<and> ac_rcache ac1 = Some rc1 \<and>
     krb5_rd_req_decoded_opt sample_rd_env None True sample_ap_req (sample_auth_context (Some rc1)) \<noteq>
       Done (0, ac1, Some (sample_tkt_part 0))"
proof -
  obtain rc where
    rc: "krb5_rc_dfl_init io_works 300 300 (krb5_rc_dfl_resolve []) = (0, rc)" "rc_inv rc" "rc_a rc = []" "rc_lifespan rc = 300"
    using init_ok [OF io_works_ok, of 300 300] by (auto simp: is_i32_def)
  obtain ac1 rc1 where
    first: "krb5_rd_req_decoded_opt sample_rd_env None True sample_ap_req (sample_auth_context (Some rc)) =
      Done (0, ac1, Some (sample_tkt_part 0))" "ac_rcache ac1 = Some rc1"
    using sample_rd_first [OF rc(2,3)] by blast
  let ?au = "\<lparr>au_client = sample_client, au_checksum = None, au_cusec = 5, au_ctime = 1000000,
        au_subkey = None, au_seq_number = 17, au_authorization_data = None\<rparr>"
  have au: "decrypt_authenticator sample_rd_env sample_ap_req (sample_tkt_part 0) True = Inr ?au"
    by (simp add: decrypt_authenticator_def sample_rd_env_def)
  have rep: "krb5_auth_to_rep (ap_ticket sample_ap_req) ?au = Some (sample_replay 5)" by code_simp
  have good: "good_rep (sample_replay 5)" by (simp add: sample_replay_good is_i32_def)
  have "krb5_rd_req_decoded_opt sample_rd_env None True sample_ap_req (sample_auth_context (Some rc1)) \<noteq>
      Done (0, ac1, Some (sample_tkt_part 0))"
    by (rule authenticator_accepted_once [OF first(1) _ rc(2), where ?now0.0 = 1000010 and ?now2.0 = 1000010 and es = "[]"
          and au = ?au and au' = ?au and rep = "sample_replay 5"])
      (simp_all add: first(2) rc(4) au rep good, simp_all add: sample_auth_context_def sample_rd_env_def io_works_ok
        sample_replay_def is_i32_def)
  then show ?thesis using rc(1) first by blast
qed

end
