(* ===== verification/Krb5_Asn1.thy ===== *)
theory Krb5_Asn1
  imports Kdc_Validate
begin

text \<open>
  The base of the ASN.1 coders (\<open>lib/krb5/asn.1\<close>): the coding buffer (\<open>asn1buf.c\<close>), identifiers and
  lengths (\<open>asn1_make.c\<close>, \<open>asn1_get.c\<close>), and the primitive encoders and decoders
  (\<open>asn1_encode.c\<close>, \<open>asn1_decode.c\<close>).

  An encoder writes its octets from the last to the first, and \<open>asn12krb5_buf\<close> turns the array
  round at the end: the buffer of the model is the encoding written so far, and an octet is
  inserted in front of it.  For decoding the buffer is the array with the indices of the next
  and of the last octet, and a read outside of the array is \<open>Out_of_bounds\<close>.  A \<open>long\<close> has 64
  bits.
\<close>

section \<open>Constants\<close>

definition ERROR_TABLE_BASE_asn1 :: int where [krb5_errs]: "ERROR_TABLE_BASE_asn1 = 1859794432"
definition ASN1_MISSING_FIELD where [krb5_errs]: "ASN1_MISSING_FIELD = ERROR_TABLE_BASE_asn1 + 1"
definition ASN1_OVERFLOW where [krb5_errs]: "ASN1_OVERFLOW = ERROR_TABLE_BASE_asn1 + 4"
definition ASN1_OVERRUN where [krb5_errs]: "ASN1_OVERRUN = ERROR_TABLE_BASE_asn1 + 5"
definition ASN1_BAD_ID where [krb5_errs]: "ASN1_BAD_ID = ERROR_TABLE_BASE_asn1 + 6"
definition ASN1_BAD_LENGTH where [krb5_errs]: "ASN1_BAD_LENGTH = ERROR_TABLE_BASE_asn1 + 7"

type_synonym asn1_class = octet

type_synonym asn1_construction = octet

definition PRIMITIVE :: asn1_construction where "PRIMITIVE = 0x00"
definition CONSTRUCTED :: asn1_construction where "CONSTRUCTED = 0x20"
definition UNIVERSAL :: asn1_class where "UNIVERSAL = 0x00"
definition APPLICATION :: asn1_class where "APPLICATION = 0x40"
definition CONTEXT_SPECIFIC :: asn1_class where "CONTEXT_SPECIFIC = 0x80"
definition PRIVATE :: asn1_class where "PRIVATE = 0xC0"

definition ASN1_TAGNUM_CEILING :: int where "ASN1_TAGNUM_CEILING = 2147483647"
definition ASN1_TAGNUM_MAX :: int where "ASN1_TAGNUM_MAX = ASN1_TAGNUM_CEILING - 1"

definition ASN1_INTEGER :: int where "ASN1_INTEGER = 2"
definition ASN1_OCTETSTRING :: int where "ASN1_OCTETSTRING = 4"
definition ASN1_NULL :: int where "ASN1_NULL = 5"
definition ASN1_SEQUENCE :: int where "ASN1_SEQUENCE = 16"
definition ASN1_SET :: int where "ASN1_SET = 17"
definition ASN1_PRINTABLESTRING :: int where "ASN1_PRINTABLESTRING = 19"
definition ASN1_IA5STRING :: int where "ASN1_IA5STRING = 22"
definition ASN1_GENERALSTRING :: int where "ASN1_GENERALSTRING = 27"

section \<open>Encoding\<close>

type_synonym encoding = "octet list"

definition asn1buf_insert_octet :: "encoding \<Rightarrow> int \<Rightarrow> encoding" where
  "asn1buf_insert_octet buf o1 = word_of_int o1 # buf"

definition asn1buf_insert_octetstring :: "encoding \<Rightarrow> octet list \<Rightarrow> encoding" where
  "asn1buf_insert_octetstring buf s = s @ buf"

text \<open>The loop over the octets of a length: the buffer and the number of octets.\<close>

fun make_length_loop :: "encoding \<Rightarrow> nat \<Rightarrow> int \<Rightarrow> encoding \<times> int" where
  "make_length_loop buf in_copy len =
     (if in_copy = 0 then (buf, len)
      else make_length_loop (asn1buf_insert_octet buf (int (in_copy mod 256))) (in_copy div 256) (len + 1))"

declare make_length_loop.simps [simp del]

definition asn1_make_length :: "encoding \<Rightarrow> int \<Rightarrow> encoding \<times> int" where
  "asn1_make_length buf in_len =
     (if in_len < 128 then (asn1buf_insert_octet buf (in_len mod 128), 1)
      else case make_length_loop buf (nat in_len) 0 of
          (buf, len) \<Rightarrow> (asn1buf_insert_octet buf (128 + len mod 128), len + 1))"

fun make_id_loop :: "encoding \<Rightarrow> nat \<Rightarrow> int \<Rightarrow> encoding \<times> int" where
  "make_id_loop buf tagcopy len =
     (if tagcopy = 0 then (buf, len)
      else make_id_loop (asn1buf_insert_octet buf (int (128 + tagcopy mod 128))) (tagcopy div 128) (len + 1))"

declare make_id_loop.simps [simp del]

definition asn1_make_id :: "encoding \<Rightarrow> asn1_class \<Rightarrow> asn1_construction \<Rightarrow> int \<Rightarrow> encoding \<times> int" where
  "asn1_make_id buf class1 construction tagnum =
     (if tagnum < 31 then ((class1 OR construction OR word_of_int tagnum) # buf, 1)
      else
        let buf = asn1buf_insert_octet buf (tagnum mod 128) in
        case make_id_loop buf (nat (tagnum div 128)) 1 of
          (buf, len) \<Rightarrow> ((class1 OR construction OR 0x1F) # buf, len + 1))"

definition asn1_make_tag ::
  "encoding \<Rightarrow> asn1_class \<Rightarrow> asn1_construction \<Rightarrow> int \<Rightarrow> int \<Rightarrow> (encoding \<times> int) krb5_result" where
  "asn1_make_tag buf class1 construction tagnum in_len =
     (if tagnum > ASN1_TAGNUM_MAX then Inl ASN1_OVERFLOW
      else case asn1_make_length buf in_len of
          (buf, len1) \<Rightarrow>
            (case asn1_make_id buf class1 construction tagnum of (buf, len2) \<Rightarrow> Inr (buf, len1 + len2)))"

definition asn1_make_etag :: "encoding \<Rightarrow> asn1_class \<Rightarrow> int \<Rightarrow> int \<Rightarrow> (encoding \<times> int) krb5_result" where
  "asn1_make_etag buf class1 tagnum in_len = asn1_make_tag buf class1 CONSTRUCTED tagnum in_len"

definition asn1_make_sequence :: "encoding \<Rightarrow> int \<Rightarrow> encoding \<times> int" where
  "asn1_make_sequence buf seq_len =
     (case asn1_make_length buf seq_len of
        (buf, len1) \<Rightarrow> (case asn1_make_id buf UNIVERSAL CONSTRUCTED ASN1_SEQUENCE of (buf, len2) \<Rightarrow> (buf, len1 + len2)))"

definition asn1_make_set :: "encoding \<Rightarrow> int \<Rightarrow> encoding \<times> int" where
  "asn1_make_set buf set_len =
     (case asn1_make_length buf set_len of
        (buf, len1) \<Rightarrow> (case asn1_make_id buf UNIVERSAL CONSTRUCTED ASN1_SET of (buf, len2) \<Rightarrow> (buf, len1 + len2)))"

text \<open>The octets of an integer: the buffer, the digit written last, and their number.\<close>

lemma shift_smaller: "(v :: int) div 256 \<noteq> 0 \<and> v div 256 \<noteq> -1 \<Longrightarrow> \<bar>v div 256\<bar> < \<bar>v\<bar>"
  by (cases "0 \<le> v") linarith+

function encode_digits :: "encoding \<Rightarrow> int \<Rightarrow> int \<Rightarrow> encoding \<times> int \<times> int" where
  "encode_digits buf valcopy len =
     (if valcopy div 256 \<noteq> 0 \<and> valcopy div 256 \<noteq> -1
      then encode_digits (asn1buf_insert_octet buf (valcopy mod 256)) (valcopy div 256) (len + 1)
      else (asn1buf_insert_octet buf (valcopy mod 256), valcopy mod 256, len + 1))"
  by pat_completeness auto
termination
  by (relation "measure (\<lambda>(buf, v, len). nat \<bar>v\<bar>)") (auto simp: shift_smaller)

declare encode_digits.simps [simp del]

definition asn1_encode_integer :: "encoding \<Rightarrow> int \<Rightarrow> (encoding \<times> int) krb5_result" where
  "asn1_encode_integer buf val =
     (case encode_digits buf val 0 of
        (buf, digit, len) \<Rightarrow>
          (case (if val > 0 \<and> digit \<ge> 128 then (asn1buf_insert_octet buf 0, len + 1)
                 else if val < 0 \<and> digit < 128 then (asn1buf_insert_octet buf 0xFF, len + 1)
                 else (buf, len)) of
             (buf, len) \<Rightarrow>
               bindE (asn1_make_tag buf UNIVERSAL PRIMITIVE ASN1_INTEGER len) (\<lambda>(buf, partlen). Inr (buf, len + partlen))))"

text \<open>An unsigned value shifted right is never \<open>~0\<close>, so its loop ends at 0.\<close>

fun encode_unsigned_digits :: "encoding \<Rightarrow> nat \<Rightarrow> int \<Rightarrow> encoding \<times> int \<times> int" where
  "encode_unsigned_digits buf valcopy len =
     (if valcopy div 256 \<noteq> 0
      then encode_unsigned_digits (asn1buf_insert_octet buf (int (valcopy mod 256))) (valcopy div 256) (len + 1)
      else (asn1buf_insert_octet buf (int (valcopy mod 256)), int (valcopy mod 256), len + 1))"

declare encode_unsigned_digits.simps [simp del]

definition asn1_encode_unsigned_integer :: "encoding \<Rightarrow> nat \<Rightarrow> (encoding \<times> int) krb5_result" where
  "asn1_encode_unsigned_integer buf val =
     (case encode_unsigned_digits buf val 0 of
        (buf, digit, len) \<Rightarrow>
          (case (if digit \<ge> 128 then (asn1buf_insert_octet buf 0, len + 1) else (buf, len)) of
             (buf, len) \<Rightarrow>
               bindE (asn1_make_tag buf UNIVERSAL PRIMITIVE ASN1_INTEGER len) (\<lambda>(buf, partlen). Inr (buf, len + partlen))))"

text \<open>The string types differ in their tag only.\<close>

definition encode_string :: "int \<Rightarrow> encoding \<Rightarrow> octet list \<Rightarrow> (encoding \<times> int) krb5_result" where
  "encode_string tagnum buf val =
     bindE (asn1_make_tag (asn1buf_insert_octetstring buf val) UNIVERSAL PRIMITIVE tagnum (int (length val)))
       (\<lambda>(buf, len). Inr (buf, int (length val) + len))"

definition asn1_encode_octetstring :: "encoding \<Rightarrow> octet list \<Rightarrow> (encoding \<times> int) krb5_result" where
  "asn1_encode_octetstring = encode_string ASN1_OCTETSTRING"

definition asn1_encode_printablestring :: "encoding \<Rightarrow> octet list \<Rightarrow> (encoding \<times> int) krb5_result" where
  "asn1_encode_printablestring = encode_string ASN1_PRINTABLESTRING"

definition asn1_encode_ia5string :: "encoding \<Rightarrow> octet list \<Rightarrow> (encoding \<times> int) krb5_result" where
  "asn1_encode_ia5string = encode_string ASN1_IA5STRING"

definition asn1_encode_generalstring :: "encoding \<Rightarrow> octet list \<Rightarrow> (encoding \<times> int) krb5_result" where
  "asn1_encode_generalstring = encode_string ASN1_GENERALSTRING"

definition asn1_encode_null :: "encoding \<Rightarrow> encoding \<times> int" where
  "asn1_encode_null buf = (asn1buf_insert_octet (asn1buf_insert_octet buf 0x00) 0x05, 2)"

section \<open>Decoding\<close>

record asn1buf =
  ab_data :: "octet list"
  ab_next :: int
  ab_bound :: int

definition asn1buf_wrap_data :: "(octet list) option \<Rightarrow> asn1buf krb5_result" where
  "asn1buf_wrap_data code =
     (case code of
        None \<Rightarrow> Inl ASN1_MISSING_FIELD
      | Some d \<Rightarrow> Inr \<lparr>ab_data = d, ab_next = 0, ab_bound = int (length d) - 1\<rparr>)"

definition asn1buf_remove_octet :: "asn1buf \<Rightarrow> (octet \<times> asn1buf) c_outcome" where
  "asn1buf_remove_octet buf =
     (if ab_next buf > ab_bound buf then Error ASN1_OVERRUN
      else if 0 \<le> ab_next buf \<and> ab_next buf < int (length (ab_data buf))
      then Done (ab_data buf ! nat (ab_next buf), buf\<lparr>ab_next := ab_next buf + 1\<rparr>)
      else Out_of_bounds)"

text \<open>A negative length passes the check and is asked of the allocator as a huge size, which fails.\<close>

definition asn1buf_remove_octetstring :: "asn1buf \<Rightarrow> int \<Rightarrow> (octet list \<times> asn1buf) c_outcome" where
  "asn1buf_remove_octetstring buf len =
     (if ab_next buf + len - 1 > ab_bound buf then Error ASN1_OVERRUN
      else if len = 0 then Done ([], buf)
      else if len < 0 then Error ENOMEM
      else if 0 \<le> ab_next buf \<and> ab_next buf + len \<le> int (length (ab_data buf))
      then Done (take (nat len) (drop (nat (ab_next buf)) (ab_data buf)), buf\<lparr>ab_next := ab_next buf + len\<rparr>)
      else Out_of_bounds)"

definition asn1buf_imbed :: "asn1buf \<Rightarrow> int \<Rightarrow> bool \<Rightarrow> asn1buf krb5_result" where
  "asn1buf_imbed buf len indef =
     (if \<not> indef then
        (if ab_next buf + len - 1 > ab_bound buf then Inl ASN1_OVERRUN
         else Inr (buf\<lparr>ab_bound := ab_next buf + len - 1\<rparr>))
      else Inr buf)"

text \<open>The octets of a tag number in the long form; the loop goes on while bit 7 of the number read is set.\<close>

function get_id_loop :: "asn1buf \<Rightarrow> int \<Rightarrow> (int \<times> asn1buf) c_outcome" where
  "get_id_loop buf tn =
     bindO (asn1buf_remove_octet buf) (\<lambda>(o1, buf).
       let tn = i32 (tn * 128 + uint (o1 AND 0x7F))
       in if tn div 128 mod 2 \<noteq> 0 then get_id_loop buf tn else Done (tn, buf))"
  by pat_completeness auto
termination
  by (relation "measure (\<lambda>(buf, tn). nat (int (length (ab_data buf)) - ab_next buf))")
    (auto simp: asn1buf_remove_octet_def split: if_splits)

declare get_id_loop.simps [simp del]

definition asn1_get_id :: "asn1buf \<Rightarrow> ((asn1_class \<times> asn1_construction \<times> int) \<times> asn1buf) c_outcome" where
  "asn1_get_id buf =
     bindO (asn1buf_remove_octet buf) (\<lambda>(o1, buf).
       if o1 AND 0x1F \<noteq> 0x1F then Done ((o1 AND 0xC0, o1 AND 0x20, uint (o1 AND 0x1F)), buf)
       else bindO (get_id_loop buf 0) (\<lambda>(tn, buf). Done ((o1 AND 0xC0, o1 AND 0x20, tn), buf)))"

fun get_length_loop :: "nat \<Rightarrow> asn1buf \<Rightarrow> int \<Rightarrow> (int \<times> asn1buf) c_outcome" where
  "get_length_loop 0 buf len = Done (len, buf)"
| "get_length_loop (Suc num) buf len =
     bindO (asn1buf_remove_octet buf) (\<lambda>(o1, buf). get_length_loop num buf (i32 (len * 256 + uint o1)))"

text \<open>The length, whether it is indefinite, and the rest.\<close>

definition asn1_get_length :: "asn1buf \<Rightarrow> ((int \<times> bool) \<times> asn1buf) c_outcome" where
  "asn1_get_length buf =
     bindO (asn1buf_remove_octet buf) (\<lambda>(o1, buf).
       if o1 AND 0x80 = 0 then Done ((uint (o1 AND 0x7F), False), buf)
       else bindO (get_length_loop (unat (o1 AND 0x7F)) buf 0) (\<lambda>(len, buf). Done ((len, len = 0), buf)))"

text \<open>
  At the end of the buffer \<open>asn1_get_tag_indef\<close> sets the tag number to \<open>ASN1_TAGNUM_CEILING\<close>,
  returns 0 and leaves the other results as they were: the result is \<open>None\<close>.
\<close>

record asn1_taginfo =
  ti_class :: asn1_class
  ti_construction :: asn1_construction
  ti_tagnum :: int
  ti_len :: int
  ti_indef :: bool

definition asn1_get_tag_indef :: "asn1buf \<Rightarrow> (asn1_taginfo option \<times> asn1buf) c_outcome" where
  "asn1_get_tag_indef buf =
     (if ab_bound buf - ab_next buf + 1 \<le> 0 then Done (None, buf)
      else
        bindO (asn1_get_id buf) (\<lambda>((class1, construction, tagnum), buf).
        bindO (asn1_get_length buf) (\<lambda>((len, indef), buf).
          Done (Some \<lparr>ti_class = class1, ti_construction = construction, ti_tagnum = tagnum, ti_len = len,
            ti_indef = indef\<rparr>, buf))))"

text \<open>The macro \<open>tag\<close> of the decoders: the length of a primitive value of a universal type.\<close>

definition primitive_tag :: "int \<Rightarrow> asn1buf \<Rightarrow> (int \<times> asn1buf) c_outcome" where
  "primitive_tag type1 buf =
     bindO (asn1_get_tag_indef buf) (\<lambda>(info, buf).
       case info of
         None \<Rightarrow> Error ASN1_BAD_ID
       | Some ti \<Rightarrow>
           if ti_class ti \<noteq> UNIVERSAL \<or> ti_construction ti \<noteq> PRIMITIVE \<or> ti_tagnum ti \<noteq> type1 then Error ASN1_BAD_ID
           else Done (ti_len ti, buf))"

definition asn1_get_sequence :: "asn1buf \<Rightarrow> ((int \<times> bool) \<times> asn1buf) c_outcome" where
  "asn1_get_sequence buf =
     bindO (asn1_get_tag_indef buf) (\<lambda>(info, buf).
       case info of
         None \<Rightarrow> Error ASN1_BAD_ID
       | Some ti \<Rightarrow>
           if ti_class ti \<noteq> UNIVERSAL \<or> ti_construction ti \<noteq> CONSTRUCTED \<or> ti_tagnum ti \<noteq> ASN1_SEQUENCE
           then Error ASN1_BAD_ID else Done ((ti_len ti, ti_indef ti), buf))"

definition i64 :: "int \<Rightarrow> int" where
  "i64 x = (x + 2 ^ 63) mod 2 ^ 64 - 2 ^ 63"

definition is_i64 :: "int \<Rightarrow> bool" where
  "is_i64 x \<longleftrightarrow> - (2 ^ 63) \<le> x \<and> x < 2 ^ 63"

definition u64 :: "int \<Rightarrow> int" where
  "u64 x = x mod 2 ^ 64"

text \<open>The loop of both integer decoders behind the first octet; \<open>wrap\<close> is the type of the result.\<close>

fun decode_digits :: "(int \<Rightarrow> int) \<Rightarrow> nat \<Rightarrow> asn1buf \<Rightarrow> int \<Rightarrow> (int \<times> asn1buf) c_outcome" where
  "decode_digits wrap 0 buf n = Done (n, buf)"
| "decode_digits wrap (Suc i) buf n =
     bindO (asn1buf_remove_octet buf) (\<lambda>(o1, buf). decode_digits wrap i buf (wrap (n * 256 + uint o1)))"

definition asn1_decode_integer :: "asn1buf \<Rightarrow> (int \<times> asn1buf) c_outcome" where
  "asn1_decode_integer buf =
     bindO (primitive_tag ASN1_INTEGER buf) (\<lambda>(len, buf).
       if len \<le> 0 then Done (0, buf)
       else bindO (asn1buf_remove_octet buf) (\<lambda>(o1, buf).
         let n = (if o1 AND 0x80 \<noteq> 0 then -1 else 0) in
         if n < 0 \<and> len > 8 then Error ASN1_OVERFLOW
         else if len > 9 then Error ASN1_OVERFLOW
         else decode_digits i64 (nat len - 1) buf (i64 (n * 256 + uint o1))))"

definition asn1_decode_unsigned_integer :: "asn1buf \<Rightarrow> (int \<times> asn1buf) c_outcome" where
  "asn1_decode_unsigned_integer buf =
     bindO (primitive_tag ASN1_INTEGER buf) (\<lambda>(len, buf).
       if len \<le> 0 then Done (0, buf)
       else bindO (asn1buf_remove_octet buf) (\<lambda>(o1, buf).
         if o1 AND 0x80 \<noteq> 0 then Error ASN1_OVERFLOW
         else if len > 9 then Error ASN1_OVERFLOW
         else decode_digits u64 (nat len - 1) buf (u64 (uint o1))))"

definition decode_string :: "int \<Rightarrow> asn1buf \<Rightarrow> (octet list \<times> asn1buf) c_outcome" where
  "decode_string type1 buf = bindO (primitive_tag type1 buf) (\<lambda>(len, buf). asn1buf_remove_octetstring buf len)"

definition asn1_decode_octetstring :: "asn1buf \<Rightarrow> (octet list \<times> asn1buf) c_outcome" where
  "asn1_decode_octetstring = decode_string ASN1_OCTETSTRING"

definition asn1_decode_generalstring :: "asn1buf \<Rightarrow> (octet list \<times> asn1buf) c_outcome" where
  "asn1_decode_generalstring = decode_string ASN1_GENERALSTRING"

definition asn1_decode_printablestring :: "asn1buf \<Rightarrow> (octet list \<times> asn1buf) c_outcome" where
  "asn1_decode_printablestring = decode_string ASN1_PRINTABLESTRING"

definition asn1_decode_ia5string :: "asn1buf \<Rightarrow> (octet list \<times> asn1buf) c_outcome" where
  "asn1_decode_ia5string = decode_string ASN1_IA5STRING"

definition asn1_decode_null :: "asn1buf \<Rightarrow> asn1buf c_outcome" where
  "asn1_decode_null buf =
     bindO (primitive_tag ASN1_NULL buf) (\<lambda>(len, buf). if len \<noteq> 0 then Error ASN1_BAD_LENGTH else Done buf)"

section \<open>Constructed values of indefinite length\<close>

definition asn1buf_remains :: "asn1buf \<Rightarrow> bool \<Rightarrow> int c_outcome" where
  "asn1buf_remains buf indef =
     (let remain = ab_bound buf - ab_next buf + 1 in
      if remain \<le> 0 then Done remain
      else if indef \<and> remain \<ge> 2 then
        bindO (byte_at (ab_data buf) (nat (ab_next buf))) (\<lambda>a.
          if a \<noteq> 0 then Done remain
          else bindO (byte_at (ab_data buf) (nat (ab_next buf + 1))) (\<lambda>b. Done (if b = 0 then 0 else remain)))
      else Done remain)"

definition asn1_is_eoc :: "asn1_class \<Rightarrow> int \<Rightarrow> bool \<Rightarrow> bool" where
  "asn1_is_eoc class1 num indef \<longleftrightarrow> class1 = UNIVERSAL \<and> num = 0 \<and> \<not> indef"

definition skip_contents :: "asn1buf \<Rightarrow> int \<Rightarrow> bool \<Rightarrow> asn1buf c_outcome" where
  "skip_contents buf len indef =
     (if indef then Done buf
      else if len \<le> ab_bound buf - ab_next buf + 1 then Done (buf\<lparr>ab_next := ab_next buf + len\<rparr>)
      else Error ASN1_OVERRUN)"

text \<open>
  One round of the loop of \<open>asn1buf_skiptail\<close>.  The variables that receive the tag live on from
  round to round, and at the end of the buffer only the tag number is set.  The first round finds
  them uninitialized: their content is an argument.
\<close>

definition skip_round :: "asn1buf \<Rightarrow> int \<Rightarrow> asn1_taginfo \<Rightarrow> (asn1buf \<times> int \<times> asn1_taginfo) c_outcome" where
  "skip_round buf nestlevel old =
     bindO (asn1_get_tag_indef buf) (\<lambda>(info, buf).
       let ti = (case info of None \<Rightarrow> old\<lparr>ti_tagnum := ASN1_TAGNUM_CEILING\<rparr> | Some ti \<Rightarrow> ti) in
       bindO (skip_contents buf (ti_len ti) (ti_indef ti)) (\<lambda>buf.
         let nestlevel = (if ti_indef ti then i32 (nestlevel + 1) else nestlevel);
             nestlevel = (if asn1_is_eoc (ti_class ti) (ti_tagnum ti) (ti_indef ti) then nestlevel - 1 else nestlevel)
         in Done (buf, nestlevel, ti)))"

text \<open>\<open>None\<close> stands for a loop that has not ended after \<open>fuel\<close> rounds.\<close>

fun skip_loop :: "nat \<Rightarrow> asn1buf \<Rightarrow> int \<Rightarrow> asn1_taginfo \<Rightarrow> asn1buf c_outcome option" where
  "skip_loop 0 buf nestlevel old = (if nestlevel > 0 then None else Some (Done buf))"
| "skip_loop (Suc fuel) buf nestlevel old =
     (if nestlevel > 0
      then bindF (Some (skip_round buf nestlevel old)) (\<lambda>(buf, nestlevel, ti). skip_loop fuel buf nestlevel ti)
      else Some (Done buf))"

definition asn1buf_skiptail :: "nat \<Rightarrow> asn1_taginfo \<Rightarrow> asn1buf \<Rightarrow> int \<Rightarrow> bool \<Rightarrow> asn1buf c_outcome option" where
  "asn1buf_skiptail fuel stack buf len indef =
     bindF (Some (skip_contents buf len indef)) (\<lambda>buf. skip_loop fuel buf (if indef then 2 else 1) stack)"

text \<open>The result is the position of the outer buffer afterwards.\<close>

definition asn1buf_sync ::
  "nat \<Rightarrow> asn1_taginfo \<Rightarrow> asn1buf \<Rightarrow> asn1buf \<Rightarrow> asn1_class \<Rightarrow> int \<Rightarrow> int \<Rightarrow> bool \<Rightarrow> bool \<Rightarrow> asn1buf c_outcome option" where
  "asn1buf_sync fuel stack buf subbuf class1 lasttag len indef seqindef =
     (if \<not> seqindef then Some (Done (buf\<lparr>ab_next := ab_bound subbuf + 1\<rparr>))
      else if \<not> asn1_is_eoc class1 lasttag indef then
        bindF (asn1buf_skiptail fuel stack subbuf len indef) (\<lambda>subbuf. Some (Done buf))
      else Some (Done (buf\<lparr>ab_next := ab_next subbuf\<rparr>)))"

section \<open>Buffers, digits and headers\<close>

text \<open>A buffer that has read \<open>pre\<close>, has \<open>xs\<close> before it, and whose array goes on with \<open>post\<close>.\<close>

definition reading :: "octet list \<Rightarrow> octet list \<Rightarrow> octet list \<Rightarrow> asn1buf" where
  "reading pre xs post =
     \<lparr>ab_data = pre @ xs @ post, ab_next = int (length pre), ab_bound = int (length pre + length xs) - 1\<rparr>"

lemma wrap_data_reading: "asn1buf_wrap_data (Some d) = Inr (reading [] d [])"
  by (simp add: asn1buf_wrap_data_def reading_def)

lemma remains_reading [simp]: "ab_bound (reading pre xs post) - ab_next (reading pre xs post) + 1 = int (length xs)"
  by (simp add: reading_def)

lemma remove_octet_reading [simp]:
  "asn1buf_remove_octet (reading pre (x # xs) post) = Done (x, reading (pre @ [x]) xs post)"
  "asn1buf_remove_octet (reading pre [] post) = Error ASN1_OVERRUN"
  by (simp_all add: asn1buf_remove_octet_def reading_def nth_append)

lemma remove_octetstring_reading [simp]:
  "asn1buf_remove_octetstring (reading pre (ds @ xs) post) (int (length ds)) = Done (ds, reading (pre @ ds) xs post)"
  by (auto simp: asn1buf_remove_octetstring_def reading_def)

lemma skip_contents_reading [simp]:
  "skip_contents (reading pre (ds @ xs) post) (int (length ds)) False = Done (reading (pre @ ds) xs post)"
  by (simp add: skip_contents_def reading_def)

text \<open>The number that a row of octets stands for, after the digits \<open>n\<close>.\<close>

definition be_value :: "int \<Rightarrow> octet list \<Rightarrow> int" where
  "be_value n ds = foldl (\<lambda>n d. n * 256 + uint d) n ds"

lemma be_value_simps [simp]:
  "be_value n [] = n"
  "be_value n (d # ds) = be_value (n * 256 + uint d) ds"
  "be_value n (ds @ es) = be_value (be_value n ds) es"
  by (simp_all add: be_value_def)

lemma octet_bounds: "0 \<le> uint (d :: octet)" "uint d < 256"
  using uint_lt2p [of d] by simp_all

lemma be_value_bounds: "n * 256 ^ length ds \<le> be_value n ds \<and> be_value n ds < (n + 1) * 256 ^ length ds"
proof (induction ds arbitrary: n)
  case (Cons d ds)
  have "n * 256 \<le> n * 256 + uint d" "n * 256 + uint d + 1 \<le> (n + 1) * 256"
    using octet_bounds [of d] by (simp_all add: distrib_right)
  then have "n * 256 * 256 ^ length ds \<le> (n * 256 + uint d) * 256 ^ length ds"
    "(n * 256 + uint d + 1) * 256 ^ length ds \<le> (n + 1) * 256 * 256 ^ length ds"
    by (intro mult_right_mono; simp)+
  then show ?case using Cons.IH [of "n * 256 + uint d"]
    by (simp only: length_Cons power_Suc be_value_simps mult.assoc) linarith
qed simp

lemma be_value_between:
  assumes "lo \<le> be_value n ds" "be_value n ds < hi" "lo \<le> 0" "0 < hi"
  shows "lo \<le> n \<and> n < hi"
proof -
  have p: "1 \<le> (256 :: int) ^ length ds" by simp
  have "hi \<le> n * 256 ^ length ds" if "hi \<le> n"
    using that \<open>0 < hi\<close> mult_left_mono [OF p, of n] by linarith
  moreover have "(n + 1) * 256 ^ length ds \<le> lo" if "n + 1 \<le> lo"
    using that \<open>lo \<le> 0\<close> mult_left_mono_neg [OF p, of "n + 1"] by simp
  ultimately show ?thesis using be_value_bounds [of n ds] assms by linarith
qed

lemma decode_digits_value:
  assumes "\<And>m. lo \<le> m \<Longrightarrow> m < hi \<Longrightarrow> wrap m = m" "lo \<le> 0" "0 < hi"
  shows "lo \<le> be_value n ds \<Longrightarrow> be_value n ds < hi \<Longrightarrow>
    decode_digits wrap (length ds) (reading pre (ds @ xs) post) n = Done (be_value n ds, reading (pre @ ds) xs post)"
proof (induction ds arbitrary: pre n)
  case (Cons d ds)
  then have "wrap (n * 256 + uint d) = n * 256 + uint d"
    using be_value_between [OF _ _ assms(2,3), of "n * 256 + uint d" ds] by (intro assms(1)) simp_all
  then show ?case using Cons by simp
qed simp

lemma get_length_loop_digits: "get_length_loop num buf len = decode_digits i32 num buf len"
  by (induction num arbitrary: buf len) (simp_all add: case_prod_unfold)

fun base256 :: "nat \<Rightarrow> octet list" where
  "base256 n = (if n = 0 then [] else base256 (n div 256) @ [word_of_int (int (n mod 256))])"

declare base256.simps [simp del]

lemma be_value_base256 [simp]: "be_value 0 (base256 n) = int n"
  by (induction n rule: base256.induct)
    (subst base256.simps, auto simp: uint_word_of_int zmod_int zdiv_int)

lemma base256_bound: "n < 256 ^ k \<Longrightarrow> length (base256 n) \<le> k"
proof (induction k arbitrary: n)
  case 0 then show ?case by (simp add: base256.simps)
next
  case (Suc k)
  then have "n div 256 < 256 ^ k" by (simp add: less_mult_imp_div_less mult.commute)
  then show ?case using Suc.IH by (subst base256.simps) auto
qed

lemma make_length_loop_base256: "make_length_loop buf n len = (base256 n @ buf, len + int (length (base256 n)))"
proof (induction buf n len rule: make_length_loop.induct)
  case (1 buf n len)
  then show ?case by (subst make_length_loop.simps, subst (1 2) base256.simps) (simp add: asn1buf_insert_octet_def)
qed

definition header_class :: "asn1_class \<Rightarrow> bool" where
  "header_class class1 \<longleftrightarrow> class1 \<in> {UNIVERSAL, APPLICATION, CONTEXT_SPECIFIC, PRIVATE}"

definition header_construction :: "asn1_construction \<Rightarrow> bool" where
  "header_construction construction \<longleftrightarrow> construction \<in> {PRIMITIVE, CONSTRUCTED}"

lemmas header_defs = header_class_def header_construction_def UNIVERSAL_def APPLICATION_def
  CONTEXT_SPECIFIC_def PRIVATE_def PRIMITIVE_def CONSTRUCTED_def

text \<open>All first octets of an identifier, by evaluation.\<close>

definition first_octet_ok :: "asn1_class \<Rightarrow> asn1_construction \<Rightarrow> int \<Rightarrow> bool" where
  "first_octet_ok class1 construction tagnum \<longleftrightarrow>
     (let o1 = class1 OR construction OR word_of_int tagnum in
      o1 AND 0xC0 = class1 \<and> o1 AND 0x20 = construction \<and> uint (o1 AND 0x1F) = tagnum)"

lemma all_first_octets:
  "list_all (\<lambda>c. list_all (\<lambda>k. list_all (first_octet_ok c k) [0..31]) [0x00, 0x20]) [0x00, 0x40, 0x80, 0xC0]"
  by code_simp

lemma first_octet:
  "header_class c \<Longrightarrow> header_construction k \<Longrightarrow> 0 \<le> t \<Longrightarrow> t \<le> 31 \<Longrightarrow> first_octet_ok c k t"
  using all_first_octets by (auto simp: header_defs list_all_iff)

lemma get_id_low:
  assumes "header_class c" "header_construction k" "0 \<le> t" "t < 31"
  shows "asn1_get_id (reading pre ((c OR k OR word_of_int t) # xs) post) =
    Done ((c, k, t), reading (pre @ [c OR k OR word_of_int t]) xs post)"
proof -
  have "uint ((c OR k OR word_of_int t) AND 0x1F) \<noteq> uint (0x1F :: octet)"
    using first_octet [of c k t] assms by (simp add: first_octet_ok_def Let_def)
  then have "(c OR k OR word_of_int t) AND 0x1F \<noteq> 0x1F" by metis
  then show ?thesis using first_octet [of c k t] assms by (simp add: asn1_get_id_def first_octet_ok_def Let_def)
qed

lemma get_id_high:
  assumes "header_class c" "header_construction k"
  shows "asn1_get_id (reading pre ((c OR k OR 0x1F) # xs) post) =
    bindO (get_id_loop (reading (pre @ [c OR k OR 0x1F]) xs post) 0) (\<lambda>(tn, buf). Done ((c, k, tn), buf))"
proof -
  have "word_of_int 31 = (0x1F :: octet)" by simp
  then have f: "(c OR k OR 0x1F) AND 0xC0 = c" "(c OR k OR 0x1F) AND 0x20 = k"
    "uint ((c OR k OR 0x1F) AND 0x1F) = uint (0x1F :: octet)"
    using first_octet [of c k 31] assms by (simp_all add: first_octet_ok_def Let_def)
  then have "(c OR k OR 0x1F) AND 0x1F = 0x1F" by (simp only: word_uint_eq_iff)
  then show ?thesis using f by (simp add: asn1_get_id_def)
qed

lemma uint_and_7F: "uint (d AND 0x7F :: octet) = uint d mod 128"
proof -
  have "uint d AND 127 = take_bit 7 (uint d)" by (simp add: take_bit_eq_mask mask_numeral)
  then show ?thesis by (simp add: unsigned_and_eq take_bit_eq_mod)
qed

text \<open>One octet of a tag number ends the loop, whatever its own bit 7 says.\<close>

lemma get_id_loop_first: "get_id_loop (reading pre (d # xs) post) 0 = Done (uint (d AND 0x7F), reading (pre @ [d]) xs post)"
proof -
  have b: "0 \<le> uint (d AND 0x7F)" "uint (d AND 0x7F) < 128" by (simp_all add: uint_and_7F)
  then have "i32 (uint (d AND 0x7F)) = uint (d AND 0x7F)" by (intro i32_id) (unfold is_i32_def, linarith)
  with b show ?thesis by (subst get_id_loop.simps) (simp add: Let_def)
qed

lemma make_id_get_id:
  assumes "header_class c" "header_construction k" "0 \<le> t" "t < 128"
  shows "\<exists>hdr. asn1_make_id buf c k t = (hdr @ buf, int (length hdr)) \<and>
    (\<forall>pre xs post. asn1_get_id (reading pre (hdr @ xs) post) = Done ((c, k, t), reading (pre @ hdr) xs post))"
proof (cases "t < 31")
  case True
  then show ?thesis
    using assms by (intro exI [of _ "[c OR k OR word_of_int t]"]) (simp add: asn1_make_id_def get_id_low)
next
  case False
  have "uint (word_of_int t AND 0x7F :: octet) = t"
    using assms by (simp add: uint_and_7F uint_word_of_int)
  with False assms show ?thesis
    by (intro exI [of _ "[c OR k OR 0x1F, word_of_int t]"])
      (simp add: asn1_make_id_def get_id_high get_id_loop_first asn1buf_insert_octet_def make_id_loop.simps Let_def)
qed

lemma get_length_short: "d AND 0x80 = 0 \<Longrightarrow>
  asn1_get_length (reading pre (d # xs) post) = Done ((uint d mod 128, False), reading (pre @ [d]) xs post)"
  by (simp add: asn1_get_length_def uint_and_7F)

lemma get_length_long:
  assumes "d AND 0x80 \<noteq> 0" "unat (d AND 0x7F) = length ds" "be_value 0 ds < 2 ^ 31"
  shows "asn1_get_length (reading pre (d # ds @ xs) post) =
    Done ((be_value 0 ds, be_value 0 ds = 0), reading (pre @ d # ds) xs post)"
proof -
  have "0 \<le> be_value 0 ds" using be_value_bounds [of 0 ds] by simp
  then have "decode_digits i32 (length ds) (reading (pre @ [d]) (ds @ xs) post) 0 =
      Done (be_value 0 ds, reading ((pre @ [d]) @ ds) xs post)"
    using assms(3) by (intro decode_digits_value [where lo = "- (2 ^ 31)" and hi = "2 ^ 31"]) (simp_all add: i32_id is_i32_def)
  then show ?thesis using assms by (simp add: asn1_get_length_def get_length_loop_digits)
qed

lemma length_octet_short: "0 \<le> n \<Longrightarrow> n < 128 \<Longrightarrow> (word_of_int n :: octet) AND 0x80 = 0"
proof -
  have *: "list_all (\<lambda>n. (word_of_int n :: octet) AND 0x80 = 0) [0..127]" by code_simp
  assume "0 \<le> n" "n < 128"
  then show ?thesis using * by (simp add: list_all_iff)
qed

lemma length_octet_long: "n < 5 \<Longrightarrow> (word_of_int (128 + int n) :: octet) AND 0x80 \<noteq> 0 \<and>
  unat ((word_of_int (128 + int n) :: octet) AND 0x7F) = n"
proof -
  have *: "list_all (\<lambda>n. (word_of_int (128 + int n) :: octet) AND 0x80 \<noteq> 0 \<and>
    unat ((word_of_int (128 + int n) :: octet) AND 0x7F) = n) [0..<5]" by code_simp
  assume "n < 5"
  then show ?thesis using * by (simp add: list_all_iff)
qed

lemma make_length_get_length:
  assumes "0 \<le> len" "len < 2 ^ 31"
  shows "\<exists>hdr. asn1_make_length buf len = (hdr @ buf, int (length hdr)) \<and>
    (\<forall>pre xs post. asn1_get_length (reading pre (hdr @ xs) post) = Done ((len, False), reading (pre @ hdr) xs post))"
proof (cases "len < 128")
  case True
  then show ?thesis using assms
    by (intro exI [of _ "[word_of_int len]"])
      (simp add: asn1_make_length_def asn1buf_insert_octet_def get_length_short length_octet_short uint_word_of_int)
next
  case False
  let ?ds = "base256 (nat len)"
  have "nat len < 256 ^ 4" using assms by (simp add: nat_less_iff)
  then have "length ?ds < 5" using base256_bound [of "nat len" 4] by simp
  with length_octet_long [of "length ?ds"] False assms show ?thesis
    by (intro exI [of _ "word_of_int (128 + int (length ?ds)) # ?ds"])
      (simp add: asn1_make_length_def asn1buf_insert_octet_def make_length_loop_base256 get_length_long)
qed

text \<open>A header that is written with a tag number below 128 is read back.\<close>

lemma make_tag_get_tag:
  assumes "header_class c" "header_construction k" "0 \<le> t" "t < 128" "0 \<le> len" "len < 2 ^ 31"
  shows "\<exists>hdr. asn1_make_tag buf c k t len = Inr (hdr @ buf, int (length hdr)) \<and>
    (\<forall>pre xs post. asn1_get_tag_indef (reading pre (hdr @ xs) post) =
      Done (Some \<lparr>ti_class = c, ti_construction = k, ti_tagnum = t, ti_len = len, ti_indef = False\<rparr>,
        reading (pre @ hdr) xs post))"
proof -
  obtain ls where ls: "asn1_make_length buf len = (ls @ buf, int (length ls))"
    "\<And>pre xs post. asn1_get_length (reading pre (ls @ xs) post) = Done ((len, False), reading (pre @ ls) xs post)"
    using make_length_get_length [OF assms(5,6)] by blast
  obtain ids where ids: "asn1_make_id (ls @ buf) c k t = (ids @ ls @ buf, int (length ids))"
    "\<And>pre xs post. asn1_get_id (reading pre (ids @ xs) post) = Done ((c, k, t), reading (pre @ ids) xs post)"
    using make_id_get_id [OF assms(1-4)] by blast
  have "ids \<noteq> []"
    using ids(2) [of "[]" "[]" "[]"] by (auto simp: asn1_get_id_def)
  then have "\<not> int (length ids) + (int (length ls) + int (length xs)) \<le> 0" for xs :: "octet list" by (cases ids) simp_all
  then have "asn1_get_tag_indef (reading pre ((ids @ ls) @ xs) post) =
      Done (Some \<lparr>ti_class = c, ti_construction = k, ti_tagnum = t, ti_len = len, ti_indef = False\<rparr>,
        reading (pre @ ids @ ls) xs post)" for pre xs post
    using ids(2) [of pre "ls @ xs" post] ls(2) [of "pre @ ids" xs post] by (simp add: asn1_get_tag_indef_def)
  then show ?thesis using ls ids assms
    by (intro exI [of _ "ids @ ls"]) (simp add: asn1_make_tag_def ASN1_TAGNUM_MAX_def ASN1_TAGNUM_CEILING_def)
qed

lemma make_tag_primitive:
  assumes "0 \<le> t" "t < 128" "0 \<le> len" "len < 2 ^ 31"
  shows "\<exists>hdr. asn1_make_tag buf UNIVERSAL PRIMITIVE t len = Inr (hdr @ buf, int (length hdr)) \<and>
    (\<forall>pre xs post. primitive_tag t (reading pre (hdr @ xs) post) = Done (len, reading (pre @ hdr) xs post))"
proof -
  have "header_class UNIVERSAL" "header_construction PRIMITIVE" by (simp_all add: header_defs)
  from make_tag_get_tag [OF this assms, of buf] show ?thesis by (auto simp: primitive_tag_def)
qed

section \<open>Round trips\<close>

lemma i64_id: "is_i64 x \<Longrightarrow> i64 x = x"
  by (simp add: is_i64_def i64_def)

text \<open>The octets that \<open>asn1_encode_integer\<close> writes before it looks at the sign.\<close>

function signed256 :: "int \<Rightarrow> octet list" where
  "signed256 v =
     (if v div 256 \<noteq> 0 \<and> v div 256 \<noteq> -1 then signed256 (v div 256) else []) @ [word_of_int (v mod 256)]"
  by pat_completeness auto
termination
  by (relation "measure (\<lambda>v. nat \<bar>v\<bar>)") (auto simp: shift_smaller)

declare signed256.simps [simp del]

definition sign :: "int \<Rightarrow> int" where
  "sign v = (if v < 0 then -1 else 0)"

lemma uint_octet_mod [simp]: "uint (word_of_int (v mod 256) :: octet) = v mod 256"
  by (simp add: uint_word_of_int)

lemma signed256_value: "be_value (sign v) (signed256 v) = v"
proof (induction v rule: signed256.induct)
  case (1 v)
  have "v div 256 = -1 \<Longrightarrow> v mod 256 - 256 = v" by presburger
  with 1 show ?case by (subst signed256.simps) (auto simp: sign_def pos_imp_zdiv_neg_iff)
qed

lemma signed256_bound: "- (256 ^ Suc k) \<le> v \<Longrightarrow> v < 256 ^ Suc k \<Longrightarrow> length (signed256 v) \<le> Suc k"
proof (induction k arbitrary: v)
  case 0
  then have "v div 256 = 0 \<or> v div 256 = -1" by simp linarith
  then show ?case by (subst signed256.simps) auto
next
  case (Suc k)
  have "- (256 ^ Suc k) \<le> v div 256" "v div 256 < 256 ^ Suc k"
    using Suc.prems unfolding power_Suc [of 256 "Suc k"] by linarith+
  then show ?case using Suc.IH by (subst signed256.simps) auto
qed

lemma encode_digits_signed256:
  "encode_digits buf v len = (signed256 v @ buf, uint (hd (signed256 v)), len + int (length (signed256 v)))"
proof (induction buf v len rule: encode_digits.induct)
  case (1 buf v len)
  have "signed256 (v div 256) \<noteq> []" by (subst signed256.simps) simp
  with 1 show ?case
    by (subst encode_digits.simps, subst (1 2 3) signed256.simps)
      (use div_mult_mod_eq [of v 256] in \<open>simp add: asn1buf_insert_octet_def uint_word_of_int\<close>)
qed

text \<open>The content octets of an integer: the sign of the value is bit 7 of the first one.\<close>

definition int_octets :: "int \<Rightarrow> octet list" where
  "int_octets v =
     (let ds = signed256 v in
      if v > 0 \<and> uint (hd ds) \<ge> 128 then 0 # ds else if v < 0 \<and> uint (hd ds) < 128 then 0xFF # ds else ds)"

lemma top_bit: "(d :: octet) AND 0x80 \<noteq> 0 \<longleftrightarrow> 128 \<le> uint d"
proof -
  have *: "list_all (\<lambda>n. ((word_of_int n :: octet) AND 0x80 \<noteq> 0) = (128 \<le> n)) [0..255]" by code_simp
  have "uint d \<in> set [0..255]" using octet_bounds [of d] by simp
  then have "((word_of_int (uint d) :: octet) AND 0x80 \<noteq> 0) = (128 \<le> uint d)"
    using * by (simp only: list_all_iff)
  then show ?thesis by simp
qed

lemma signed256_Cons: "\<exists>d ds. signed256 v = d # ds"
  by (subst signed256.simps) (metis append_is_Nil_conv list.exhaust not_Cons_self2)

lemma int_octets_value: "be_value (sign v) (int_octets v) = v"
  using signed256_value [of v] by (auto simp: int_octets_def Let_def sign_def)

lemma int_octets_sign: "\<exists>d ds. int_octets v = d # ds \<and> (128 \<le> uint d \<longleftrightarrow> v < 0)"
proof -
  obtain d ds where ds: "signed256 v = d # ds" using signed256_Cons by blast
  show ?thesis
  proof (cases "v = 0")
    case True
    have "signed256 0 = [0]" by (simp add: signed256.simps)
    then show ?thesis using True by (simp add: int_octets_def)
  qed (use ds in \<open>auto simp: int_octets_def Let_def\<close>)
qed

lemma int_octets_bound:
  assumes "is_i64 v"
  shows "length (int_octets v) \<le> 8"
proof (rule ccontr)
  assume long: "\<not> length (int_octets v) \<le> 8"
  obtain d ds where ds: "int_octets v = d # ds" "128 \<le> uint d \<longleftrightarrow> v < 0" using int_octets_sign by blast
  have "length (signed256 v) \<le> 8"
    using signed256_bound [of 7 v] assms by (simp add: is_i64_def)
  then have l: "length (signed256 v) = 8" "int_octets v \<noteq> signed256 v"
    using long by (auto simp: int_octets_def Let_def split: if_splits)
  obtain e es where e: "signed256 v = e # es" using signed256_Cons by blast
  then have "length es = 7" using l by simp
  then have b: "(sign v * 256 + uint e) * 256 ^ 7 \<le> v" "v < (sign v * 256 + uint e + 1) * 256 ^ 7"
    using be_value_bounds [of "sign v * 256 + uint e" es] signed256_value [of v] e by simp_all
  have "v > 0 \<and> uint e \<ge> 128 \<or> v < 0 \<and> uint e < 128"
    using l(2) e by (auto simp: int_octets_def Let_def split: if_splits)
  then show False using b assms by (auto simp: sign_def is_i64_def)
qed

lemma encode_integer_octets:
  "asn1_encode_integer buf v =
    bindE (asn1_make_tag (int_octets v @ buf) UNIVERSAL PRIMITIVE ASN1_INTEGER (int (length (int_octets v))))
      (\<lambda>(b, partlen). Inr (b, int (length (int_octets v)) + partlen))"
  by (simp add: asn1_encode_integer_def encode_digits_signed256 int_octets_def Let_def asn1buf_insert_octet_def add.commute)

lemma decode_integer_octets:
  assumes "is_i64 v" "primitive_tag ASN1_INTEGER buf = Done (int (length (int_octets v)), reading pre (int_octets v @ xs) post)"
  shows "asn1_decode_integer buf = Done (v, reading (pre @ int_octets v) xs post)"
proof -
  obtain d ds where ds: "int_octets v = d # ds" "128 \<le> uint d \<longleftrightarrow> v < 0" using int_octets_sign by blast
  have n: "(if d AND 0x80 \<noteq> 0 then -1 else 0) = sign v" using ds(2) by (simp only: top_bit sign_def)
  have val: "be_value (sign v * 256 + uint d) ds = v" using int_octets_value [of v] ds by simp
  then have w: "i64 (sign v * 256 + uint d) = sign v * 256 + uint d"
    using be_value_between [of "- (2 ^ 63)" "sign v * 256 + uint d" ds "2 ^ 63"] assms(1)
    by (intro i64_id) (simp add: is_i64_def)
  have "decode_digits i64 (length ds) (reading (pre @ [d]) (ds @ xs) post) (sign v * 256 + uint d) =
      Done (v, reading ((pre @ [d]) @ ds) xs post)"
    using decode_digits_value [of "- (2 ^ 63)" "2 ^ 63" i64 "sign v * 256 + uint d" ds "pre @ [d]" xs post] val assms(1)
    by (simp add: i64_id is_i64_def)
  moreover have "length ds < 8" using int_octets_bound [OF assms(1)] ds by simp
  moreover have "nat (1 + int (length ds)) - Suc 0 = length ds" by simp
  ultimately show ?thesis using ds(1) assms(2)
    by (simp only: asn1_decode_integer_def bindO.simps case_prod_conv append_Cons remove_octet_reading n Let_def w) simp
qed

text \<open>
  C21. Every 64-bit integer is written by \<open>asn1_encode_integer\<close> in front of what the buffer holds,
  with its length counted, and \<open>asn1_decode_integer\<close> reads the same integer back from any place
  and stops behind it.
\<close>

theorem integer_roundtrip:
  assumes "is_i64 v"
  shows "\<exists>enc. asn1_encode_integer buf v = Inr (enc @ buf, int (length enc)) \<and>
    asn1_decode_integer (reading pre (enc @ xs) post) = Done (v, reading (pre @ enc) xs post)"
proof -
  let ?c = "int_octets v"
  have "int (length ?c) < 2 ^ 31" using int_octets_bound [OF assms] by simp
  then obtain hdr where hdr: "asn1_make_tag (?c @ buf) UNIVERSAL PRIMITIVE ASN1_INTEGER (int (length ?c)) = Inr (hdr @ ?c @ buf, int (length hdr))"
    "\<And>pre xs post. primitive_tag ASN1_INTEGER (reading pre (hdr @ xs) post) = Done (int (length ?c), reading (pre @ hdr) xs post)"
    using make_tag_primitive [of ASN1_INTEGER "int (length ?c)" "?c @ buf"] by (auto simp: ASN1_INTEGER_def)
  then have "asn1_encode_integer buf v = Inr ((hdr @ ?c) @ buf, int (length (hdr @ ?c)))"
    by (simp add: encode_integer_octets)
  moreover have "asn1_decode_integer (reading pre ((hdr @ ?c) @ xs) post) = Done (v, reading (pre @ hdr @ ?c) xs post)"
    using decode_integer_octets [OF assms, of "reading pre (hdr @ ?c @ xs) post" "pre @ hdr" xs post] hdr(2) [of pre "?c @ xs" post] by simp
  ultimately show ?thesis by blast
qed

theorem integer_roundtrip_witness:
  "\<exists>enc. asn1_encode_integer [0xAA] (-129) = Inr (enc @ [0xAA], int (length enc)) \<and>
    asn1_decode_integer (reading [1] (enc @ [2]) []) = Done (-129, reading ([1] @ enc) [2] [])"
  by (rule integer_roundtrip) (simp add: is_i64_def)

lemma u64_id: "0 \<le> x \<Longrightarrow> x < 2 ^ 64 \<Longrightarrow> u64 x = x"
  by (simp add: u64_def)

definition unsigned_octets :: "nat \<Rightarrow> octet list" where
  "unsigned_octets v =
     (let ds = (if v = 0 then [0] else base256 v) in if uint (hd ds) \<ge> 128 then 0 # ds else ds)"

lemma encode_unsigned_base256:
  "encode_unsigned_digits buf v len =
    (let ds = (if v = 0 then [0] else base256 v) in (ds @ buf, uint (hd ds), len + int (length ds)))"
proof (induction buf v len rule: encode_unsigned_digits.induct)
  case (1 buf v len)
  have n: "base256 w \<noteq> []" if "w \<noteq> 0" for w using that by (subst base256.simps) simp
  show ?case
  proof (cases "v div 256 = 0")
    case True
    then have "base256 (v div 256) = []" by (simp add: base256.simps)
    then show ?thesis using True
      by (subst encode_unsigned_digits.simps, subst base256.simps)
        (auto simp: asn1buf_insert_octet_def unsigned_of_nat take_bit_eq_mod Let_def div_eq_0_iff)
  next
    case False
    then have "v \<noteq> 0" by auto
    then show ?thesis using False 1 n [OF False]
      by (subst encode_unsigned_digits.simps, subst base256.simps)
        (simp add: asn1buf_insert_octet_def Let_def)
  qed
qed

lemma encode_unsigned_octets:
  "asn1_encode_unsigned_integer buf v =
    bindE (asn1_make_tag (unsigned_octets v @ buf) UNIVERSAL PRIMITIVE ASN1_INTEGER (int (length (unsigned_octets v))))
      (\<lambda>(b, partlen). Inr (b, int (length (unsigned_octets v)) + partlen))"
  by (simp add: asn1_encode_unsigned_integer_def encode_unsigned_base256 unsigned_octets_def Let_def
      asn1buf_insert_octet_def add.commute)

lemma unsigned_octets_form:
  assumes "v < 2 ^ 64"
  shows "\<exists>d ds. unsigned_octets v = d # ds \<and> \<not> 128 \<le> uint d \<and> length ds \<le> 8 \<and> be_value (uint d) ds = int v"
proof (cases "v = 0")
  case False
  have "base256 v \<noteq> []" using False by (subst base256.simps) simp
  then obtain e es where e: "base256 v = e # es" by (cases "base256 v") auto
  have "length (base256 v) \<le> 8" using base256_bound [of v 8] assms by simp
  then show ?thesis using e False be_value_base256 [of v] by (auto simp: unsigned_octets_def Let_def)
qed (simp add: unsigned_octets_def)

text \<open>
  Every unsigned 64-bit integer is written by \<open>asn1_encode_unsigned_integer\<close> with a zero octet
  in front when its first bit would read as a sign, and \<open>asn1_decode_unsigned_integer\<close> reads it back.
\<close>

theorem unsigned_roundtrip:
  assumes "v < 2 ^ 64"
  shows "\<exists>enc. asn1_encode_unsigned_integer buf v = Inr (enc @ buf, int (length enc)) \<and>
    asn1_decode_unsigned_integer (reading pre (enc @ xs) post) = Done (int v, reading (pre @ enc) xs post)"
proof -
  obtain d ds where c: "unsigned_octets v = d # ds" "\<not> 128 \<le> uint d" "length ds \<le> 8" "be_value (uint d) ds = int v"
    using unsigned_octets_form [OF assms] by blast
  have t: "d AND 0x80 = 0" using c(2) top_bit [of d] by simp
  have "int (Suc (length ds)) < 2 ^ 31" using c(3) by simp
  then obtain hdr where hdr: "asn1_make_tag (d # ds @ buf) UNIVERSAL PRIMITIVE ASN1_INTEGER (1 + int (length ds)) = Inr (hdr @ d # ds @ buf, int (length hdr))"
    "\<And>pre xs post. primitive_tag ASN1_INTEGER (reading pre (hdr @ xs) post) = Done (1 + int (length ds), reading (pre @ hdr) xs post)"
    using make_tag_primitive [of ASN1_INTEGER "1 + int (length ds)" "d # ds @ buf"] by (auto simp: ASN1_INTEGER_def)
  have u: "u64 (uint d) = uint d" using octet_bounds [of d] by (intro u64_id) simp_all
  have "decode_digits u64 (length ds) (reading (pre @ hdr @ [d]) (ds @ xs) post) (uint d) =
      Done (int v, reading ((pre @ hdr @ [d]) @ ds) xs post)"
    using decode_digits_value [of 0 "2 ^ 64" u64 "uint d" ds "pre @ hdr @ [d]" xs post] c(4) assms
    by (simp add: u64_id)
  moreover have "nat (1 + int (length ds)) - Suc 0 = length ds" by simp
  ultimately have "asn1_decode_unsigned_integer (reading pre ((hdr @ d # ds) @ xs) post) =
      Done (int v, reading (pre @ hdr @ d # ds) xs post)"
    using c(3) t hdr(2) [of pre "d # ds @ xs" post] u by (simp add: asn1_decode_unsigned_integer_def)
  moreover have "asn1_encode_unsigned_integer buf v = Inr ((hdr @ d # ds) @ buf, int (length (hdr @ d # ds)))"
    using hdr(1) c(1) by (simp add: encode_unsigned_octets)
  ultimately show ?thesis by blast
qed

theorem unsigned_roundtrip_witness:
  "\<exists>enc. asn1_encode_unsigned_integer [] 255 = Inr (enc @ [], int (length enc)) \<and>
    asn1_decode_unsigned_integer (reading [] (enc @ []) []) = Done (int 255, reading ([] @ enc) [] [])"
  by (rule unsigned_roundtrip) simp

lemma string_roundtrip_tag:
  assumes "0 \<le> t" "t < 128" "length val < 2 ^ 31"
  shows "\<exists>enc. encode_string t buf val = Inr (enc @ buf, int (length enc)) \<and>
    decode_string t (reading pre (enc @ xs) post) = Done (val, reading (pre @ enc) xs post)"
proof -
  have "int (length val) < 2 ^ 31" using assms(3) by simp
  then obtain hdr where hdr: "asn1_make_tag (val @ buf) UNIVERSAL PRIMITIVE t (int (length val)) = Inr (hdr @ val @ buf, int (length hdr))"
    "\<And>pre xs post. primitive_tag t (reading pre (hdr @ xs) post) = Done (int (length val), reading (pre @ hdr) xs post)"
    using make_tag_primitive [OF assms(1,2), of "int (length val)" "val @ buf"] by auto
  then show ?thesis
    by (intro exI [of _ "hdr @ val"]) (simp add: encode_string_def decode_string_def asn1buf_insert_octetstring_def)
qed

text \<open>
  A string of less than 2^31 octets is read back as written, for each of the four string types,
  and the buffer is left behind it.
\<close>

theorem string_roundtrip:
  assumes "length val < 2 ^ 31"
    and "(encode, decode) \<in> {(asn1_encode_octetstring, asn1_decode_octetstring),
      (asn1_encode_generalstring, asn1_decode_generalstring),
      (asn1_encode_printablestring, asn1_decode_printablestring), (asn1_encode_ia5string, asn1_decode_ia5string)}"
  shows "\<exists>enc. encode buf val = Inr (enc @ buf, int (length enc)) \<and>
    decode (reading pre (enc @ xs) post) = Done (val, reading (pre @ enc) xs post)"
proof -
  have "\<exists>enc. encode_string t buf val = Inr (enc @ buf, int (length enc)) \<and>
    decode_string t (reading pre (enc @ xs) post) = Done (val, reading (pre @ enc) xs post)"
    if "t \<in> {ASN1_OCTETSTRING, ASN1_GENERALSTRING, ASN1_PRINTABLESTRING, ASN1_IA5STRING}" for t
    using that assms(1) by (intro string_roundtrip_tag)
      (auto simp: ASN1_OCTETSTRING_def ASN1_GENERALSTRING_def ASN1_PRINTABLESTRING_def ASN1_IA5STRING_def)
  with assms(2) show ?thesis
    by (auto simp: asn1_encode_octetstring_def asn1_decode_octetstring_def asn1_encode_generalstring_def
        asn1_decode_generalstring_def asn1_encode_printablestring_def asn1_decode_printablestring_def
        asn1_encode_ia5string_def asn1_decode_ia5string_def)
qed

theorem string_roundtrip_witness:
  "\<exists>enc. asn1_encode_generalstring [] [0x61, 0x62] = Inr (enc @ [], int (length enc)) \<and>
    asn1_decode_generalstring (reading [] (enc @ [7]) []) = Done ([0x61, 0x62], reading ([] @ enc) [7] [])"
  by (rule string_roundtrip) simp_all

section \<open>What is not read back, and what is skipped\<close>

text \<open>
  A tag number of two octets, from 128 to 16383, is not read back: \<open>asn1_get_id\<close> tests bit 7 of
  the number it has put together and not of the octet it has read, takes the first octet for the
  whole number, and leaves the last octet of the identifier to be read as the length.
\<close>

theorem high_tag_misread:
  assumes "header_class c" "header_construction k" "128 \<le> t" "t < 16384"
  shows "\<exists>hdr. asn1_make_id buf c k t = (hdr @ word_of_int (t mod 128) # buf, int (length hdr) + 1) \<and>
    asn1_get_id (reading pre (hdr @ word_of_int (t mod 128) # xs) post) =
      Done ((c, k, t div 128), reading (pre @ hdr) (word_of_int (t mod 128) # xs) post)"
proof -
  let ?hi = "nat (t div 128)"
  have hi: "?hi \<noteq> 0" "?hi div 128 = 0" "?hi mod 128 = ?hi" "?hi < 128" "int ?hi = t div 128" using assms(3,4) by auto
  have "asn1_make_id buf c k t =
      ([c OR k OR 0x1F, word_of_int (128 + int ?hi)] @ word_of_int (t mod 128) # buf, 3)"
    using assms hi by (simp add: asn1_make_id_def asn1buf_insert_octet_def make_id_loop.simps Let_def)
  moreover have "uint (word_of_int (128 + int ?hi) AND 0x7F :: octet) = t div 128"
    unfolding uint_and_7F uint_word_of_int using assms(3,4) by (simp add: mod_mod_cancel)
  ultimately show ?thesis using assms(1,2)
    by (intro exI [of _ "[c OR k OR 0x1F, word_of_int (128 + int ?hi)]"]) (simp add: get_id_high get_id_loop_first)
qed

theorem high_tag_misread_witness:
  "\<exists>hdr. asn1_make_id [] CONTEXT_SPECIFIC CONSTRUCTED 200 = (hdr @ word_of_int (200 mod 128) # [], int (length hdr) + 1) \<and>
    asn1_get_id (reading [] (hdr @ word_of_int (200 mod 128) # [5]) []) =
      Done ((CONTEXT_SPECIFIC, CONSTRUCTED, 200 div 128), reading ([] @ hdr) (word_of_int (200 mod 128) # [5]) [])"
  by (rule high_tag_misread) (simp_all add: header_class_def header_construction_def)

lemma get_length_indefinite: "asn1_get_length (reading pre (0x80 # xs) post) = Done ((0, True), reading (pre @ [0x80]) xs post)"
  using get_length_long [of "0x80" "[]" pre xs post] by simp

lemma get_id_octet: "d AND 0x1F \<noteq> 0x1F \<Longrightarrow> asn1_get_id (reading pre (d # xs) post) =
  Done ((d AND 0xC0, d AND 0x20, uint (d AND 0x1F)), reading (pre @ [d]) xs post)"
  by (simp add: asn1_get_id_def)

lemma get_tag_indefinite: "d AND 0x1F \<noteq> 0x1F \<Longrightarrow> asn1_get_tag_indef (reading pre (d # 0x80 # xs) post) =
  Done (Some \<lparr>ti_class = d AND 0xC0, ti_construction = d AND 0x20, ti_tagnum = uint (d AND 0x1F), ti_len = 0,
    ti_indef = True\<rparr>, reading (pre @ [d, 0x80]) xs post)"
  by (simp add: asn1_get_tag_indef_def get_id_octet get_length_indefinite)

lemma get_tag_exhausted: "asn1_get_tag_indef (reading pre [] post) = Done (None, reading pre [] post)"
  by (simp add: asn1_get_tag_indef_def)

lemma skip_round_exhausted:
  assumes "ti_indef old" "0 < nest" "nest < 2 ^ 31 - 1"
  shows "skip_round (reading pre [] post) nest old =
    Done (reading pre [] post, nest + 1, old\<lparr>ti_tagnum := ASN1_TAGNUM_CEILING\<rparr>)"
proof -
  have "i32 (nest + 1) = nest + 1" using assms by (intro i32_id) (simp add: is_i32_def)
  then show ?thesis using assms
    by (simp add: skip_round_def get_tag_exhausted skip_contents_def asn1_is_eoc_def Let_def)
qed

lemma skip_loop_exhausted:
  "ti_indef old \<Longrightarrow> 0 < nest \<Longrightarrow> nest + int fuel < 2 ^ 31 \<Longrightarrow> skip_loop fuel (reading pre [] post) nest old = None"
  by (induction fuel arbitrary: nest old) (simp_all add: skip_round_exhausted)

lemma skip_loop_indefinite:
  assumes "d AND 0x1F \<noteq> 0x1F" "0 < nest" "nest < 2 ^ 31 - 1"
  shows "\<exists>ti. ti_indef ti \<and> skip_loop (Suc fuel) (reading pre (d # 0x80 # xs) post) nest old =
    skip_loop fuel (reading (pre @ [d, 0x80]) xs post) (nest + 1) ti"
proof -
  have "i32 (nest + 1) = nest + 1" using assms by (intro i32_id) (simp add: is_i32_def)
  then show ?thesis using assms(1,2)
    by (intro exI [of _ "\<lparr>ti_class = d AND 0xC0, ti_construction = d AND 0x20, ti_tagnum = uint (d AND 0x1F),
      ti_len = 0, ti_indef = True\<rparr>"])
      (simp add: skip_round_def get_tag_indefinite skip_contents_def asn1_is_eoc_def Let_def)
qed

text \<open>
  C36. A message that ends right behind the header of an element of indefinite length keeps
  \<open>asn1buf_skiptail\<close> in its loop: at the end of the buffer \<open>asn1_get_tag_indef\<close> succeeds without
  reading anything, the variables still say "indefinite", and the nesting level is raised once
  more in every round, so that the loop does not end before the level overflows a 32-bit integer.
\<close>

theorem skiptail_unfinished:
  assumes "d AND 0x1F \<noteq> 0x1F" "int fuel < 2 ^ 31 - 2"
  shows "asn1buf_skiptail fuel stack (reading pre [d, 0x80] post) len True = None"
proof (cases fuel)
  case (Suc n)
  obtain ti where "ti_indef ti"
    "skip_loop (Suc n) (reading pre [d, 0x80] post) 2 stack = skip_loop n (reading (pre @ [d, 0x80]) [] post) (2 + 1) ti"
    using skip_loop_indefinite [OF assms(1), of 2 n pre "[]" post stack] by auto
  then show ?thesis using Suc assms(2) skip_loop_exhausted [of ti 3 n "pre @ [d, 0x80]" post]
    by (simp add: asn1buf_skiptail_def skip_contents_def)
qed (simp add: asn1buf_skiptail_def skip_contents_def)

theorem skiptail_unfinished_witness:
  "asn1buf_skiptail 2000000000
     \<lparr>ti_class = 0, ti_construction = 0, ti_tagnum = 0, ti_len = 0, ti_indef = False\<rparr> (reading [] [0x30, 0x80] []) 0 True = None"
  by (rule skiptail_unfinished) simp_all

text \<open>
  What a complete message has at that place: elements of definite length, and elements of
  indefinite length that are closed by the two octets 0.
\<close>

datatype ber = Definite octet "octet list" | Indefinite octet "ber list"

fun ber_bytes :: "ber \<Rightarrow> octet list" where
  "ber_bytes (Definite d val) = d # fst (asn1_make_length [] (int (length val))) @ val"
| "ber_bytes (Indefinite d bs) = d # 0x80 # concat (map ber_bytes bs) @ [0, 0]"

fun ber_ok :: "ber \<Rightarrow> bool" where
  "ber_ok (Definite d val) \<longleftrightarrow>
     d AND 0x1F \<noteq> 0x1F \<and> \<not> (d AND 0xC0 = 0 \<and> uint (d AND 0x1F) = 0) \<and> length val < 2 ^ 31"
| "ber_ok (Indefinite d bs) \<longleftrightarrow> d AND 0x1F \<noteq> 0x1F \<and> (\<forall>b \<in> set bs. ber_ok b)"

fun ber_rounds :: "ber \<Rightarrow> nat" where
  "ber_rounds (Definite d val) = 1"
| "ber_rounds (Indefinite d bs) = 2 + sum_list (map ber_rounds bs)"

lemma skip_loop_definite:
  assumes "ber_ok (Definite d val)" "0 < nest"
  shows "\<exists>ti. skip_loop (Suc fuel) (reading pre (ber_bytes (Definite d val) @ xs) post) nest old =
    skip_loop fuel (reading (pre @ ber_bytes (Definite d val)) xs post) nest ti"
proof -
  have "int (length val) < 2 ^ 31" using assms(1) by simp
  then obtain hdr where hdr: "asn1_make_length [] (int (length val)) = (hdr @ [], int (length hdr))"
    "\<And>pre xs post. asn1_get_length (reading pre (hdr @ xs) post) = Done ((int (length val), False), reading (pre @ hdr) xs post)"
    using make_length_get_length [of "int (length val)" "[]"] by auto
  have "asn1_get_tag_indef (reading pre (d # hdr @ val @ xs) post) =
      Done (Some \<lparr>ti_class = d AND 0xC0, ti_construction = d AND 0x20, ti_tagnum = uint (d AND 0x1F),
        ti_len = int (length val), ti_indef = False\<rparr>, reading (pre @ d # hdr) (val @ xs) post)"
    using assms(1) hdr(2) [of "pre @ [d]" "val @ xs" post] by (simp add: asn1_get_tag_indef_def get_id_octet)
  moreover have "skip_contents (reading (pre @ d # hdr) (val @ xs) post) (int (length val)) False =
      Done (reading (pre @ d # hdr @ val) xs post)"
    using skip_contents_reading [of "pre @ d # hdr" val xs post] by simp
  ultimately show ?thesis using hdr(1) assms by (auto simp: skip_round_def asn1_is_eoc_def UNIVERSAL_def Let_def)
qed

lemma skip_loop_eoc:
  assumes "0 < nest"
  shows "\<exists>ti. skip_loop (Suc fuel) (reading pre (0 # 0 # xs) post) nest old =
    skip_loop fuel (reading (pre @ [0, 0]) xs post) (nest - 1) ti"
proof -
  have "asn1_get_tag_indef (reading pre (0 # 0 # xs) post) =
      Done (Some \<lparr>ti_class = 0, ti_construction = 0, ti_tagnum = 0, ti_len = 0, ti_indef = False\<rparr>,
        reading (pre @ [0, 0]) xs post)"
    by (simp add: asn1_get_tag_indef_def get_id_octet get_length_short)
  then show ?thesis using assms skip_contents_reading [of "pre @ [0, 0]" "[]" xs post]
    by (simp add: skip_round_def asn1_is_eoc_def UNIVERSAL_def Let_def) blast
qed

text \<open>The loop passes over one element, and over a row of them, in the rounds counted.\<close>

definition skips :: "ber list \<Rightarrow> bool" where
  "skips bs \<longleftrightarrow> (\<forall>fuel pre xs post nest old.
     0 < nest \<and> nest + int (length (concat (map ber_bytes bs))) < 2 ^ 31 \<longrightarrow>
     (\<exists>ti. skip_loop (sum_list (map ber_rounds bs) + fuel) (reading pre (concat (map ber_bytes bs) @ xs) post) nest old =
       skip_loop fuel (reading (pre @ concat (map ber_bytes bs)) xs post) nest ti))"

lemma skipsD:
  assumes "skips bs" "0 < nest" "nest + int (length (concat (map ber_bytes bs))) < 2 ^ 31"
  shows "\<exists>ti. skip_loop (sum_list (map ber_rounds bs) + fuel) (reading pre (concat (map ber_bytes bs) @ xs) post) nest old =
    skip_loop fuel (reading (pre @ concat (map ber_bytes bs)) xs post) nest ti"
  using assms unfolding skips_def by blast

lemma skips_row: "(\<And>b. b \<in> set bs \<Longrightarrow> skips [b]) \<Longrightarrow> skips bs"
proof (induction bs)
  case (Cons b bs)
  then have "skips [b]" "skips bs" by simp_all
  show ?case unfolding skips_def
  proof (intro allI impI)
    fix fuel pre xs post old and nest :: int
    assume n: "0 < nest \<and> nest + int (length (concat (map ber_bytes (b # bs)))) < 2 ^ 31"
    let ?bs = "concat (map ber_bytes bs)"
    obtain t1 where 1: "skip_loop (ber_rounds b + (sum_list (map ber_rounds bs) + fuel))
        (reading pre (ber_bytes b @ ?bs @ xs) post) nest old =
      skip_loop (sum_list (map ber_rounds bs) + fuel) (reading (pre @ ber_bytes b) (?bs @ xs) post) nest t1"
      using skipsD [OF \<open>skips [b]\<close>, of nest "sum_list (map ber_rounds bs) + fuel" pre "?bs @ xs" post old] n by auto
    obtain t2 where 2: "skip_loop (sum_list (map ber_rounds bs) + fuel) (reading (pre @ ber_bytes b) (?bs @ xs) post) nest t1 =
        skip_loop fuel (reading ((pre @ ber_bytes b) @ ?bs) xs post) nest t2"
      using skipsD [OF \<open>skips bs\<close>, of nest fuel "pre @ ber_bytes b" xs post t1] n by auto
    show "\<exists>ti. skip_loop (sum_list (map ber_rounds (b # bs)) + fuel)
        (reading pre (concat (map ber_bytes (b # bs)) @ xs) post) nest old =
      skip_loop fuel (reading (pre @ concat (map ber_bytes (b # bs))) xs post) nest ti"
      using 1 2 by (auto simp: add.assoc)
  qed
qed (auto simp: skips_def)

lemma skips_ber: "ber_ok b \<Longrightarrow> skips [b]"
proof (induction b)
  case (Definite d val)
  then show ?case unfolding skips_def
    using skip_loop_definite [OF Definite.prems] by (auto simp del: ber_bytes.simps ber_ok.simps)
next
  case (Indefinite d bs)
  then have row: "skips bs" and d: "d AND 0x1F \<noteq> 0x1F" by (auto intro: skips_row)
  show ?case unfolding skips_def
  proof (intro allI impI)
    fix fuel pre xs post old and nest :: int
    let ?bs = "concat (map ber_bytes bs)"
    assume n: "0 < nest \<and> nest + int (length (concat (map ber_bytes [Indefinite d bs]))) < 2 ^ 31"
    obtain t1 where 1: "skip_loop (Suc (sum_list (map ber_rounds bs) + Suc fuel)) (reading pre (d # 0x80 # ?bs @ 0 # 0 # xs) post) nest old =
        skip_loop (sum_list (map ber_rounds bs) + Suc fuel) (reading (pre @ [d, 0x80]) (?bs @ 0 # 0 # xs) post) (nest + 1) t1"
      using skip_loop_indefinite [OF d, of nest "sum_list (map ber_rounds bs) + Suc fuel" pre "?bs @ 0 # 0 # xs" post old] n by auto
    obtain t2 where 2: "skip_loop (sum_list (map ber_rounds bs) + Suc fuel) (reading (pre @ [d, 0x80]) (?bs @ 0 # 0 # xs) post) (nest + 1) t1 =
        skip_loop (Suc fuel) (reading ((pre @ [d, 0x80]) @ ?bs) (0 # 0 # xs) post) (nest + 1) t2"
      using skipsD [OF row, of "nest + 1" "Suc fuel" "pre @ [d, 0x80]" "0 # 0 # xs" post t1] n by auto
    obtain t3 where 3: "skip_loop (Suc fuel) (reading ((pre @ [d, 0x80]) @ ?bs) (0 # 0 # xs) post) (nest + 1) t2 =
        skip_loop fuel (reading (((pre @ [d, 0x80]) @ ?bs) @ [0, 0]) xs post) (nest + 1 - 1) t3"
      using skip_loop_eoc [of "nest + 1" fuel "(pre @ [d, 0x80]) @ ?bs" xs post t2] n by auto
    have "sum_list (map ber_rounds [Indefinite d bs]) + fuel = Suc (sum_list (map ber_rounds bs) + Suc fuel)" by simp
    then show "\<exists>ti. skip_loop (sum_list (map ber_rounds [Indefinite d bs]) + fuel)
        (reading pre (concat (map ber_bytes [Indefinite d bs]) @ xs) post) nest old =
      skip_loop fuel (reading (pre @ concat (map ber_bytes [Indefinite d bs])) xs post) nest ti"
      using 1 2 3 by (auto simp del: skip_loop.simps)
  qed
qed

text \<open>A row of complete elements and the two octets 0 behind it take the loop up by one level.\<close>

lemma skip_loop_closed:
  assumes "\<forall>b \<in> set bs. ber_ok b" "0 < nest" "nest + int (length (concat (map ber_bytes bs))) < 2 ^ 31"
  shows "\<exists>ti. skip_loop (sum_list (map ber_rounds bs) + Suc k) (reading pre (concat (map ber_bytes bs) @ 0 # 0 # xs) post) nest old =
    skip_loop k (reading (pre @ concat (map ber_bytes bs) @ [0, 0]) xs post) (nest - 1) ti"
proof -
  let ?bs = "concat (map ber_bytes bs)"
  have "skips bs" by (rule skips_row) (simp add: assms(1) skips_ber)
  then obtain t1 where 1: "skip_loop (sum_list (map ber_rounds bs) + Suc k) (reading pre (?bs @ 0 # 0 # xs) post) nest old =
      skip_loop (Suc k) (reading (pre @ ?bs) (0 # 0 # xs) post) nest t1"
    using skipsD [OF _ assms(2,3), of "Suc k" pre "0 # 0 # xs" post old] by blast
  obtain t2 where "skip_loop (Suc k) (reading (pre @ ?bs) (0 # 0 # xs) post) nest t1 =
      skip_loop k (reading ((pre @ ?bs) @ [0, 0]) xs post) (nest - 1) t2"
    using skip_loop_eoc [OF assms(2), of k "pre @ ?bs" xs post t1] by blast
  with 1 show ?thesis by (auto simp del: skip_loop.simps)
qed

lemma skip_loop_ended: "skip_loop k buf 0 ti = Some (Done buf)"
  by (cases k) simp_all

text \<open>
  C23. On a complete message \<open>asn1buf_skiptail\<close> returns.  Called in an element of definite length,
  it passes over the rest of it and the elements that follow, nested ones of indefinite length
  included, and stops behind the two octets 0 that close the enclosing one.  Called in an element
  of indefinite length, it passes over the elements left in that one, the two octets 0 that close
  it, the elements that follow, and again stops behind the two octets 0 of the enclosing one.
\<close>

theorem skiptail_finds_end:
  assumes "\<forall>b \<in> set es. ber_ok b" "\<forall>b \<in> set bs. ber_ok b"
    and "length (concat (map ber_bytes es)) < 2 ^ 31 - 2" "length (concat (map ber_bytes bs)) < 2 ^ 31 - 1"
  shows "(sum_list (map ber_rounds bs) < fuel \<longrightarrow>
      asn1buf_skiptail fuel stack (reading pre (val @ concat (map ber_bytes bs) @ [0, 0] @ xs) post) (int (length val)) False =
      Some (Done (reading (pre @ val @ concat (map ber_bytes bs) @ [0, 0]) xs post))) \<and>
    (sum_list (map ber_rounds es) + sum_list (map ber_rounds bs) + 1 < fuel \<longrightarrow>
      asn1buf_skiptail fuel stack
        (reading pre (concat (map ber_bytes es) @ [0, 0] @ concat (map ber_bytes bs) @ [0, 0] @ xs) post) len True =
      Some (Done (reading (pre @ concat (map ber_bytes es) @ [0, 0] @ concat (map ber_bytes bs) @ [0, 0]) xs post)))"
proof (intro conjI impI)
  let ?bs = "concat (map ber_bytes bs)" and ?es = "concat (map ber_bytes es)"
  assume "sum_list (map ber_rounds bs) < fuel"
  then obtain k where k: "fuel = sum_list (map ber_rounds bs) + Suc k" by (metis less_iff_Suc_add add_Suc_right)
  show "asn1buf_skiptail fuel stack (reading pre (val @ ?bs @ [0, 0] @ xs) post) (int (length val)) False =
      Some (Done (reading (pre @ val @ ?bs @ [0, 0]) xs post))"
    using skip_loop_closed [OF assms(2), of 1 k "pre @ val" xs post stack] assms(4)
    unfolding k by (auto simp: asn1buf_skiptail_def skip_loop_ended simp del: skip_loop.simps)
next
  let ?bs = "concat (map ber_bytes bs)" and ?es = "concat (map ber_bytes es)"
  assume "sum_list (map ber_rounds es) + sum_list (map ber_rounds bs) + 1 < fuel"
  then obtain k where k: "fuel = sum_list (map ber_rounds es) + Suc (sum_list (map ber_rounds bs) + Suc k)"
    by (auto dest!: less_imp_Suc_add)
  show "asn1buf_skiptail fuel stack (reading pre (?es @ [0, 0] @ ?bs @ [0, 0] @ xs) post) len True =
      Some (Done (reading (pre @ ?es @ [0, 0] @ ?bs @ [0, 0]) xs post))"
    using skip_loop_closed [OF assms(1), of 2 "sum_list (map ber_rounds bs) + Suc k" pre "?bs @ 0 # 0 # xs" post stack]
      skip_loop_closed [OF assms(2), of 1 k "pre @ ?es @ [0, 0]" xs post] assms(3,4)
    unfolding k by (fastforce simp: asn1buf_skiptail_def skip_contents_def skip_loop_ended simp del: skip_loop.simps)
qed

theorem skiptail_finds_end_witness:
  "asn1buf_skiptail 10 \<lparr>ti_class = 0, ti_construction = 0, ti_tagnum = 0, ti_len = 0, ti_indef = False\<rparr>
     (reading [0x30, 0x80] ([1, 2] @ concat (map ber_bytes [Indefinite 0x30 [Definite 0x02 [5]]]) @ [0, 0] @ [9]) [])
     (int (length [1, 2 :: octet])) False =
   Some (Done (reading ([0x30, 0x80] @ [1, 2] @ concat (map ber_bytes [Indefinite 0x30 [Definite 0x02 [5]]]) @ [0, 0]) [9] [])) \<and>
   asn1buf_skiptail 10 \<lparr>ti_class = 0, ti_construction = 0, ti_tagnum = 0, ti_len = 0, ti_indef = False\<rparr>
     (reading [0x30, 0x80, 0xA0, 0x80] (concat (map ber_bytes [Definite 0x02 [7]]) @ [0, 0] @
        concat (map ber_bytes [Indefinite 0x30 [Definite 0x02 [5]]]) @ [0, 0] @ [9]) []) 0 True =
   Some (Done (reading ([0x30, 0x80, 0xA0, 0x80] @ concat (map ber_bytes [Definite 0x02 [7]]) @ [0, 0] @
        concat (map ber_bytes [Indefinite 0x30 [Definite 0x02 [5]]]) @ [0, 0]) [9] []))"
proof -
  let ?es = "[Definite 0x02 [7]]" and ?bs = "[Indefinite 0x30 [Definite 0x02 [5]]]"
  have ok: "\<forall>b \<in> set ?es. ber_ok b" "\<forall>b \<in> set ?bs. ber_ok b" by simp_all
  have len: "length (concat (map ber_bytes ?es)) < 2 ^ 31 - 2" "length (concat (map ber_bytes ?bs)) < 2 ^ 31 - 1"
    by (simp_all add: asn1_make_length_def asn1buf_insert_octet_def)
  have rounds: "sum_list (map ber_rounds ?es) = 1" "sum_list (map ber_rounds ?bs) = 3" by simp_all
  show ?thesis
    using skiptail_finds_end [OF ok len, of 10 _ "[0x30, 0x80]" "[1, 2]" "[9]" "[]"]
      skiptail_finds_end [OF ok len, of 10 _ "[0x30, 0x80, 0xA0, 0x80]" "[]" "[9]" "[]" 0]
    unfolding rounds by simp
qed

text \<open>
  \<open>asn1buf_sync\<close> throws away what the skipping has found: behind a sequence of indefinite length
  with fields left over the outer buffer still stands at the start of the sequence.
\<close>

lemma sync_keeps_position:
  assumes "\<not> asn1_is_eoc c t indef" "asn1buf_sync fuel stack buf subbuf c t len indef True = Some (Done buf')"
  shows "buf' = buf"
  using assms by (auto simp: asn1buf_sync_def bindF_eq_Done)

end
