(* ===== verification/Krb5_Asn1_Time.thy ===== *)
theory Krb5_Asn1_Time
  imports Krb5_Asn1
begin

text \<open>
  Times in messages: \<open>asn1_encode_generaltime\<close> and \<open>asn1_decode_generaltime\<close> of \<open>lib/krb5/asn.1\<close>, and
  \<open>gmt_mktime\<close> of \<open>lib/krb5/os/gmt_mktime.c\<close>.  \<open>gmtime\<close> and \<open>sprintf\<close> are those of the C library, with
  the calendar of the Gregorian rules.  \<open>time_t\<close> has 64 bits.
\<close>

section \<open>Broken-down times\<close>

record tm =
  tm_year :: int
  tm_mon :: int
  tm_mday :: int
  tm_hour :: int
  tm_min :: int
  tm_sec :: int

definition hasleapday :: "int \<Rightarrow> bool" where
  "hasleapday year =
     (if year mod 400 \<noteq> 0 then (if year mod 100 \<noteq> 0 then (if year mod 4 \<noteq> 0 then False else True) else False) else True)"

definition days_in_month :: "int list" where
  "days_in_month = [0, 31, 59, 90, 120, 151, 181, 212, 243, 273, 304, 334]"

definition tm_in_range :: "tm \<Rightarrow> bool" where
  "tm_in_range t \<longleftrightarrow> 70 \<le> tm_year t \<and> tm_year t \<le> 138 \<and> 0 \<le> tm_mon t \<and> tm_mon t \<le> 11 \<and>
     1 \<le> tm_mday t \<and> tm_mday t \<le> 31 \<and> 0 \<le> tm_hour t \<and> tm_hour t \<le> 23 \<and>
     0 \<le> tm_min t \<and> tm_min t \<le> 59 \<and> 0 \<le> tm_sec t \<and> tm_sec t \<le> 62"

definition gmt_mktime :: "tm \<Rightarrow> int" where
  "gmt_mktime t =
     (if \<not> tm_in_range t then -1
      else
        let accum = (tm_year t - 70) * 365;
            accum = accum + (tm_year t - 69) div 4;
            accum = (if tm_mon t \<ge> 2 \<and> hasleapday (tm_year t + 1900) then accum + 1 else accum);
            accum = accum + days_in_month ! nat (tm_mon t);
            accum = accum + (tm_mday t - 1);
            accum = accum * 24 + tm_hour t;
            accum = accum * 60 + tm_min t
        in accum * 60 + tm_sec t)"

text \<open>The library function \<open>gmtime\<close>: the year of a day counted from the start of \<open>y\<close>, then its month.\<close>

definition year_length :: "int \<Rightarrow> int" where
  "year_length y = (if hasleapday y then 366 else 365)"

lemma year_length_bounds: "365 \<le> year_length y" "year_length y \<le> 366"
  by (simp_all add: year_length_def)

function year_of :: "int \<Rightarrow> int \<Rightarrow> int \<times> int" where
  "year_of d y =
     (if d < 0 then year_of (d + year_length (y - 1)) (y - 1)
      else if year_length y \<le> d then year_of (d - year_length y) (y + 1)
      else (y, d))"
  by pat_completeness auto
termination
proof (relation "measure (\<lambda>(d, y). nat (if d < 0 then 400 - d else d))", goal_cases)
  case (2 d y)
  then show ?case using year_length_bounds [of "y - 1"] by auto
next
  case (3 d y)
  then show ?case using year_length_bounds [of y] by auto
qed simp

declare year_of.simps [simp del]

definition month_lengths :: "int \<Rightarrow> int list" where
  "month_lengths y = [31, if hasleapday y then 29 else 28, 31, 30, 31, 30, 31, 31, 30, 31, 30, 31]"

fun month_of :: "int list \<Rightarrow> int \<Rightarrow> int \<times> int" where
  "month_of [] d = (0, d)"
| "month_of (m # ms) d = (if d < m then (0, d) else case month_of ms (d - m) of (k, e) \<Rightarrow> (k + 1, e))"

text \<open>A year that an \<open>int\<close> does not hold is the result NULL.\<close>

definition gmtime :: "int \<Rightarrow> tm option" where
  "gmtime t =
     (case year_of (t div 86400) 1970 of
        (y, d) \<Rightarrow>
          (case month_of (month_lengths y) d of
             (mon, e) \<Rightarrow>
               if is_i32 (y - 1900)
               then Some \<lparr>tm_year = y - 1900, tm_mon = mon, tm_mday = e + 1, tm_hour = t mod 86400 div 3600,
                 tm_min = t mod 3600 div 60, tm_sec = t mod 60\<rparr>
               else None))"

section \<open>The coders\<close>

definition ASN1_BAD_TIMEFORMAT where [krb5_errs]: "ASN1_BAD_TIMEFORMAT = ERROR_TABLE_BASE_asn1"
definition ASN1_BAD_FORMAT where [krb5_errs]: "ASN1_BAD_FORMAT = ERROR_TABLE_BASE_asn1 + 8"
definition ASN1_BAD_GMTIME where [krb5_errs]: "ASN1_BAD_GMTIME = ERROR_TABLE_BASE_asn1 + 10"
definition ASN1_GENERALTIME :: int where "ASN1_GENERALTIME = 24"

definition digit :: "int \<Rightarrow> octet" where
  "digit n = word_of_int (48 + n)"

definition octet_Z :: octet where "octet_Z = 0x5A"

text \<open>\<open>%02d\<close> of a number from 0 to 99, and \<open>%04d\<close> of a number from -999 to 9999.\<close>

definition print2 :: "int \<Rightarrow> octet list" where
  "print2 n = [digit (n div 10), digit (n mod 10)]"

definition print4 :: "int \<Rightarrow> octet list" where
  "print4 n =
     (if n < 0 then 0x2D # digit (- n div 100) # print2 (- n mod 100)
      else print2 (n div 100) @ print2 (n mod 100))"

text \<open>A year before -999 takes more room than the 16 octets of \<open>s\<close>.\<close>

definition asn1_encode_generaltime :: "encoding \<Rightarrow> int \<Rightarrow> (encoding \<times> int) c_outcome" where
  "asn1_encode_generaltime buf val =
     (case gmtime val of
        None \<Rightarrow> Error ASN1_BAD_GMTIME
      | Some gtime \<Rightarrow>
          if tm_year gtime > 8099 \<or> tm_mon gtime > 11 \<or> tm_mday gtime > 31 \<or> tm_hour gtime > 23 \<or>
             tm_min gtime > 59 \<or> tm_sec gtime > 59 then Error ASN1_BAD_GMTIME
          else if 1900 + tm_year gtime < -999 then Out_of_bounds
          else
            let s = print4 (1900 + tm_year gtime) @ print2 (tm_mon gtime + 1) @ print2 (tm_mday gtime) @
                  print2 (tm_hour gtime) @ print2 (tm_min gtime) @ print2 (tm_sec gtime) @ [octet_Z] in
            case encode_string ASN1_GENERALTIME buf s of Inl e \<Rightarrow> Error e | Inr r \<Rightarrow> Done r)"

definition c2i :: "octet \<Rightarrow> int" where
  "c2i c = sint c - 48"

definition parse_time :: "octet list \<Rightarrow> tm" where
  "parse_time s =
     \<lparr>tm_year = 1000 * c2i (s ! 0) + 100 * c2i (s ! 1) + 10 * c2i (s ! 2) + c2i (s ! 3) - 1900,
       tm_mon = 10 * c2i (s ! 4) + c2i (s ! 5) - 1,
       tm_mday = 10 * c2i (s ! 6) + c2i (s ! 7),
       tm_hour = 10 * c2i (s ! 8) + c2i (s ! 9),
       tm_min = 10 * c2i (s ! 10) + c2i (s ! 11),
       tm_sec = 10 * c2i (s ! 12) + c2i (s ! 13)\<rparr>"

text \<open>
  The result of \<open>asn1buf_remove_charstring\<close> is not looked at: when it fails, \<open>s\<close> is uninitialized and
  is read through.
\<close>

definition asn1_decode_generaltime :: "asn1buf \<Rightarrow> (int \<times> asn1buf) c_outcome" where
  "asn1_decode_generaltime buf =
     bindO (primitive_tag ASN1_GENERALTIME buf) (\<lambda>(len, buf).
       if len \<noteq> 15 then Error ASN1_BAD_LENGTH
       else
         case asn1buf_remove_octetstring buf 15 of
           Done (s, buf) \<Rightarrow>
             if s ! 14 \<noteq> octet_Z then Error ASN1_BAD_FORMAT
             else
               let t = gmt_mktime (parse_time s) in
               if t = -1 then Error ASN1_BAD_TIMEFORMAT else Done (t, buf)
         | _ \<Rightarrow> Out_of_bounds)"

section \<open>The calendar\<close>

text \<open>The day on which a year starts, in the formula of \<open>gmt_mktime\<close>.\<close>

definition year_start :: "int \<Rightarrow> int" where
  "year_start y = (y - 1970) * 365 + (y - 1969) div 4"

lemma year_start_Suc: "1901 \<le> y \<Longrightarrow> y < 2100 \<Longrightarrow> year_start (y + 1) = year_start y + year_length y"
proof -
  have *: "list_all (\<lambda>y. year_start (y + 1) = year_start y + year_length y) [1901..2099]" by code_simp
  assume "1901 \<le> y" "y < 2100"
  then have "y \<in> set [1901..2099]" unfolding set_upto by simp
  then show ?thesis using * by (simp only: list_all_iff)
qed

lemma year_start_mono: "y \<le> z \<Longrightarrow> year_start y \<le> year_start z"
  by (simp add: year_start_def add_mono zdiv_mono1)

lemma year_of_correct:
  assumes "1901 \<le> y" "y \<le> 2100" "year_start 1901 \<le> year_start y + d" "year_start y + d < year_start 2100"
    and "year_of d y = (y', d')"
  shows "year_start y' + d' = year_start y + d \<and> 0 \<le> d' \<and> d' < year_length y' \<and> 1901 \<le> y' \<and> y' < 2100"
  using assms
proof (induction d y rule: year_of.induct)
  case (1 d y)
  consider "d < 0" | "0 \<le> d" "year_length y \<le> d" | "0 \<le> d" "d < year_length y" by linarith
  then show ?case
  proof cases
    assume "d < 0"
    moreover from this have "1901 < y" using "1.prems"(1,3) by (cases "y = 1901") auto
    moreover have "year_start y = year_start (y - 1) + year_length (y - 1)"
      using year_start_Suc [of "y - 1"] \<open>1901 < y\<close> "1.prems"(2) by simp
    ultimately show ?thesis using 1 by (simp add: year_of.simps [of d y])
  next
    assume d: "0 \<le> d" "year_length y \<le> d"
    then have "y < 2100" using "1.prems"(2,4) by (cases "y = 2100") auto
    then have "year_start (y + 1) = year_start y + year_length y" using year_start_Suc "1.prems"(1) by simp
    then show ?thesis using 1 d \<open>y < 2100\<close> by (simp add: year_of.simps [of d y])
  next
    assume d: "0 \<le> d" "d < year_length y"
    then have "y < 2100" using "1.prems"(2,4) by (cases "y = 2100") auto
    then show ?thesis using "1.prems" d by (simp add: year_of.simps [of d y])
  qed
qed

lemma month_of_correct:
  assumes "0 \<le> d" "d < year_length y" "month_of (month_lengths y) d = (m, e)"
  shows "0 \<le> m \<and> m \<le> 11 \<and> 0 \<le> e \<and> e \<le> 30 \<and>
    days_in_month ! nat m + (if m \<ge> 2 \<and> hasleapday y then 1 else 0) + e = d"
  using assms by (auto simp: month_lengths_def days_in_month_def year_length_def split: if_splits)

text \<open>\<open>gmt_mktime\<close> inverts \<open>gmtime\<close> from 1970 to 2038, and refuses earlier times.\<close>

definition tm_text :: "tm \<Rightarrow> octet list" where
  "tm_text g = print4 (1900 + tm_year g) @ print2 (tm_mon g + 1) @ print2 (tm_mday g) @
     print2 (tm_hour g) @ print2 (tm_min g) @ print2 (tm_sec g) @ [octet_Z]"

lemma mod_mult_div: "0 < b \<Longrightarrow> 0 \<le> c \<Longrightarrow> (t :: int) mod (b * c) div b = t div b mod c"
  by (simp add: zmod_zmult2_eq)

lemma clock_mod: "(t :: int) mod 86400 div 3600 = t div 3600 mod 24" "t mod 3600 div 60 = t div 60 mod 60"
  "t div 86400 = t div 3600 div 24" "t div 3600 = t div 60 div 60"
proof -
  have n: "(86400 :: int) = 3600 * 24" "(3600 :: int) = 60 * 60" by simp_all
  show "t mod 86400 div 3600 = t div 3600 mod 24" unfolding n(1) by (rule mod_mult_div) simp_all
  show "t mod 3600 div 60 = t div 60 mod 60" unfolding n(2) by (rule mod_mult_div) simp_all
  show "t div 86400 = t div 3600 div 24" unfolding n(1) by (rule zdiv_zmult2_eq) simp
  show "t div 3600 = t div 60 div 60" unfolding n(2) by (rule zdiv_zmult2_eq) simp
qed

lemma clock_split:
  "(((t :: int) div 86400 * 24 + t mod 86400 div 3600) * 60 + t mod 3600 div 60) * 60 + t mod 60 = t"
  by (simp only: clock_mod(1,2,3) div_mult_mod_eq) (simp only: clock_mod(4) div_mult_mod_eq)

lemma clock_bounds: "0 \<le> (t :: int) mod 86400 div 3600" "t mod 86400 div 3600 \<le> 23" "0 \<le> t mod 3600 div 60"
  "t mod 3600 div 60 \<le> 59" "0 \<le> t mod 60" "t mod 60 \<le> 59"
  using pos_mod_bound [of 24 "t div 3600"] pos_mod_bound [of 60 "t div 60"] pos_mod_bound [of 60 t]
  unfolding clock_mod(1,2) by simp_all

lemma gmtime_correct:
  assumes "- (2 ^ 31) \<le> t" "t < 2 ^ 31"
  shows "\<exists>g. gmtime t = Some g \<and> 1 \<le> tm_year g \<and> tm_year g \<le> 138 \<and> 0 \<le> tm_mon g \<and> tm_mon g \<le> 11 \<and>
    1 \<le> tm_mday g \<and> tm_mday g \<le> 31 \<and> 0 \<le> tm_hour g \<and> tm_hour g \<le> 23 \<and> 0 \<le> tm_min g \<and> tm_min g \<le> 59 \<and>
    0 \<le> tm_sec g \<and> tm_sec g \<le> 59 \<and> (0 \<le> t \<longleftrightarrow> 70 \<le> tm_year g) \<and> (0 \<le> t \<longrightarrow> gmt_mktime g = t)"
proof -
  obtain y d where yd: "year_of (t div 86400) 1970 = (y, d)" by fastforce
  obtain m e where me: "month_of (month_lengths y) d = (m, e)" by fastforce
  have r: "- 24856 \<le> t div 86400" "t div 86400 \<le> 24855" using assms by auto
  have y: "year_start y + d = t div 86400" "0 \<le> d" "d < year_length y" "1901 \<le> y" "y < 2100"
    using year_of_correct [OF _ _ _ _ yd] r by (auto simp: year_start_def)
  have m: "0 \<le> m" "m \<le> 11" "0 \<le> e" "e \<le> 30"
    "days_in_month ! nat m + (if m \<ge> 2 \<and> hasleapday y then 1 else 0) + e = d"
    using month_of_correct [OF y(2,3) me] by blast+
  have "year_start (y + 1) = year_start y + year_length y" using year_start_Suc y(4,5) by simp
  then have past: "1970 \<le> y" if "0 \<le> t"
    using that y(1,3) year_start_mono [of "y + 1" 1970] by (cases "y \<le> 1969") (auto simp: year_start_def [of 1970])
  have future: "0 \<le> t" if "1970 \<le> y"
    using that y(1,2) year_start_mono [of 1970 y] by (simp add: year_start_def [of 1970])
  have upper: "y \<le> 2038"
    using y(1,2) r(2) year_start_mono [of 2039 y] by (cases "2039 \<le> y") (auto simp: year_start_def)
  obtain H M S where H: "H = t mod 86400 div 3600" and M: "M = t mod 3600 div 60" and S: "S = t mod 60" by blast
  note h = clock_bounds [of t, folded H M S]
  let ?g = "\<lparr>tm_year = y - 1900, tm_mon = m, tm_mday = e + 1, tm_hour = H, tm_min = M, tm_sec = S\<rparr>"
  have g: "gmtime t = Some ?g" using yd me y(4,5) by (simp add: gmtime_def is_i32_def H M S)
  have "gmt_mktime ?g = t" if "0 \<le> t"
  proof -
    have "tm_in_range ?g" using past [OF that] upper m h by (simp add: tm_in_range_def)
    then have "gmt_mktime ?g = (((year_start y + d) * 24 + H) * 60 + M) * 60 + S"
      unfolding m(5) [symmetric] by (simp add: gmt_mktime_def Let_def year_start_def)
    also have "\<dots> = t" unfolding y(1) H M S by (rule clock_split)
    finally show ?thesis .
  qed
  then show ?thesis using g y(4) m h past future upper by (intro exI [of _ ?g]) auto
qed

lemma c2i_digit: "0 \<le> n \<Longrightarrow> n < 10 \<Longrightarrow> c2i (digit n) = n"
proof -
  have *: "list_all (\<lambda>n. c2i (digit n) = n) [0..9]" by code_simp
  assume "0 \<le> n" "n < 10"
  then have "n \<in> set [0..9]" by simp
  then show ?thesis using * by (simp only: list_all_iff)
qed

lemma c2i_print2: "0 \<le> n \<Longrightarrow> n < 100 \<Longrightarrow> 10 * c2i (digit (n div 10)) + c2i (digit (n mod 10)) = n"
  by (simp add: c2i_digit)

lemma c2i_print4:
  assumes "0 \<le> n" "n < 10000"
  shows "1000 * c2i (digit (n div 100 div 10)) + 100 * c2i (digit (n div 100 mod 10)) +
    10 * c2i (digit (n mod 100 div 10)) + c2i (digit (n mod 100 mod 10)) = n"
proof -
  have split4: "1000 * a + 100 * b + 10 * c + d = (10 * a + b) * 100 + (10 * c + d)" for a b c d :: int by simp
  have "0 \<le> n div 100" "n div 100 < 100" using assms by linarith+
  then show ?thesis unfolding split4 by (simp only: c2i_print2 pos_mod_sign pos_mod_bound zero_less_numeral div_mult_mod_eq)
qed

lemma parse_time_row:
  "parse_time [y1, y2, y3, y4, m1, m2, d1, d2, h1, h2, n1, n2, s1, s2, z] =
    \<lparr>tm_year = 1000 * c2i y1 + 100 * c2i y2 + 10 * c2i y3 + c2i y4 - 1900, tm_mon = 10 * c2i m1 + c2i m2 - 1,
      tm_mday = 10 * c2i d1 + c2i d2, tm_hour = 10 * c2i h1 + c2i h2, tm_min = 10 * c2i n1 + c2i n2,
      tm_sec = 10 * c2i s1 + c2i s2\<rparr>"
  by (simp add: parse_time_def)

lemma parse_tm_text:
  assumes "0 \<le> 1900 + tm_year g" "tm_year g \<le> 8099" "0 \<le> tm_mon g" "tm_mon g \<le> 11" "0 \<le> tm_mday g" "tm_mday g \<le> 31"
    "0 \<le> tm_hour g" "tm_hour g \<le> 23" "0 \<le> tm_min g" "tm_min g \<le> 59" "0 \<le> tm_sec g" "tm_sec g \<le> 59"
  shows "parse_time (tm_text g) = (g :: tm)"
proof -
  have row: "tm_text g = [digit ((1900 + tm_year g) div 100 div 10), digit ((1900 + tm_year g) div 100 mod 10),
      digit ((1900 + tm_year g) mod 100 div 10), digit ((1900 + tm_year g) mod 100 mod 10),
      digit ((tm_mon g + 1) div 10), digit ((tm_mon g + 1) mod 10), digit (tm_mday g div 10), digit (tm_mday g mod 10),
      digit (tm_hour g div 10), digit (tm_hour g mod 10), digit (tm_min g div 10), digit (tm_min g mod 10),
      digit (tm_sec g div 10), digit (tm_sec g mod 10), octet_Z]"
    using assms(1) by (simp only: tm_text_def print4_def print2_def append.simps if_not_P not_less)
  have two: "10 * c2i (digit (n div 10)) + c2i (digit (n mod 10)) = n" if "0 \<le> n" "n \<le> 59" for n
    using that by (intro c2i_print2) linarith+
  have fields: "10 * c2i (digit ((tm_mon g + 1) div 10)) + c2i (digit ((tm_mon g + 1) mod 10)) = tm_mon g + 1"
    "10 * c2i (digit (tm_mday g div 10)) + c2i (digit (tm_mday g mod 10)) = tm_mday g"
    "10 * c2i (digit (tm_hour g div 10)) + c2i (digit (tm_hour g mod 10)) = tm_hour g"
    "10 * c2i (digit (tm_min g div 10)) + c2i (digit (tm_min g mod 10)) = tm_min g"
    "10 * c2i (digit (tm_sec g div 10)) + c2i (digit (tm_sec g mod 10)) = tm_sec g"
    using assms by (intro two; linarith)+
  have year: "0 \<le> 1900 + tm_year g" "1900 + tm_year g < 10000" using assms by linarith+
  show ?thesis unfolding row parse_time_row c2i_print4 [OF year] fields by simp
qed

lemma tm_text_length: "length (tm_text g) = 15" "tm_text g ! 14 = octet_Z"
  by (simp_all add: tm_text_def print4_def print2_def)

text \<open>
  C22. A time of a 32-bit clock is written, as \<open>YYYYMMDDhhmmssZ\<close>, and read back as the same time
  when it is not before 1970; a time before 1970 is written as well and refused by the decoder.
\<close>

theorem generaltime_roundtrip:
  assumes "- (2 ^ 31) \<le> t" "t < 2 ^ 31"
  shows "\<exists>enc. asn1_encode_generaltime buf t = Done (enc @ buf, int (length enc)) \<and>
    asn1_decode_generaltime (reading pre (enc @ xs) post) =
      (if 0 \<le> t then Done (t, reading (pre @ enc) xs post) else Error ASN1_BAD_TIMEFORMAT)"
proof -
  obtain g where g: "gmtime t = Some g" "1 \<le> tm_year g" "tm_year g \<le> 138" "0 \<le> tm_mon g" "tm_mon g \<le> 11"
    "1 \<le> tm_mday g" "tm_mday g \<le> 31" "0 \<le> tm_hour g" "tm_hour g \<le> 23" "0 \<le> tm_min g" "tm_min g \<le> 59"
    "0 \<le> tm_sec g" "tm_sec g \<le> 59" "0 \<le> t \<longleftrightarrow> 70 \<le> tm_year g" "0 \<le> t \<longrightarrow> gmt_mktime g = t"
    using gmtime_correct [OF assms] by blast
  let ?s = "tm_text g"
  obtain hdr where hdr: "asn1_make_tag (?s @ buf) UNIVERSAL PRIMITIVE ASN1_GENERALTIME 15 = Inr (hdr @ ?s @ buf, int (length hdr))"
    "\<And>pre xs post. primitive_tag ASN1_GENERALTIME (reading pre (hdr @ xs) post) = Done (15, reading (pre @ hdr) xs post)"
    using make_tag_primitive [of ASN1_GENERALTIME 15 "?s @ buf"] by (auto simp: ASN1_GENERALTIME_def)
  have "encode_string ASN1_GENERALTIME buf ?s = Inr ((hdr @ ?s) @ buf, int (length (hdr @ ?s)))"
    using hdr(1) by (simp add: encode_string_def asn1buf_insert_octetstring_def tm_text_length)
  then have e: "asn1_encode_generaltime buf t = Done ((hdr @ ?s) @ buf, int (length (hdr @ ?s)))"
    using g by (simp add: asn1_encode_generaltime_def Let_def tm_text_def)
  have r: "asn1buf_remove_octetstring (reading (pre @ hdr) (?s @ xs) post) 15 = Done (?s, reading ((pre @ hdr) @ ?s) xs post)"
    using remove_octetstring_reading [of "pre @ hdr" ?s xs post] by (simp add: tm_text_length)
  have p: "parse_time ?s = g" using g by (intro parse_tm_text) auto
  have k: "gmt_mktime g = (if 0 \<le> t then t else -1)" using g by (auto simp: gmt_mktime_def tm_in_range_def)
  have "asn1_decode_generaltime (reading pre ((hdr @ ?s) @ xs) post) =
      (if 0 \<le> t then Done (t, reading (pre @ hdr @ ?s) xs post) else Error ASN1_BAD_TIMEFORMAT)"
    using hdr(2) [of pre "?s @ xs" post] r p k by (simp add: asn1_decode_generaltime_def tm_text_length Let_def)
  with e show ?thesis by blast
qed

theorem generaltime_roundtrip_witness:
  "\<exists>enc. asn1_encode_generaltime [] 1000000000 = Done (enc @ [], int (length enc)) \<and>
    asn1_decode_generaltime (reading [] (enc @ []) []) =
      (if 0 \<le> (1000000000 :: int) then Done (1000000000, reading ([] @ enc) [] []) else Error ASN1_BAD_TIMEFORMAT)"
  by (rule generaltime_roundtrip) simp_all

text \<open>
  C37. A time of which the buffer holds fewer than its 15 octets is not refused: the failed copy is
  overlooked and its result, an uninitialized pointer, is read through.
\<close>

theorem generaltime_cut_short:
  assumes "length xs < 15"
  shows "asn1_decode_generaltime (reading pre (0x18 # 0x0F # xs) post) = Out_of_bounds"
proof -
  have "asn1_get_id (reading pre (0x18 # 0x0F # xs) post) = Done ((0, 0, 24), reading (pre @ [0x18]) (0x0F # xs) post)"
    by (simp add: asn1_get_id_def)
  then have "primitive_tag ASN1_GENERALTIME (reading pre (0x18 # 0x0F # xs) post) = Done (15, reading (pre @ [0x18, 0x0F]) xs post)"
    by (simp add: primitive_tag_def asn1_get_tag_indef_def get_length_short UNIVERSAL_def PRIMITIVE_def ASN1_GENERALTIME_def)
  then show ?thesis using assms
    by (simp add: asn1_decode_generaltime_def asn1buf_remove_octetstring_def reading_def)
qed

theorem generaltime_cut_short_witness:
  "asn1_decode_generaltime (reading [] [0x18, 0x0F, 0x32, 0x30] []) = Out_of_bounds"
  using generaltime_cut_short [of "[0x32, 0x30]" "[]" "[]"] by simp

end
