(* ===== verification/Crypto_Des.thy ===== *)
theory Crypto_Des
  imports Crypto_Tables
begin

text \<open>
  The DES cipher of \<open>lib/crypto/des\<close>: the key schedule (\<open>f_sched.c\<close>, \<open>key_sched.c\<close>, \<open>d3_kysched.c\<close>), key
  parity and weak keys (\<open>f_parity.c\<close>, \<open>weak_key.c\<close>), and the block operations (the macros of \<open>f_tables.h\<close>),
  with the proof that decryption inverts encryption.

  An \<open>unsigned DES_INT32\<close> is a 32-bit word, a key schedule the list of its 32 words, and a block
  the pair of its halves \<open>left\<close> and \<open>right\<close>.
\<close>

unbundle bit_operations_syntax

type_synonym des_word = "32 word"

type_synonym des_block = "des_word \<times> des_word"

section \<open>Parity and weak keys\<close>

definition pstep :: "octet \<Rightarrow> nat \<Rightarrow> octet" where
  "pstep x step = (x AND mask step) XOR (drop_bit step x AND mask step)"

definition parity_char :: "octet \<Rightarrow> octet" where
  "parity_char x = pstep (pstep (pstep x 4) 2) 1"

definition fixup_octet :: "octet \<Rightarrow> octet" where
  "fixup_octet k = (let k = k AND 0xfe in k OR (1 XOR parity_char k))"

definition mit_des_fixup_key_parity :: "octet list \<Rightarrow> octet list" where
  "mit_des_fixup_key_parity key = map fixup_octet key"

definition mit_des_check_key_parity :: "octet list \<Rightarrow> bool" where
  "mit_des_check_key_parity key \<longleftrightarrow> list_all (\<lambda>k. k AND 1 \<noteq> parity_char (0xfe AND k)) key"

definition mit_des_is_weak_key :: "octet list \<Rightarrow> bool" where
  "mit_des_is_weak_key key \<longleftrightarrow> key \<in> set weak"

section \<open>Blocks\<close>

fun GET_HALF_BLOCK :: "octet list \<Rightarrow> des_word" where
  "GET_HALF_BLOCK (a # b # c # d # ip) =
     push_bit 24 (ucast a) OR push_bit 16 (ucast b) OR push_bit 8 (ucast c) OR ucast d"
| "GET_HALF_BLOCK _ = 0"

definition PUT_HALF_BLOCK :: "des_word \<Rightarrow> octet list" where
  "PUT_HALF_BLOCK lr = [ucast (drop_bit 24 lr), ucast (drop_bit 16 lr), ucast (drop_bit 8 lr), ucast lr]"

definition GET_BLOCK :: "octet list \<Rightarrow> des_block" where
  "GET_BLOCK ip = (GET_HALF_BLOCK ip, GET_HALF_BLOCK (drop 4 ip))"

definition PUT_BLOCK :: "des_block \<Rightarrow> octet list" where
  "PUT_BLOCK b = PUT_HALF_BLOCK (fst b) @ PUT_HALF_BLOCK (snd b)"

section \<open>Key schedule\<close>

definition table :: "des_word list \<Rightarrow> des_word \<Rightarrow> des_word" where
  "table t i = t ! unat i"

definition permuted_choice_1 :: "octet list \<Rightarrow> des_block" where
  "permuted_choice_1 key =
     (let tmp = GET_HALF_BLOCK key;
          c = table PC1_CL (drop_bit 29 tmp AND 0x7) OR push_bit 1 (table PC1_CL (drop_bit 21 tmp AND 0x7)) OR
              push_bit 2 (table PC1_CL (drop_bit 13 tmp AND 0x7)) OR push_bit 3 (table PC1_CL (drop_bit 5 tmp AND 0x7));
          d = table PC1_DL (drop_bit 25 tmp AND 0xf) OR push_bit 1 (table PC1_DL (drop_bit 17 tmp AND 0xf)) OR
              push_bit 2 (table PC1_DL (drop_bit 9 tmp AND 0xf)) OR push_bit 3 (table PC1_DL (drop_bit 1 tmp AND 0xf));
          tmp = GET_HALF_BLOCK (drop 4 key);
          c = c OR table PC1_CR (drop_bit 28 tmp AND 0xf) OR push_bit 1 (table PC1_CR (drop_bit 20 tmp AND 0xf)) OR
              push_bit 2 (table PC1_CR (drop_bit 12 tmp AND 0xf)) OR push_bit 3 (table PC1_CR (drop_bit 4 tmp AND 0xf));
          d = d OR table PC1_DR (drop_bit 25 tmp AND 0x7) OR push_bit 1 (table PC1_DR (drop_bit 17 tmp AND 0x7)) OR
              push_bit 2 (table PC1_DR (drop_bit 9 tmp AND 0x7)) OR push_bit 3 (table PC1_DR (drop_bit 1 tmp AND 0x7))
      in (c, d))"

definition TWO_BIT_SHIFTS :: nat where
  "TWO_BIT_SHIFTS = 0x7efc"

definition rotate28 :: "bool \<Rightarrow> des_word \<Rightarrow> des_word" where
  "rotate28 two c =
     (if two then (push_bit 2 c AND 0xffffffc) OR drop_bit 26 c else (push_bit 1 c AND 0xffffffe) OR drop_bit 27 c)"

definition permuted_choice_2 :: "des_word \<Rightarrow> des_word \<Rightarrow> des_word list" where
  "permuted_choice_2 c d =
     (let ltmp = table (PC2_C ! 0) (drop_bit 22 c AND 0x3f) OR
            table (PC2_C ! 1) ((drop_bit 15 c AND 0xf) OR (drop_bit 16 c AND 0x30)) OR
            table (PC2_C ! 2) ((drop_bit 4 c AND 0x3) OR (drop_bit 9 c AND 0x3c)) OR
            table (PC2_C ! 3) ((c AND 0x7) OR (drop_bit 4 c AND 0x38));
          rtmp = table (PC2_D ! 0) (drop_bit 22 d AND 0x3f) OR
            table (PC2_D ! 1) ((drop_bit 14 d AND 0xf) OR (drop_bit 15 d AND 0x30)) OR
            table (PC2_D ! 2) (drop_bit 7 d AND 0x3f) OR
            table (PC2_D ! 3) ((d AND 0x3) OR (drop_bit 1 d AND 0x3c))
      in [(ltmp AND 0x00ffff00) OR (rtmp AND 0xff0000ff), (ltmp AND 0xff0000ff) OR (rtmp AND 0x00ffff00)])"

fun sched_loop :: "nat \<Rightarrow> nat \<Rightarrow> des_word \<Rightarrow> des_word \<Rightarrow> des_word list" where
  "sched_loop 0 two_bit_shifts c d = []"
| "sched_loop (Suc i) two_bit_shifts c d =
     (let two = odd two_bit_shifts; c = rotate28 two c; d = rotate28 two d
      in permuted_choice_2 c d @ sched_loop i (two_bit_shifts div 2) c d)"

definition make_key_sched :: "octet list \<Rightarrow> des_word list" where
  "make_key_sched key = (case permuted_choice_1 key of (c, d) \<Rightarrow> sched_loop 16 TWO_BIT_SHIFTS c d)"

text \<open>The schedule, and the return values -1 and -2 for a key of wrong parity and for a weak key.\<close>

definition mit_des_key_sched :: "octet list \<Rightarrow> int \<times> des_word list" where
  "mit_des_key_sched k =
     (let schedule = make_key_sched k in
      if \<not> mit_des_check_key_parity k then (-1, schedule)
      else if mit_des_is_weak_key k then (-2, schedule)
      else (0, schedule))"

definition key_part :: "octet list \<Rightarrow> nat \<Rightarrow> octet list" where
  "key_part key i = take 8 (drop (8 * i) key)"

definition mit_des3_key_sched :: "octet list \<Rightarrow> int \<times> des_word list list" where
  "mit_des3_key_sched key =
     (let schedule = map (\<lambda>i. make_key_sched (key_part key i)) [0, 1, 2] in
      if \<not> mit_des_check_key_parity (key_part key 0) then (-1, schedule)
      else if mit_des_is_weak_key (key_part key 0) then (-2, schedule)
      else if \<not> mit_des_check_key_parity (key_part key 1) then (-1, schedule)
      else if mit_des_is_weak_key (key_part key 1) then (-2, schedule)
      else if \<not> mit_des_check_key_parity (key_part key 2) then (-1, schedule)
      else if mit_des_is_weak_key (key_part key 2) then (-2, schedule)
      else (0, schedule))"

section \<open>Rounds and permutations\<close>

definition SP :: "nat \<Rightarrow> des_word \<Rightarrow> des_word" where
  "SP i temp = table (des_SP_table ! i) (temp AND 0x3f)"

definition DES_SP_ENCRYPT_ROUND :: "des_word \<Rightarrow> des_word \<Rightarrow> des_word \<Rightarrow> des_word \<Rightarrow> des_word" where
  "DES_SP_ENCRYPT_ROUND left right k1 k2 =
     (let temp = (drop_bit 11 right OR push_bit 21 right) XOR k1;
          left = left XOR (SP 0 (drop_bit 24 temp) OR SP 1 (drop_bit 16 temp) OR SP 2 (drop_bit 8 temp) OR SP 3 temp);
          temp = (drop_bit 23 right OR push_bit 9 right) XOR k2
      in left XOR (SP 4 (drop_bit 24 temp) OR SP 5 (drop_bit 16 temp) OR SP 6 (drop_bit 8 temp) OR SP 7 temp))"

definition DES_SP_DECRYPT_ROUND :: "des_word \<Rightarrow> des_word \<Rightarrow> des_word \<Rightarrow> des_word \<Rightarrow> des_word" where
  "DES_SP_DECRYPT_ROUND left right k2 k1 =
     (let temp = (drop_bit 23 right OR push_bit 9 right) XOR k2;
          left = left XOR (SP 7 temp OR SP 6 (drop_bit 8 temp) OR SP 5 (drop_bit 16 temp) OR SP 4 (drop_bit 24 temp));
          temp = (drop_bit 11 right OR push_bit 21 right) XOR k1
      in left XOR (SP 3 temp OR SP 2 (drop_bit 8 temp) OR SP 1 (drop_bit 16 temp) OR SP 0 (drop_bit 24 temp)))"

definition DES_IP_LEFT_BITS :: "des_word \<Rightarrow> des_word \<Rightarrow> des_word" where
  "DES_IP_LEFT_BITS left right = push_bit 1 (left AND 0x55555555) OR (right AND 0x55555555)"

definition DES_IP_RIGHT_BITS :: "des_word \<Rightarrow> des_word \<Rightarrow> des_word" where
  "DES_IP_RIGHT_BITS left right = (left AND 0xaaaaaaaa) OR drop_bit 1 (right AND 0xaaaaaaaa)"

definition ip_bits :: "des_word \<Rightarrow> des_word" where
  "ip_bits w =
     table des_IP_table (drop_bit 24 w AND 0xff) OR push_bit 1 (table des_IP_table (drop_bit 16 w AND 0xff)) OR
     push_bit 2 (table des_IP_table (drop_bit 8 w AND 0xff)) OR push_bit 3 (table des_IP_table (w AND 0xff))"

definition DES_INITIAL_PERM :: "des_block \<Rightarrow> des_block" where
  "DES_INITIAL_PERM b =
     (case b of (left, right) \<Rightarrow> (ip_bits (DES_IP_LEFT_BITS left right), ip_bits (DES_IP_RIGHT_BITS left right)))"

definition DES_FP_LEFT_BITS :: "des_word \<Rightarrow> des_word \<Rightarrow> des_word" where
  "DES_FP_LEFT_BITS left right = push_bit 4 (left AND 0x0f0f0f0f) OR (right AND 0x0f0f0f0f)"

definition DES_FP_RIGHT_BITS :: "des_word \<Rightarrow> des_word \<Rightarrow> des_word" where
  "DES_FP_RIGHT_BITS left right = (left AND 0xf0f0f0f0) OR drop_bit 4 (right AND 0xf0f0f0f0)"

definition fp_bits :: "des_word \<Rightarrow> des_word" where
  "fp_bits w =
     push_bit 6 (table des_FP_table (drop_bit 24 w AND 0xff)) OR push_bit 4 (table des_FP_table (drop_bit 16 w AND 0xff)) OR
     push_bit 2 (table des_FP_table (drop_bit 8 w AND 0xff)) OR table des_FP_table (w AND 0xff)"

definition DES_FINAL_PERM :: "des_block \<Rightarrow> des_block" where
  "DES_FINAL_PERM b =
     (case b of (left, right) \<Rightarrow> (fp_bits (DES_FP_LEFT_BITS right left), fp_bits (DES_FP_RIGHT_BITS right left)))"

fun encrypt_rounds :: "des_word list \<Rightarrow> des_block \<Rightarrow> des_block" where
  "encrypt_rounds (k1 # k2 # k3 # k4 # kp) (left, right) =
     (let left = DES_SP_ENCRYPT_ROUND left right k1 k2;
          right = DES_SP_ENCRYPT_ROUND right left k3 k4
      in encrypt_rounds kp (left, right))"
| "encrypt_rounds _ b = b"

text \<open>Decryption goes back through the schedule from its end.\<close>

fun decrypt_rounds :: "des_word list \<Rightarrow> des_block \<Rightarrow> des_block" where
  "decrypt_rounds (k4 # k3 # k2 # k1 # kp) (left, right) =
     (let left = DES_SP_DECRYPT_ROUND left right k4 k3;
          right = DES_SP_DECRYPT_ROUND right left k2 k1
      in decrypt_rounds kp (left, right))"
| "decrypt_rounds _ b = b"

definition DES_DO_ENCRYPT :: "des_word list \<Rightarrow> des_block \<Rightarrow> des_block" where
  "DES_DO_ENCRYPT kp b = DES_FINAL_PERM (encrypt_rounds (take 32 kp) (DES_INITIAL_PERM b))"

definition DES_DO_DECRYPT :: "des_word list \<Rightarrow> des_block \<Rightarrow> des_block" where
  "DES_DO_DECRYPT kp b = DES_FINAL_PERM (decrypt_rounds (rev (take 32 kp)) (DES_INITIAL_PERM b))"

section \<open>The permutations are inverse to each other\<close>

text \<open>What the permutation tables hold: bit \<open>i\<close> of the index goes to the place given for \<open>i\<close>.\<close>

fun perm_table :: "nat list \<Rightarrow> des_word list" where
  "perm_table [] = [0]"
| "perm_table (p # ps) = concat (map (\<lambda>w. [w, push_bit p 1 OR w]) (perm_table ps))"

abbreviation ip_places :: "nat list" where "ip_places \<equiv> [4, 0, 12, 8, 20, 16, 28, 24]"

abbreviation fp_places :: "nat list" where "fp_places \<equiv> [25, 17, 9, 1, 24, 16, 8, 0]"

lemma IP_table_places: "des_IP_table = perm_table ip_places"
  by (simp add: des_IP_table_def)

lemma FP_table_places: "des_FP_table = perm_table fp_places"
  by (simp add: des_FP_table_def)

lemma nth_concat_pairs:
  "n < 2 * length xs \<Longrightarrow> concat (map (\<lambda>w. [f w, g w]) xs) ! n = (if even n then f (xs ! (n div 2)) else g (xs ! (n div 2)))"
proof (induction xs arbitrary: n)
  case (Cons x xs)
  consider "n = 0" | "n = 1" | m where "n = Suc (Suc m)" by (metis One_nat_def not0_implies_Suc)
  then show ?case using Cons by cases auto
qed simp

lemma length_perm_table [simp]: "length (perm_table ps) = 2 ^ length ps"
  by (induction ps) (simp_all add: length_concat comp_def sum_list_triv)

lemma bit_perm_table:
  "n < 2 ^ length ps \<Longrightarrow> bit (perm_table ps ! n) j \<longleftrightarrow> j < 32 \<and> (\<exists>i < length ps. ps ! i = j \<and> bit n i)"
proof (induction ps arbitrary: n)
  case (Cons p ps)
  have "n div 2 < 2 ^ length ps" using Cons.prems by simp
  then have "bit (perm_table ps ! (n div 2)) j \<longleftrightarrow> j < 32 \<and> (\<exists>i < length ps. ps ! i = j \<and> bit (n div 2) i)"
    by (rule Cons.IH)
  moreover have "(\<exists>i < Suc (length ps). (p # ps) ! i = j \<and> bit n i) \<longleftrightarrow>
      p = j \<and> odd n \<or> (\<exists>i < length ps. ps ! i = j \<and> bit (n div 2) i)"
    by (simp add: Ex_less_Suc2 bit_0 bit_Suc)
  ultimately show ?case using Cons.prems by (auto simp: nth_concat_pairs bit_simps)
qed simp

lemma bit_table_places:
  assumes "length ps = 8"
  shows "bit (table (perm_table ps) (x AND 0xff)) j \<longleftrightarrow> j < 32 \<and> (\<exists>i < 8. ps ! i = j \<and> bit x i)"
proof -
  have "x AND 0xff \<le> 0xff" by (rule word_and_le1)
  then have "unat (x AND 0xff) < 2 ^ length ps" using assms by (simp add: word_le_nat_alt)
  moreover have "bit (unat (x AND 0xff)) i \<longleftrightarrow> bit x i" if "i < 8" for i
  proof -
    have "x AND 0xff = take_bit 8 x" by (simp add: take_bit_eq_mask mask_numeral)
    then show ?thesis using that by (simp add: bit_unsigned_iff bit_take_bit_iff)
  qed
  ultimately show ?thesis using assms by (auto simp: table_def bit_perm_table)
qed

lemma Ex_less_8: "(\<exists>i < (8 :: nat). P i) \<longleftrightarrow> P 0 \<or> P 1 \<or> P 2 \<or> P 3 \<or> P 4 \<or> P 5 \<or> P 6 \<or> P 7"
proof -
  have "{..<8 :: nat} = {0, 1, 2, 3, 4, 5, 6, 7}" by auto
  then show ?thesis by (metis (mono_tags, lifting) empty_iff insert_iff lessThan_iff)
qed

lemma bit_ip_table: "bit (table des_IP_table (x AND 0xff)) j \<longleftrightarrow> j < 32 \<and>
  (j = 4 \<and> bit x 0 \<or> j = 0 \<and> bit x 1 \<or> j = 12 \<and> bit x 2 \<or> j = 8 \<and> bit x 3 \<or>
   j = 20 \<and> bit x 4 \<or> j = 16 \<and> bit x 5 \<or> j = 28 \<and> bit x 6 \<or> j = 24 \<and> bit x 7)"
  unfolding IP_table_places by (subst bit_table_places) (simp_all only: Ex_less_8, auto)

lemma bit_fp_table: "bit (table des_FP_table (x AND 0xff)) j \<longleftrightarrow> j < 32 \<and>
  (j = 25 \<and> bit x 0 \<or> j = 17 \<and> bit x 1 \<or> j = 9 \<and> bit x 2 \<or> j = 1 \<and> bit x 3 \<or>
   j = 24 \<and> bit x 4 \<or> j = 16 \<and> bit x 5 \<or> j = 8 \<and> bit x 6 \<or> j = 0 \<and> bit x 7)"
  unfolding FP_table_places by (subst bit_table_places) (simp_all only: Ex_less_8, auto)

lemma word32_eqI:
  assumes "list_all (\<lambda>n. bit v n = bit w n) [0..<32]"
  shows "v = (w :: des_word)"
proof (rule bit_word_eqI)
  fix n assume "n < LENGTH(32)"
  then show "bit v n = bit w n" using assms by (simp add: list_all_iff)
qed

lemma upto32: "[0..<32] = [0, 1, 2, 3, 4, 5, 6, 7, 8, 9, 10, 11, 12, 13, 14, 15, 16, 17, 18, 19, 20, 21, 22, 23, 24, 25,
    26, 27, 28, 29, 30, 31]"
  by code_simp

text \<open>The places that the bits come from.\<close>

definition ip_source :: "nat list" where
  "ip_source = [25, 17, 9, 1, 24, 16, 8, 0, 27, 19, 11, 3, 26, 18, 10, 2, 29, 21, 13, 5, 28, 20, 12, 4, 31, 23, 15, 7, 30, 22, 14, 6]"

definition fp_source :: "nat list" where
  "fp_source = [7, 3, 15, 11, 23, 19, 31, 27, 6, 2, 14, 10, 22, 18, 30, 26, 5, 1, 13, 9, 21, 17, 29, 25, 4, 0, 12, 8, 20, 16, 28, 24]"

lemma bit_ip_bits: "list_all (\<lambda>n. bit (ip_bits w) n = bit w (ip_source ! n)) [0..<32]"
  unfolding ip_bits_def bit_or_iff bit_push_bit_iff bit_drop_bit_eq bit_ip_table upto32 ip_source_def by simp

lemma bit_fp_bits: "list_all (\<lambda>n. bit (fp_bits w) n = bit w (fp_source ! n)) [0..<32]"
  unfolding fp_bits_def bit_or_iff bit_push_bit_iff bit_drop_bit_eq bit_fp_table upto32 fp_source_def by simp

lemmas ip_bit = bit_ip_bits [unfolded upto32 ip_source_def, simplified]

lemmas fp_bit = bit_fp_bits [unfolded upto32 fp_source_def, simplified]

lemma bit_IP_halves:
  "bit (DES_IP_LEFT_BITS l r) n \<longleftrightarrow>
    1 \<le> n \<and> n < 32 \<and> bit l (n - 1) \<and> bit (0x55555555 :: des_word) (n - 1) \<or> bit r n \<and> bit (0x55555555 :: des_word) n"
  "bit (DES_IP_RIGHT_BITS l r) n \<longleftrightarrow>
    bit l n \<and> bit (0xaaaaaaaa :: des_word) n \<or> bit r (1 + n) \<and> bit (0xaaaaaaaa :: des_word) (1 + n)"
  unfolding DES_IP_LEFT_BITS_def DES_IP_RIGHT_BITS_def bit_or_iff bit_and_iff bit_push_bit_iff bit_drop_bit_eq
  by auto

lemma bit_FP_halves:
  "bit (DES_FP_LEFT_BITS l r) n \<longleftrightarrow>
    4 \<le> n \<and> n < 32 \<and> bit l (n - 4) \<and> bit (0x0f0f0f0f :: des_word) (n - 4) \<or> bit r n \<and> bit (0x0f0f0f0f :: des_word) n"
  "bit (DES_FP_RIGHT_BITS l r) n \<longleftrightarrow>
    bit l n \<and> bit (0xf0f0f0f0 :: des_word) n \<or> bit r (4 + n) \<and> bit (0xf0f0f0f0 :: des_word) (4 + n)"
  unfolding DES_FP_LEFT_BITS_def DES_FP_RIGHT_BITS_def bit_or_iff bit_and_iff bit_push_bit_iff bit_drop_bit_eq
  by auto

lemmas perm_bits = fp_bit ip_bit bit_IP_halves bit_FP_halves upto32 numeral_3_eq_3 [symmetric]

lemma final_initial_perm: "DES_FINAL_PERM (prod.swap (DES_INITIAL_PERM b)) = b"
proof -
  obtain l r where b: "b = (l, r)" by fastforce
  have "fp_bits (DES_FP_LEFT_BITS (ip_bits (DES_IP_LEFT_BITS l r)) (ip_bits (DES_IP_RIGHT_BITS l r))) = l"
    by (rule word32_eqI) (simp add: perm_bits)
  moreover have "fp_bits (DES_FP_RIGHT_BITS (ip_bits (DES_IP_LEFT_BITS l r)) (ip_bits (DES_IP_RIGHT_BITS l r))) = r"
    by (rule word32_eqI) (simp add: perm_bits)
  ultimately show ?thesis by (simp add: b DES_FINAL_PERM_def DES_INITIAL_PERM_def)
qed

lemma initial_final_perm: "DES_INITIAL_PERM (DES_FINAL_PERM b) = prod.swap b"
proof -
  obtain l r where b: "b = (l, r)" by fastforce
  have "ip_bits (DES_IP_LEFT_BITS (fp_bits (DES_FP_LEFT_BITS r l)) (fp_bits (DES_FP_RIGHT_BITS r l))) = r"
    by (rule word32_eqI) (simp add: perm_bits)
  moreover have "ip_bits (DES_IP_RIGHT_BITS (fp_bits (DES_FP_LEFT_BITS r l)) (fp_bits (DES_FP_RIGHT_BITS r l))) = l"
    by (rule word32_eqI) (simp add: perm_bits)
  ultimately show ?thesis by (simp add: b DES_FINAL_PERM_def DES_INITIAL_PERM_def)
qed

section \<open>The rounds are inverse to each other\<close>

definition round_mix :: "des_word \<Rightarrow> des_word \<Rightarrow> des_word \<Rightarrow> des_word" where
  "round_mix right k1 k2 = DES_SP_ENCRYPT_ROUND 0 right k1 k2"

lemma encrypt_round_mix: "DES_SP_ENCRYPT_ROUND left right k1 k2 = left XOR round_mix right k1 k2"
  by (simp add: DES_SP_ENCRYPT_ROUND_def round_mix_def Let_def xor.assoc)

lemma decrypt_round_mix: "DES_SP_DECRYPT_ROUND left right k2 k1 = left XOR round_mix right k1 k2"
  by (simp add: DES_SP_DECRYPT_ROUND_def DES_SP_ENCRYPT_ROUND_def round_mix_def Let_def xor.assoc or.assoc ac_simps)

lemma xor_twice [simp]: "(v XOR m) XOR m = (v :: des_word)"
  by (simp add: xor.assoc)

lemma decrypt_rounds_append:
  "length ks = 4 * n \<Longrightarrow> decrypt_rounds (ks @ ms) b = decrypt_rounds ms (decrypt_rounds ks b)"
proof (induction n arbitrary: ks b)
  case (Suc n)
  obtain k1 k2 k3 k4 kp where "ks = k1 # k2 # k3 # k4 # kp" "length kp = 4 * n"
    using Suc.prems by (auto simp: length_Suc_conv numeral_Bit0)
  then show ?case using Suc.IH [of kp] by (cases b) (simp add: Let_def)
qed simp

lemma encrypt_rounds_append:
  "length ks = 4 * n \<Longrightarrow> encrypt_rounds (ks @ ms) b = encrypt_rounds ms (encrypt_rounds ks b)"
proof (induction n arbitrary: ks b)
  case (Suc n)
  obtain k1 k2 k3 k4 kp where "ks = k1 # k2 # k3 # k4 # kp" "length kp = 4 * n"
    using Suc.prems by (auto simp: length_Suc_conv numeral_Bit0)
  then show ?case using Suc.IH [of kp] by (cases b) (simp add: Let_def)
qed simp

lemma decrypt_encrypt_rounds:
  "length ks = 4 * n \<Longrightarrow> decrypt_rounds (rev ks) (prod.swap (encrypt_rounds ks b)) = prod.swap b"
proof (induction n arbitrary: ks b)
  case (Suc n)
  obtain k1 k2 k3 k4 kp where ks: "ks = k1 # k2 # k3 # k4 # kp" "length kp = 4 * n"
    using Suc.prems by (auto simp: length_Suc_conv numeral_Bit0)
  obtain l r where b: "b = (l, r)" by fastforce
  have "decrypt_rounds (rev ks) c = decrypt_rounds [k4, k3, k2, k1] (decrypt_rounds (rev kp) c)" for c
    using decrypt_rounds_append [of "rev kp" n "[k4, k3, k2, k1]" c] ks by simp
  then show ?case using Suc.IH [OF ks(2)] ks(1) b by (simp add: Let_def encrypt_round_mix decrypt_round_mix)
qed simp

lemma encrypt_decrypt_rounds:
  "length ks = 4 * n \<Longrightarrow> encrypt_rounds ks (prod.swap (decrypt_rounds (rev ks) b)) = prod.swap b"
proof (induction n arbitrary: ks b)
  case (Suc n)
  obtain k1 k2 k3 k4 kp where ks: "ks = k1 # k2 # k3 # k4 # kp" "length kp = 4 * n"
    using Suc.prems by (auto simp: length_Suc_conv numeral_Bit0)
  obtain l r where c: "decrypt_rounds (rev kp) b = (l, r)" by fastforce
  have "decrypt_rounds (rev ks) b = decrypt_rounds [k4, k3, k2, k1] (decrypt_rounds (rev kp) b)"
    using decrypt_rounds_append [of "rev kp" n "[k4, k3, k2, k1]" b] ks by simp
  then show ?case using Suc.IH [OF ks(2), of b] ks(1) c by (simp add: Let_def encrypt_round_mix decrypt_round_mix)
qed simp

lemma length_sched_loop [simp]: "length (sched_loop i t c d) = 2 * i"
  by (induction i t c d rule: sched_loop.induct) (simp_all add: permuted_choice_2_def Let_def)

lemma length_make_key_sched: "length (make_key_sched key) = 32"
  by (simp add: make_key_sched_def split: prod.split)

lemma do_decrypt_encrypt:
  assumes "length ks = 32"
  shows "DES_DO_DECRYPT ks (DES_DO_ENCRYPT ks b) = b"
  using assms decrypt_encrypt_rounds [of ks 8 "DES_INITIAL_PERM b"]
  by (simp add: DES_DO_DECRYPT_def DES_DO_ENCRYPT_def initial_final_perm final_initial_perm)

lemma do_encrypt_decrypt:
  assumes "length ks = 32"
  shows "DES_DO_ENCRYPT ks (DES_DO_DECRYPT ks b) = b"
  using assms encrypt_decrypt_rounds [of ks 8 "DES_INITIAL_PERM b"]
  by (simp add: DES_DO_DECRYPT_def DES_DO_ENCRYPT_def initial_final_perm final_initial_perm)

end
