(* ===== verification/Crypto_Cbc.thy ===== *)
theory Crypto_Cbc
  imports Crypto_Des
begin

text \<open>
  Cipher block chaining for DES and triple DES (\<open>lib/crypto/des/f_cbc.c\<close>, \<open>d3_cbc.c\<close>).
\<close>

unbundle bit_operations_syntax

section \<open>Cipher block chaining\<close>

text \<open>
  The octets of a block, or of what is left of the input, are combined with the halves from the
  highest octet down; \<open>s\<close> is the shift of the next octet.
\<close>

fun xor_octets :: "nat \<Rightarrow> des_word \<Rightarrow> octet list \<Rightarrow> des_word" where
  "xor_octets s w [] = w"
| "xor_octets s w (b # bs) = xor_octets (s - 8) (w XOR push_bit s (ucast b)) bs"

definition xor_block :: "des_block \<Rightarrow> octet list \<Rightarrow> des_block" where
  "xor_block b ip = (case b of (left, right) \<Rightarrow> (xor_octets 24 left (take 4 ip), xor_octets 24 right (take 4 (drop 4 ip))))"

function cbc_encrypt_loop :: "(des_block \<Rightarrow> des_block) \<Rightarrow> des_block \<Rightarrow> octet list \<Rightarrow> octet list" where
  "cbc_encrypt_loop E b ip =
     (if ip = [] then []
      else let b = E (xor_block b (take 8 ip)) in PUT_BLOCK b @ cbc_encrypt_loop E b (drop 8 ip))"
  by pat_completeness auto
termination
  by (relation "measure (\<lambda>(E, b, ip). length ip)") auto

declare cbc_encrypt_loop.simps [simp del]

definition xor_halves :: "des_block \<Rightarrow> des_block \<Rightarrow> des_block" where
  "xor_halves b c = (fst b XOR fst c, snd b XOR snd c)"

text \<open>
  Decryption reads whole blocks, and writes as many octets of the last one as are left of
  \<open>length\<close>.
\<close>

function cbc_decrypt_loop :: "(des_block \<Rightarrow> des_block) \<Rightarrow> des_block \<Rightarrow> octet list \<Rightarrow> nat \<Rightarrow> octet list c_outcome" where
  "cbc_decrypt_loop D ocipher ip len =
     (if length ip < 8 then Out_of_bounds
      else
        let cipher = GET_BLOCK ip; b = xor_halves (D cipher) ocipher in
        if len > 8 then bindO (cbc_decrypt_loop D cipher (drop 8 ip) (len - 8)) (\<lambda>out. Done (PUT_BLOCK b @ out))
        else Done (take len (PUT_BLOCK b)))"
  by pat_completeness auto
termination
  by (relation "measure (\<lambda>(D, ocipher, ip, len). len)") auto

declare cbc_decrypt_loop.simps [simp del]

definition mit_des_cbc_encrypt :: "octet list \<Rightarrow> nat \<Rightarrow> des_word list \<Rightarrow> octet list \<Rightarrow> bool \<Rightarrow> octet list c_outcome" where
  "mit_des_cbc_encrypt ip len schedule ivec encrypt =
     (if encrypt then
        (if length ip < len then Out_of_bounds
         else Done (cbc_encrypt_loop (DES_DO_ENCRYPT schedule) (GET_BLOCK ivec) (take len ip)))
      else if len = 0 then Done []
      else cbc_decrypt_loop (DES_DO_DECRYPT schedule) (GET_BLOCK ivec) ip len)"

definition des3_encrypt :: "des_word list list \<Rightarrow> des_block \<Rightarrow> des_block" where
  "des3_encrypt ks b = DES_DO_ENCRYPT (ks ! 2) (DES_DO_DECRYPT (ks ! 1) (DES_DO_ENCRYPT (ks ! 0) b))"

definition des3_decrypt :: "des_word list list \<Rightarrow> des_block \<Rightarrow> des_block" where
  "des3_decrypt ks b = DES_DO_DECRYPT (ks ! 0) (DES_DO_ENCRYPT (ks ! 1) (DES_DO_DECRYPT (ks ! 2) b))"

definition mit_des3_cbc_encrypt ::
  "octet list \<Rightarrow> nat \<Rightarrow> des_word list list \<Rightarrow> octet list \<Rightarrow> bool \<Rightarrow> octet list c_outcome" where
  "mit_des3_cbc_encrypt ip len ks ivec encrypt =
     (if encrypt then
        (if length ip < len then Out_of_bounds
         else Done (cbc_encrypt_loop (des3_encrypt ks) (GET_BLOCK ivec) (take len ip)))
      else if len = 0 then Done []
      else cbc_decrypt_loop (des3_decrypt ks) (GET_BLOCK ivec) ip len)"

section \<open>Decryption undoes encryption\<close>

lemma get_put_half [simp]: "GET_HALF_BLOCK (PUT_HALF_BLOCK w @ xs) = w"
  unfolding PUT_HALF_BLOCK_def append.simps GET_HALF_BLOCK.simps
  by (rule word32_eqI, unfold upto32) (simp add: bit_or_iff bit_push_bit_iff bit_drop_bit_eq bit_ucast_iff numeral_3_eq_3 [symmetric])

lemma length_put_half [simp]: "length (PUT_HALF_BLOCK w) = 4"
  by (simp add: PUT_HALF_BLOCK_def)

lemma length_put_block [simp]: "length (PUT_BLOCK b) = 8"
  by (simp add: PUT_BLOCK_def)

lemma get_put_block [simp]: "GET_BLOCK (PUT_BLOCK b @ xs) = b"
  using get_put_half [of "snd b" xs] by (simp add: GET_BLOCK_def PUT_BLOCK_def)

lemma xor_octets_start: "xor_octets s w bs = w XOR xor_octets s 0 bs"
proof (induction bs arbitrary: s w)
  case (Cons b bs)
  show ?case using Cons [of "s - 8" "w XOR push_bit s (ucast b)"] Cons [of "s - 8" "push_bit s (ucast b)"]
    by (simp add: xor.assoc)
qed simp

lemma xor_block_undone:
  "xor_halves (xor_block c bs) c = (xor_octets 24 0 (take 4 bs), xor_octets 24 0 (take 4 (drop 4 bs)))"
proof -
  have "(w XOR v) XOR w = v" for v w :: des_word by (simp add: xor.commute [of w v])
  then show ?thesis
    using xor_octets_start [of 24 "fst c"] xor_octets_start [of 24 "snd c"]
    by (cases c) (simp add: xor_halves_def xor_block_def)
qed

lemma put_xor_octets: "length bs \<le> 4 \<Longrightarrow> take (length bs) (PUT_HALF_BLOCK (xor_octets 24 0 bs)) = bs"
proof -
  have e: "v = w" if "list_all (\<lambda>n. bit v n = bit w n) [0, 1, 2, 3, 4, 5, 6, 7]" for v w :: octet
  proof (rule bit_word_eqI)
    fix n assume "n < LENGTH(8)"
    then have "n \<in> set [0, 1, 2, 3, 4, 5, 6, 7]" by auto
    then show "bit v n = bit w n" using that by (simp only: list_all_iff)
  qed
  have z: "8 \<le> n \<Longrightarrow> \<not> bit b n" for b :: octet and n using bit_imp_le_length [of b n] by auto
  have o4: "ucast (drop_bit 24 (push_bit 24 (ucast a) XOR push_bit 16 (ucast b) XOR push_bit 8 (ucast c) XOR push_bit 0 (ucast d) :: des_word)) = (a :: octet)"
    "ucast (drop_bit 16 (push_bit 24 (ucast a) XOR push_bit 16 (ucast b) XOR push_bit 8 (ucast c) XOR push_bit 0 (ucast d) :: des_word)) = (b :: octet)"
    "ucast (drop_bit 8 (push_bit 24 (ucast a) XOR push_bit 16 (ucast b) XOR push_bit 8 (ucast c) XOR push_bit 0 (ucast d) :: des_word)) = (c :: octet)"
    "ucast (push_bit 24 (ucast a) XOR push_bit 16 (ucast b) XOR push_bit 8 (ucast c) XOR push_bit 0 (ucast d) :: des_word) = (d :: octet)"
    for a b c d :: octet
    by (rule e, simp add: bit_xor_iff bit_push_bit_iff bit_drop_bit_eq bit_ucast_iff z)+
  assume "length bs \<le> 4"
  then consider "bs = []" | a where "bs = [a]" | a b where "bs = [a, b]" | a b c where "bs = [a, b, c]"
    | a b c d where "bs = [a, b, c, d]"
    by (auto simp: le_Suc_eq length_Suc_conv numeral_Bit0)
  then show ?thesis
    using o4(1) [of _ 0 0 0] o4(1,2) [of _ _ 0 0] o4(1,2,3) [of _ _ _ 0] o4
    by cases (simp_all add: PUT_HALF_BLOCK_def xor.assoc)
qed

lemma put_xor_block:
  assumes "length bs \<le> 8"
  shows "take (length bs) (PUT_BLOCK (xor_halves (xor_block c bs) c)) = bs"
proof -
  have "take (length (take 4 bs)) (PUT_HALF_BLOCK (xor_octets 24 0 (take 4 bs))) = take 4 bs"
    "take (length (drop 4 bs)) (PUT_HALF_BLOCK (xor_octets 24 0 (drop 4 bs))) = drop 4 bs"
    using put_xor_octets [of "take 4 bs"] put_xor_octets [of "drop 4 bs"] assms by simp_all
  moreover have "take 4 (drop 4 bs) = drop 4 bs" using assms by simp
  ultimately show ?thesis
    by (cases "length bs \<le> 4") (simp_all add: xor_block_undone PUT_BLOCK_def)
qed

lemma round_up_8: "0 < n \<Longrightarrow> 8 + 8 * ((n - 8 + 7) div 8) = 8 * ((n + 7) div (8 :: nat))"
proof (cases "n \<le> 8")
  case True
  moreover assume "0 < n"
  ultimately have "(n + 7) div 8 = 1" by (intro div_nat_eqI) simp_all
  then show ?thesis using True by simp
next
  case False
  then obtain m where "n = m + 8" by (metis le_add_diff_inverse2 nat_le_linear)
  then show ?thesis using div_add_self2 [of 8 "m + 7"] by simp
qed

text \<open>
  What chaining needs of a block cipher: two operations on blocks that are inverse to each other.
\<close>

locale block_cipher =
  fixes E :: "des_block \<Rightarrow> des_block"
    and D :: "des_block \<Rightarrow> des_block"
  assumes D_E: "D (E b) = b"
    and E_D: "E (D b) = b"
begin

lemma chaining_undone: "ip \<noteq> [] \<Longrightarrow> cbc_decrypt_loop D c (cbc_encrypt_loop E c ip @ rest) (length ip) = Done ip"
proof (induction "length ip" arbitrary: ip c rule: less_induct)
  case less
  let ?b = "E (xor_block c (take 8 ip))"
  have e: "cbc_encrypt_loop E c ip = PUT_BLOCK ?b @ cbc_encrypt_loop E ?b (drop 8 ip)"
    using less.prems by (simp add: cbc_encrypt_loop.simps [of E c ip] Let_def)
  have p: "take (length (take 8 ip)) (PUT_BLOCK (xor_halves (D ?b) c)) = take 8 ip"
    using put_xor_block [of "take 8 ip" c] by (simp add: D_E)
  show ?case
  proof (cases "length ip > 8")
    case True
    then have "cbc_decrypt_loop D ?b (cbc_encrypt_loop E ?b (drop 8 ip) @ rest) (length (drop 8 ip)) = Done (drop 8 ip)"
      using less.hyps [of "drop 8 ip" ?b] by auto
    moreover have "PUT_BLOCK (xor_halves (D ?b) c) = take 8 ip" using p True by simp
    ultimately show ?thesis using True unfolding e
      by (subst cbc_decrypt_loop.simps) (simp add: Let_def)
  next
    case False
    then show ?thesis using p unfolding e by (subst cbc_decrypt_loop.simps) (simp add: Let_def)
  qed
qed

lemma length_chained: "length (cbc_encrypt_loop E c ip) = 8 * ((length ip + 7) div 8)"
proof (induction "length ip" arbitrary: ip c rule: less_induct)
  case less
  show ?case
  proof (cases "ip = []")
    case True then show ?thesis by (simp add: cbc_encrypt_loop.simps)
  next
    case False
    then have "length (drop 8 ip) < length ip" by simp
    then have "length (cbc_encrypt_loop E c ip) = 8 + 8 * ((length ip - 8 + 7) div 8)"
      using less.hyps False by (subst cbc_encrypt_loop.simps) (simp add: Let_def)
    then show ?thesis using False round_up_8 [of "length ip"] by simp
  qed
qed

end

interpretation des: block_cipher "DES_DO_ENCRYPT (make_key_sched key)" "DES_DO_DECRYPT (make_key_sched key)" for key
  by unfold_locales (simp_all add: do_decrypt_encrypt do_encrypt_decrypt length_make_key_sched)

interpretation des3: block_cipher "des3_encrypt (snd (mit_des3_key_sched key))" "des3_decrypt (snd (mit_des3_key_sched key))" for key
  by unfold_locales
    (simp_all add: des3_encrypt_def des3_decrypt_def mit_des3_key_sched_def Let_def do_decrypt_encrypt do_encrypt_decrypt
      length_make_key_sched)

end
