(* ===== verification/Crypto_Crc.thy ===== *)
theory Crypto_Crc
  imports Crypto_Des
begin

text \<open>
  The CRC-32 checksum: \<open>mit_crc32\<close> (\<open>lib/crypto/crc32/crc32.c\<close>) and the hash provider made of it
  (\<open>lib/crypto/hash_provider/hash_crc32.c\<close>).  The register \<open>c\<close> is an \<open>unsigned long\<close> that never holds
  more than 32 bits.
\<close>

unbundle bit_operations_syntax

definition crc_step :: "32 word \<Rightarrow> octet \<Rightarrow> 32 word" where
  "crc_step c b = (let idx = (ucast b XOR c) AND 0xff in drop_bit 8 c XOR table crc_table idx)"

definition mit_crc32 :: "octet list \<Rightarrow> 32 word" where
  "mit_crc32 data = foldl crc_step 0 data"

section \<open>A table lookup is eight steps of the shift register\<close>

text \<open>
  The reference: the register is shifted by one bit, and the polynomial is added when a one is
  shifted out.
\<close>

definition crc_bit :: "32 word \<Rightarrow> 32 word" where
  "crc_bit c = (if bit c 0 then drop_bit 1 c XOR 0xedb88320 else drop_bit 1 c)"

definition crc_octet :: "32 word \<Rightarrow> 32 word" where
  "crc_octet c = crc_bit (crc_bit (crc_bit (crc_bit (crc_bit (crc_bit (crc_bit (crc_bit c)))))))"

definition crc32_reference :: "octet list \<Rightarrow> 32 word" where
  "crc32_reference data = foldl (\<lambda>c b. crc_octet (c XOR ucast b)) 0 data"

fun xor_table :: "32 word list \<Rightarrow> 32 word list" where
  "xor_table [] = [0]"
| "xor_table (p # ps) = concat (map (\<lambda>w. [w, p XOR w]) (xor_table ps))"

lemma crc_table_basis:
  "crc_table = xor_table (map crc_octet [0x01, 0x02, 0x04, 0x08, 0x10, 0x20, 0x40, 0x80])"
  by (simp add: crc_table_def crc_octet_def crc_bit_def bit_numeral_rec(1))

lemma crc_bit_linear: "crc_bit (v XOR w) = crc_bit v XOR crc_bit w"
proof -
  have "bit (v XOR w) 0 = (bit v 0 \<noteq> bit w 0)" by (simp add: bit_xor_iff)
  moreover have "drop_bit 1 (v XOR w) = drop_bit 1 v XOR drop_bit 1 w" by (rule drop_bit_xor)
  ultimately show ?thesis by (auto simp: crc_bit_def ac_simps)
qed

lemma crc_octet_linear: "crc_octet (v XOR w) = crc_octet v XOR crc_octet w"
  by (simp only: crc_octet_def crc_bit_linear)

lemma crc_octet_0 [simp]: "crc_octet 0 = 0"
  by (simp add: crc_octet_def crc_bit_def)

lemma length_xor_table [simp]: "length (xor_table ps) = 2 ^ length ps"
  by (induction ps) (simp_all add: length_concat comp_def sum_list_triv)

lemma push_bit_parts:
  "push_bit j (word_of_nat n :: 32 word) =
    (if odd n then push_bit j 1 else 0) XOR push_bit (Suc j) (word_of_nat (n div 2))"
proof (rule bit_word_eqI)
  fix i assume i: "i < LENGTH(32)"
  have l: "bit (push_bit j (word_of_nat n :: 32 word)) i \<longleftrightarrow> j \<le> i \<and> bit n (i - j)"
    and r: "bit (push_bit (Suc j) (word_of_nat (n div 2) :: 32 word)) i \<longleftrightarrow> Suc j \<le> i \<and> bit (n div 2) (i - Suc j)"
    and o: "bit (push_bit j (1 :: 32 word)) i \<longleftrightarrow> i = j"
    unfolding bit_push_bit_iff bit_of_nat_iff bit_1_iff using i by auto
  have "j \<le> i \<and> bit n (i - j) \<longleftrightarrow> (odd n \<and> i = j) \<noteq> (Suc j \<le> i \<and> bit (n div 2) (i - Suc j))"
  proof -
    consider "i < j" | "i = j" | k where "i = Suc (j + k)" by (metis less_imp_Suc_add linorder_neqE_nat)
    then show ?thesis by cases (simp_all add: bit_0 bit_Suc Suc_diff_le)
  qed
  then show "bit (push_bit j (word_of_nat n :: 32 word)) i =
      bit ((if odd n then push_bit j 1 else 0) XOR push_bit (Suc j) (word_of_nat (n div 2) :: 32 word)) i"
    unfolding bit_xor_iff l r by (cases "odd n") (simp_all add: o del: push_bit_of_1)
qed

lemma xor_table_basis:
  "n < 2 ^ k \<Longrightarrow> xor_table (map (\<lambda>i. crc_octet (push_bit i 1)) [j..<j + k]) ! n = crc_octet (push_bit j (word_of_nat n))"
proof (induction k arbitrary: j n)
  case (Suc k)
  let ?t = "xor_table (map (\<lambda>i. crc_octet (push_bit i 1)) [Suc j..<Suc j + k])"
  have "length ?t = 2 ^ k" unfolding length_xor_table length_map length_upt by simp
  then have l: "n < 2 * length ?t" "n div 2 < 2 ^ k" using Suc.prems by simp_all
  have "[j..<j + Suc k] = j # [Suc j..<Suc j + k]" by (simp add: upt_rec)
  then have "xor_table (map (\<lambda>i. crc_octet (push_bit i 1)) [j..<j + Suc k]) ! n =
      (if even n then ?t ! (n div 2) else crc_octet (push_bit j 1) XOR ?t ! (n div 2))"
    using nth_concat_pairs [OF l(1), of "\<lambda>w. w"] by simp
  then show ?case using Suc.IH [OF l(2), of "Suc j"] push_bit_parts [of j n] crc_octet_linear by simp
qed simp

lemma crc_table_lookup: "table crc_table (x AND 0xff) = crc_octet (x AND 0xff)"
proof -
  have "x AND 0xff \<le> 0xff" by (rule word_and_le1)
  then have n: "unat (x AND 0xff) < 2 ^ 8" by (simp add: word_le_nat_alt)
  have "[0..<0 + 8] = [0, 1, 2, 3, 4, 5, 6, 7 :: nat]" by (simp add: upt_rec)
  then have "xor_table (map (\<lambda>i. crc_octet (push_bit i 1)) [0..<0 + 8]) = crc_table"
    unfolding crc_table_basis by simp
  then show ?thesis using xor_table_basis [OF n, of 0] by (simp add: table_def)
qed

text \<open>The upper bits of the register are only shifted.\<close>

lemma crc_octet_high: "take_bit 8 c = 0 \<Longrightarrow> crc_octet c = drop_bit 8 c"
proof -
  assume t: "take_bit 8 c = 0"
  have b: "\<not> bit c i" if "i < 8" for i
    using arg_cong [OF t, of "\<lambda>w. bit w i"] that by (simp add: bit_take_bit_iff)
  have s: "crc_bit (drop_bit i c) = drop_bit (Suc i) c" if "i < 8" for i
    using b [OF that] by (simp add: crc_bit_def bit_drop_bit_eq drop_bit_drop_bit)
  have "crc_octet (drop_bit 0 c) = drop_bit 8 c"
    unfolding crc_octet_def by (simp add: s eval_nat_numeral del: drop_bit_0)
  then show ?thesis by simp
qed

lemma split_octet: "(x :: 32 word) = (x AND 0xff) XOR push_bit 8 (drop_bit 8 x)"
proof (rule bit_word_eqI)
  fix n assume n: "n < LENGTH(32)"
  have "x AND 0xff = take_bit 8 x" by (simp add: take_bit_eq_mask mask_numeral)
  then show "bit x n = bit ((x AND 0xff) XOR push_bit 8 (drop_bit 8 x)) n"
    using n by (cases "n < 8") (simp_all add: bit_simps)
qed

lemma crc_step_reference: "crc_step c b = crc_octet (c XOR ucast b)"
proof -
  let ?x = "c XOR ucast b"
  have low: "ucast b XOR c = ?x" by (rule xor.commute)
  have "?x = (?x AND 0xff) XOR push_bit 8 (drop_bit 8 ?x)" by (rule split_octet)
  then have "crc_octet ?x = crc_octet (?x AND 0xff) XOR crc_octet (push_bit 8 (drop_bit 8 ?x))"
    using crc_octet_linear by metis
  moreover have "crc_octet (push_bit 8 (drop_bit 8 ?x)) = drop_bit 8 c"
  proof -
    have "take_bit 8 (push_bit 8 (drop_bit 8 ?x)) = 0" by (simp add: take_bit_push_bit)
    moreover have "drop_bit 8 (push_bit 8 (drop_bit 8 ?x)) = drop_bit 8 c"
      by (rule bit_word_eqI) (use bit_imp_le_length [of b] bit_imp_le_length [of c] in \<open>fastforce simp: bit_simps\<close>)
    ultimately show ?thesis using crc_octet_high by simp
  qed
  ultimately show ?thesis by (simp add: crc_step_def low crc_table_lookup Let_def xor.commute)
qed

text \<open>
  C24. The table-driven checksum is the remainder that the shift register with the CRC-32 polynomial
  computes bit by bit, for every message.
\<close>

theorem crc32_is_shift_register: "mit_crc32 data = crc32_reference data"
  unfolding mit_crc32_def crc32_reference_def crc_step_reference ..

end
