(* ===== verification/Crypto_Provider.thy ===== *)
theory Crypto_Provider
  imports Crypto_Cbc Crypto_Crc
begin

text \<open>
  The encryption providers \<open>krb5_enc_des\<close> and \<open>krb5_enc_des3\<close> (\<open>lib/crypto/enc_provider\<close>) and the hash
  provider \<open>krb5_hash_crc32\<close> (\<open>lib/crypto/hash_provider/hash_crc32.c\<close>) as records of functions, and what
  the layers above rely on of such a provider.

  A key is the list of its octets; the length of an output buffer is an argument where the code
  looks at it.
\<close>

unbundle bit_operations_syntax

definition KRB5_CRYPTO_INTERNAL where [krb5_errs]: "KRB5_CRYPTO_INTERNAL = krb5_err 178"
definition KRB5DES_BAD_KEYPAR where [krb5_errs]: "KRB5DES_BAD_KEYPAR = krb5_err 186"
definition KRB5DES_WEAK_KEY where [krb5_errs]: "KRB5DES_WEAK_KEY = krb5_err 187"
definition KRB5_BAD_KEYSIZE where [krb5_errs]: "KRB5_BAD_KEYSIZE = krb5_err 189"
definition KRB5_BAD_MSIZE where [krb5_errs]: "KRB5_BAD_MSIZE = krb5_err 190"

section \<open>Providers\<close>

record krb5_enc_provider =
  ep_block_size :: nat
  ep_keybytes :: nat
  ep_keylength :: nat
  ep_encrypt :: "octet list \<Rightarrow> octet list option \<Rightarrow> octet list \<Rightarrow> nat \<Rightarrow> octet list c_outcome"
  ep_decrypt :: "octet list \<Rightarrow> octet list option \<Rightarrow> octet list \<Rightarrow> nat \<Rightarrow> octet list c_outcome"
  ep_make_key :: "octet list \<Rightarrow> nat \<Rightarrow> octet list krb5_result"

record krb5_hash_provider =
  hp_hash_size :: nat
  hp_block_size :: nat
  hp_hash :: "octet list list \<Rightarrow> nat \<Rightarrow> octet list c_outcome"

definition mit_des_zeroblock :: "octet list" where
  "mit_des_zeroblock = replicate 8 0"

definition k5_des_docrypt ::
  "octet list \<Rightarrow> octet list option \<Rightarrow> octet list \<Rightarrow> nat \<Rightarrow> bool \<Rightarrow> octet list c_outcome" where
  "k5_des_docrypt key ivec input outlen encrypt =
     (if length key \<noteq> 8 then Error KRB5_BAD_KEYSIZE
      else if length input mod 8 \<noteq> 0 then Error KRB5_BAD_MSIZE
      else if (case ivec of None \<Rightarrow> False | Some iv \<Rightarrow> length iv \<noteq> 8) then Error KRB5_BAD_MSIZE
      else if length input \<noteq> outlen then Error KRB5_BAD_MSIZE
      else
        case mit_des_key_sched key of
          (ret, schedule) \<Rightarrow>
            if ret = -1 then Error KRB5DES_BAD_KEYPAR
            else if ret = -2 then Error KRB5DES_WEAK_KEY
            else mit_des_cbc_encrypt input (length input) schedule (case ivec of None \<Rightarrow> mit_des_zeroblock | Some iv \<Rightarrow> iv) encrypt)"

text \<open>The lowest bits of seven octets make up the eighth; then the parity bits replace them.\<close>

definition make_key_octets :: "octet list \<Rightarrow> octet list" where
  "make_key_octets rnd =
     mit_des_fixup_key_parity (rnd @ [push_bit 1 (rnd ! 0 AND 1) OR push_bit 2 (rnd ! 1 AND 1) OR push_bit 3 (rnd ! 2 AND 1) OR
       push_bit 4 (rnd ! 3 AND 1) OR push_bit 5 (rnd ! 4 AND 1) OR push_bit 6 (rnd ! 5 AND 1) OR push_bit 7 (rnd ! 6 AND 1)])"

definition k5_des_make_key :: "octet list \<Rightarrow> nat \<Rightarrow> octet list krb5_result" where
  "k5_des_make_key randombits keylen =
     (if keylen \<noteq> 8 then Inl KRB5_BAD_KEYSIZE
      else if length randombits \<noteq> 7 then Inl KRB5_CRYPTO_INTERNAL
      else Inr (make_key_octets randombits))"

definition krb5_enc_des :: krb5_enc_provider where
  "krb5_enc_des = \<lparr>ep_block_size = 8, ep_keybytes = 7, ep_keylength = 8,
     ep_encrypt = (\<lambda>key ivec input outlen. k5_des_docrypt key ivec input outlen True),
     ep_decrypt = (\<lambda>key ivec input outlen. k5_des_docrypt key ivec input outlen False),
     ep_make_key = k5_des_make_key\<rparr>"

definition k5_des3_docrypt ::
  "octet list \<Rightarrow> octet list option \<Rightarrow> octet list \<Rightarrow> nat \<Rightarrow> bool \<Rightarrow> octet list c_outcome" where
  "k5_des3_docrypt key ivec input outlen encrypt =
     (if length key \<noteq> 24 then Error KRB5_BAD_KEYSIZE
      else if length input mod 8 \<noteq> 0 then Error KRB5_BAD_MSIZE
      else if (case ivec of None \<Rightarrow> False | Some iv \<Rightarrow> length iv \<noteq> 8) then Error KRB5_BAD_MSIZE
      else if length input \<noteq> outlen then Error KRB5_BAD_MSIZE
      else
        case mit_des3_key_sched key of
          (ret, schedule) \<Rightarrow>
            if ret = -1 then Error KRB5DES_BAD_KEYPAR
            else if ret = -2 then Error KRB5DES_WEAK_KEY
            else mit_des3_cbc_encrypt input (length input) schedule (case ivec of None \<Rightarrow> mit_des_zeroblock | Some iv \<Rightarrow> iv) encrypt)"

definition k5_des3_make_key :: "octet list \<Rightarrow> nat \<Rightarrow> octet list krb5_result" where
  "k5_des3_make_key randombits keylen =
     (if keylen \<noteq> 24 then Inl KRB5_BAD_KEYSIZE
      else if length randombits \<noteq> 21 then Inl KRB5_CRYPTO_INTERNAL
      else Inr (concat (map (\<lambda>i. make_key_octets (take 7 (drop (i * 7) randombits))) [0, 1, 2])))"

definition krb5_enc_des3 :: krb5_enc_provider where
  "krb5_enc_des3 = \<lparr>ep_block_size = 8, ep_keybytes = 21, ep_keylength = 24,
     ep_encrypt = (\<lambda>key ivec input outlen. k5_des3_docrypt key ivec input outlen True),
     ep_decrypt = (\<lambda>key ivec input outlen. k5_des3_docrypt key ivec input outlen False),
     ep_make_key = k5_des3_make_key\<rparr>"

definition CRC32_CKSUM_LENGTH :: nat where "CRC32_CKSUM_LENGTH = 4"

text \<open>The checksums of the inputs are combined, not the inputs.\<close>

definition k5_crc32_hash :: "octet list list \<Rightarrow> nat \<Rightarrow> octet list c_outcome" where
  "k5_crc32_hash input outlen =
     (if outlen \<noteq> CRC32_CKSUM_LENGTH then Error KRB5_CRYPTO_INTERNAL
      else
        let c = foldl (\<lambda>c d. c XOR mit_crc32 d) 0 input
        in Done [ucast (c AND 0xff), ucast (drop_bit 8 c AND 0xff), ucast (drop_bit 16 c AND 0xff), ucast (drop_bit 24 c AND 0xff)])"

definition krb5_hash_crc32 :: krb5_hash_provider where
  "krb5_hash_crc32 = \<lparr>hp_hash_size = CRC32_CKSUM_LENGTH, hp_block_size = 1, hp_hash = k5_crc32_hash\<rparr>"

section \<open>What is relied on\<close>

locale cipher_provider =
  fixes enc :: krb5_enc_provider
  assumes block_pos: "0 < ep_block_size enc"
    and encrypt_length: "ep_encrypt enc key ivec input n = Done c \<Longrightarrow> length c = length input \<and> n = length input"
    and decrypt_encrypt: "ep_encrypt enc key ivec input n = Done c \<Longrightarrow> ep_decrypt enc key ivec c n = Done input"
    and decrypt_length: "ep_decrypt enc key ivec input n = Done p \<Longrightarrow> length p = length input \<and> n = length input"
    and made_key_length: "ep_make_key enc rnd n = Inr key \<Longrightarrow> length key = n"

locale digest_provider =
  fixes hash :: krb5_hash_provider
  assumes digest_length: "hp_hash hash ds n = Done h \<Longrightarrow> length h = n \<and> n = hp_hash_size hash"

section \<open>Chained messages\<close>

lemma des_cbc_chain:
  "mit_des_cbc_encrypt ip (length ip) (make_key_sched key) ivec True =
     Done (cbc_encrypt_loop (DES_DO_ENCRYPT (make_key_sched key)) (GET_BLOCK ivec) ip)"
  "mit_des_cbc_encrypt (cbc_encrypt_loop (DES_DO_ENCRYPT (make_key_sched key)) (GET_BLOCK ivec) ip @ rest) (length ip)
     (make_key_sched key) ivec False = Done ip"
  by (simp_all add: mit_des_cbc_encrypt_def des.chaining_undone)

lemma des3_cbc_chain:
  fixes key :: "octet list"
  defines "ks \<equiv> snd (mit_des3_key_sched key)"
  shows "mit_des3_cbc_encrypt ip (length ip) ks ivec True = Done (cbc_encrypt_loop (des3_encrypt ks) (GET_BLOCK ivec) ip)"
    "mit_des3_cbc_encrypt (cbc_encrypt_loop (des3_encrypt ks) (GET_BLOCK ivec) ip @ rest) (length ip) ks ivec False = Done ip"
  unfolding ks_def by (simp_all add: mit_des3_cbc_encrypt_def des3.chaining_undone)

lemma round_up_block: "n mod 8 = 0 \<Longrightarrow> 8 * ((n + 7) div 8) = (n :: nat)"
proof -
  assume "n mod 8 = 0"
  then obtain k where "n = 8 * k" by (metis mod_0_imp_dvd dvdE)
  then show ?thesis by simp
qed

lemma cbc_decrypt_length: "cbc_decrypt_loop D c ip len = Done p \<Longrightarrow> length p = len"
proof (induction D c ip len arbitrary: p rule: cbc_decrypt_loop.induct)
  case (1 D c ip len)
  from "1.prems" show ?case
    by (subst (asm) cbc_decrypt_loop.simps) (auto simp: Let_def bindO_eq_Done split: if_splits dest!: "1.IH")
qed

lemma length_make_key_octets [simp]: "length (make_key_octets rnd) = Suc (length rnd)"
  by (simp add: make_key_octets_def mit_des_fixup_key_parity_def)

lemma des_schedule: "mit_des_key_sched key = (ret, schedule) \<Longrightarrow> schedule = make_key_sched key"
  by (auto simp: mit_des_key_sched_def Let_def split: if_splits)

interpretation ed: cipher_provider krb5_enc_des
proof unfold_locales
  fix key ivec input n c rnd
  show "0 < ep_block_size krb5_enc_des" by (simp add: krb5_enc_des_def)
  show "ep_make_key krb5_enc_des rnd n = Inr key \<Longrightarrow> length key = n"
    by (auto simp: krb5_enc_des_def k5_des_make_key_def split: if_splits)
  obtain ret schedule where s: "mit_des_key_sched key = (ret, schedule)" by fastforce
  note s' = s des_schedule [OF s]
  show "ep_encrypt krb5_enc_des key ivec input n = Done c \<Longrightarrow> length c = length input \<and> n = length input"
    using s' by (auto simp: krb5_enc_des_def k5_des_docrypt_def des_cbc_chain des.length_chained round_up_block split: if_splits)
  show "ep_decrypt krb5_enc_des key ivec input n = Done c \<Longrightarrow> length c = length input \<and> n = length input"
    using s' by (auto simp: krb5_enc_des_def k5_des_docrypt_def mit_des_cbc_encrypt_def cbc_decrypt_length split: if_splits)
  assume e: "ep_encrypt krb5_enc_des key ivec input n = Done c"
  let ?iv = "case ivec of None \<Rightarrow> mit_des_zeroblock | Some iv \<Rightarrow> iv"
  have c: "c = cbc_encrypt_loop (DES_DO_ENCRYPT (make_key_sched key)) (GET_BLOCK ?iv) input" "length input mod 8 = 0"
    using e s' by (auto simp: krb5_enc_des_def k5_des_docrypt_def des_cbc_chain split: if_splits)
  then have "length c = length input" by (simp add: des.length_chained round_up_block)
  then show "ep_decrypt krb5_enc_des key ivec c n = Done input"
    using e s' des_cbc_chain(2) [of key ?iv input "[]"] c(1)
    by (auto simp: krb5_enc_des_def k5_des_docrypt_def split: if_splits)
qed

interpretation ed3: cipher_provider krb5_enc_des3
proof unfold_locales
  fix key ivec input n c rnd
  show "0 < ep_block_size krb5_enc_des3" by (simp add: krb5_enc_des3_def)
  show "ep_make_key krb5_enc_des3 rnd n = Inr key \<Longrightarrow> length key = n"
    by (auto simp: krb5_enc_des3_def k5_des3_make_key_def split: if_splits)
  obtain ret schedule where s: "mit_des3_key_sched key = (ret, schedule)" by fastforce
  then have k: "schedule = snd (mit_des3_key_sched key)" by simp
  note chain = des3_cbc_chain [where key = key, folded k] and len = des3.length_chained [of key, folded k]
  show "ep_encrypt krb5_enc_des3 key ivec input n = Done c \<Longrightarrow> length c = length input \<and> n = length input"
    using s by (auto simp: krb5_enc_des3_def k5_des3_docrypt_def chain len round_up_block split: if_splits)
  show "ep_decrypt krb5_enc_des3 key ivec input n = Done c \<Longrightarrow> length c = length input \<and> n = length input"
    using s by (auto simp: krb5_enc_des3_def k5_des3_docrypt_def mit_des3_cbc_encrypt_def cbc_decrypt_length split: if_splits)
  assume e: "ep_encrypt krb5_enc_des3 key ivec input n = Done c"
  let ?iv = "case ivec of None \<Rightarrow> mit_des_zeroblock | Some iv \<Rightarrow> iv"
  have c: "c = cbc_encrypt_loop (des3_encrypt schedule) (GET_BLOCK ?iv) input" "length input mod 8 = 0"
    using e s by (auto simp: krb5_enc_des3_def k5_des3_docrypt_def chain split: if_splits)
  then have "length c = length input" by (simp add: len round_up_block)
  then show "ep_decrypt krb5_enc_des3 key ivec c n = Done input"
    using e s chain(2) [where ip = input and ivec = ?iv and rest = "[]"] c(1)
    by (auto simp: krb5_enc_des3_def k5_des3_docrypt_def split: if_splits)
qed

interpretation hc: digest_provider krb5_hash_crc32
  by unfold_locales (auto simp: krb5_hash_crc32_def k5_crc32_hash_def CRC32_CKSUM_LENGTH_def Let_def split: if_splits)

text \<open>The keys that a schedule is made for: of the right length and parity, and not weak.\<close>

definition des_good_key :: "octet list \<Rightarrow> bool" where
  "des_good_key key \<longleftrightarrow> mit_des_check_key_parity key \<and> \<not> mit_des_is_weak_key key"

definition des3_good_key :: "octet list \<Rightarrow> bool" where
  "des3_good_key key \<longleftrightarrow> list_all (\<lambda>i. des_good_key (key_part key i)) [0, 1, 2]"

lemma des_sched_good: "mit_des_key_sched key = (if des_good_key key then (0, make_key_sched key)
    else (if mit_des_check_key_parity key then -2 else -1, make_key_sched key))"
  by (simp add: mit_des_key_sched_def des_good_key_def Let_def)

lemma des_encrypts:
  "(\<exists>c. ep_encrypt krb5_enc_des key ivec msg n = Done c) \<longleftrightarrow>
     length key = 8 \<and> des_good_key key \<and> length msg mod 8 = 0 \<and> n = length msg \<and>
     (ivec = None \<or> (\<exists>iv. ivec = Some iv \<and> length iv = 8))"
  by (auto simp: krb5_enc_des_def k5_des_docrypt_def des_sched_good des_cbc_chain split: option.splits)

lemma des3_sched_good:
  "fst (mit_des3_key_sched key) \<in> {0, -1, -2}"
  "fst (mit_des3_key_sched key) = 0 \<longleftrightarrow> des3_good_key key"
  by (auto simp: mit_des3_key_sched_def des3_good_key_def des_good_key_def Let_def)

lemma des3_encrypts:
  "(\<exists>c. ep_encrypt krb5_enc_des3 key ivec msg n = Done c) \<longleftrightarrow>
     length key = 24 \<and> des3_good_key key \<and> length msg mod 8 = 0 \<and> n = length msg \<and>
     (ivec = None \<or> (\<exists>iv. ivec = Some iv \<and> length iv = 8))"
proof -
  obtain ret schedule where s: "mit_des3_key_sched key = (ret, schedule)" by fastforce
  then have k: "schedule = snd (mit_des3_key_sched key)" by simp
  have "ret \<in> {0, -1, -2}" "ret = 0 \<longleftrightarrow> des3_good_key key"
    using des3_sched_good [of key] s by simp_all
  then show ?thesis
    using s des3_cbc_chain(1) [where key = key, folded k]
    by (auto simp: krb5_enc_des3_def k5_des3_docrypt_def split: option.splits)
qed

text \<open>
  C17. The providers of DES and triple DES lose nothing.  \<open>krb5_enc_des\<close> encrypts exactly the
  messages of whole blocks under a key of eight octets with correct parity that is not one of the
  weak keys, with no initial vector or one of eight octets, and for an output of the length of the
  message; \<open>krb5_enc_des3\<close> asks the same of each third of a key of 24 octets.  The ciphertext is as
  long as the message, and decryption with the same key and initial vector returns the message.
\<close>

theorem cbc_roundtrip:
  "(if length key = 8 \<and> des_good_key key \<and> length msg mod 8 = 0 \<and> n = length msg \<and>
       (ivec = None \<or> (\<exists>iv. ivec = Some iv \<and> length iv = 8))
    then \<exists>c. ep_encrypt krb5_enc_des key ivec msg n = Done c \<and> length c = length msg \<and>
           ep_decrypt krb5_enc_des key ivec c n = Done msg
    else \<nexists>c. ep_encrypt krb5_enc_des key ivec msg n = Done c) \<and>
   (if length key3 = 24 \<and> des3_good_key key3 \<and> length msg mod 8 = 0 \<and> n = length msg \<and>
       (ivec = None \<or> (\<exists>iv. ivec = Some iv \<and> length iv = 8))
    then \<exists>c. ep_encrypt krb5_enc_des3 key3 ivec msg n = Done c \<and> length c = length msg \<and>
           ep_decrypt krb5_enc_des3 key3 ivec c n = Done msg
    else \<nexists>c. ep_encrypt krb5_enc_des3 key3 ivec msg n = Done c)"
  unfolding des_encrypts [symmetric] des3_encrypts [symmetric]
  by (auto dest: ed.encrypt_length ed3.encrypt_length intro: ed.decrypt_encrypt ed3.decrypt_encrypt)

theorem cbc_roundtrip_witness:
  "\<exists>c. ep_encrypt krb5_enc_des [0x13, 0x34, 0x57, 0x79, 0x9B, 0xBC, 0xDF, 0xF1] None (replicate 16 65) 16 = Done c \<and>
     length c = 16 \<and> ep_decrypt krb5_enc_des [0x13, 0x34, 0x57, 0x79, 0x9B, 0xBC, 0xDF, 0xF1] None c 16 = Done (replicate 16 65)"
proof -
  have "des_good_key [0x13, 0x34, 0x57, 0x79, 0x9B, 0xBC, 0xDF, 0xF1]" by code_simp
  then show ?thesis
    using cbc_roundtrip [of "[0x13, 0x34, 0x57, 0x79, 0x9B, 0xBC, 0xDF, 0xF1]" "replicate 16 65" 16 None "[]"]
    by (simp split: if_splits)
qed

section \<open>Weak keys\<close>

text \<open>The schedule with its sixteen pairs of words in the opposite order.\<close>

fun pairs_rev :: "des_word list \<Rightarrow> des_word list" where
  "pairs_rev (k1 # k2 # ks) = pairs_rev ks @ [k1, k2]"
| "pairs_rev _ = []"

lemma length_pairs_rev: "length ks = 2 * n \<Longrightarrow> length (pairs_rev ks) = 2 * n"
proof (induction n arbitrary: ks)
  case (Suc n)
  then obtain k1 k2 kp where "ks = k1 # k2 # kp" "length kp = 2 * n" by (auto simp: length_Suc_conv)
  then show ?case using Suc.IH by simp
qed simp

lemma decrypt_is_encrypt: "length ks = 4 * n \<Longrightarrow> decrypt_rounds (rev ks) b = encrypt_rounds (pairs_rev ks) b"
proof (induction n arbitrary: ks b)
  case (Suc n)
  obtain k1 k2 k3 k4 kp where ks: "ks = k1 # k2 # k3 # k4 # kp" "length kp = 4 * n"
    using Suc.prems by (auto simp: length_Suc_conv numeral_Bit0)
  have l: "length (pairs_rev kp) = 4 * n" using length_pairs_rev [of kp "2 * n"] ks(2) by simp
  obtain x y where xy: "encrypt_rounds (pairs_rev kp) b = (x, y)" by fastforce
  show ?case
    using decrypt_rounds_append [of "rev kp" n "[k4, k3, k2, k1]" b] encrypt_rounds_append [OF l, of "[k3, k4, k1, k2]" b]
      Suc.IH [OF ks(2), of b] ks xy
    by (simp add: Let_def encrypt_round_mix decrypt_round_mix)
qed simp

text \<open>
  Two keys whose halves go over into each other by a rotation by one place and into themselves by
  a rotation by two.
\<close>

definition alternating :: "des_block \<Rightarrow> des_block \<Rightarrow> bool" where
  "alternating p q \<longleftrightarrow>
     rotate28 True (fst p) = fst p \<and> rotate28 True (snd p) = snd p \<and> rotate28 True (fst q) = fst q \<and> rotate28 True (snd q) = snd q \<and>
     rotate28 False (fst p) = fst q \<and> rotate28 False (snd p) = snd q \<and> rotate28 False (fst q) = fst p \<and> rotate28 False (snd q) = snd p"

lemma sched_loop_numeral:
  "sched_loop (numeral n) t c d =
     permuted_choice_2 (rotate28 (odd t) c) (rotate28 (odd t) d) @
     sched_loop (pred_numeral n) (t div 2) (rotate28 (odd t) c) (rotate28 (odd t) d)"
  by (simp only: numeral_eq_Suc sched_loop.simps Let_def)

lemma alternating_sched:
  assumes "alternating (c, d) (c', d')"
  defines "P \<equiv> permuted_choice_2 c d" and "Q \<equiv> permuted_choice_2 c' d'"
  shows "sched_loop 16 TWO_BIT_SHIFTS c d = concat [Q, P, P, P, P, P, P, P, Q, Q, Q, Q, Q, Q, Q, P]"
  using assms(1) unfolding P_def Q_def
  by (simp add: alternating_def TWO_BIT_SHIFTS_def sched_loop_numeral Let_def)

lemma pairs_rev_concat:
  "list_all (\<lambda>p. length p = 2) ps \<Longrightarrow> pairs_rev (concat ps) = concat (rev ps)"
proof (induction ps)
  case (Cons p ps)
  then obtain k1 k2 where "p = [k1, k2]" by (auto simp: length_Suc_conv numeral_2_eq_2)
  then show ?case using Cons by simp
qed simp

lemma alternating_rev:
  assumes "alternating (permuted_choice_1 k) (permuted_choice_1 k')"
  shows "make_key_sched k' = pairs_rev (make_key_sched k)"
proof -
  obtain c d c' d' where p: "permuted_choice_1 k = (c, d)" "permuted_choice_1 k' = (c', d')" by fastforce
  have "alternating (c, d) (c', d')" "alternating (c', d') (c, d)" using assms p by (auto simp: alternating_def)
  note s = this [THEN alternating_sched]
  obtain P Q where PQ: "permuted_choice_2 c d = P" "permuted_choice_2 c' d' = Q" by simp
  then have "length P = 2" "length Q = 2" by (auto simp: permuted_choice_2_def Let_def)
  then have "concat (rev [Q, P, P, P, P, P, P, P, Q, Q, Q, Q, Q, Q, Q, P]) = pairs_rev (concat [Q, P, P, P, P, P, P, P, Q, Q, Q, Q, Q, Q, Q, P])"
    by (intro pairs_rev_concat [symmetric]) simp
  then show ?thesis using s unfolding PQ make_key_sched_def p prod.case by (simp only: rev.simps append.simps)
qed

definition weak_partner :: "nat \<Rightarrow> nat" where
  "weak_partner i = (if i < 4 then i else if even i then i + 1 else i - 1)"

lemma weak_halves:
  "map permuted_choice_1 weak =
     [(0, 0), (0xfffffff, 0xfffffff), (0, 0xfffffff), (0xfffffff, 0),
      (0xaaaaaaa, 0xaaaaaaa), (0x5555555, 0x5555555), (0xaaaaaaa, 0x5555555), (0x5555555, 0xaaaaaaa),
      (0xaaaaaaa, 0), (0x5555555, 0), (0xaaaaaaa, 0xfffffff), (0x5555555, 0xfffffff),
      (0, 0xaaaaaaa), (0, 0x5555555), (0xfffffff, 0xaaaaaaa), (0xfffffff, 0x5555555)]"
  by code_simp

lemma halves_alternating:
  "list_all (\<lambda>i. alternating (map permuted_choice_1 weak ! i) (map permuted_choice_1 weak ! weak_partner i)) [0..<16]"
  unfolding weak_halves by code_simp

lemma length_weak: "length weak = 16"
  by (simp add: weak_def)

lemma weak_partner_less: "i < 16 \<Longrightarrow> weak_partner i < 16"
  by (auto simp: weak_partner_def elim!: evenE)

lemma partner_undoes:
  assumes "i < 16"
  shows "DES_DO_ENCRYPT (make_key_sched (weak ! weak_partner i)) (DES_DO_ENCRYPT (make_key_sched (weak ! i)) b) = b"
proof -
  have "make_key_sched (weak ! weak_partner i) = pairs_rev (make_key_sched (weak ! i))"
    using bspec [OF halves_alternating [unfolded list_all_iff], of i] assms weak_partner_less [OF assms]
    by (intro alternating_rev) (simp add: length_weak)
  then have "DES_DO_ENCRYPT (make_key_sched (weak ! weak_partner i)) y = DES_DO_DECRYPT (make_key_sched (weak ! i)) y" for y
    using decrypt_is_encrypt [of "make_key_sched (weak ! i)" 8] length_pairs_rev [of "make_key_sched (weak ! i)" 16]
    by (simp add: DES_DO_ENCRYPT_def DES_DO_DECRYPT_def length_make_key_sched)
  then show ?thesis by (simp add: do_decrypt_encrypt length_make_key_sched)
qed

text \<open>
  C25. Every key that \<open>mit_des_is_weak_key\<close> refuses is one whose encryption is undone by encrypting
  once more, with the same or with another key of the table.
\<close>

theorem weak_keys_undone:
  assumes "mit_des_is_weak_key key"
  shows "\<exists>key'. mit_des_is_weak_key key' \<and>
    (\<forall>b. DES_DO_ENCRYPT (make_key_sched key') (DES_DO_ENCRYPT (make_key_sched key) b) = b)"
proof -
  obtain i where i: "i < 16" "key = weak ! i"
    using assms by (auto simp: mit_des_is_weak_key_def in_set_conv_nth length_weak)
  then have "weak ! weak_partner i \<in> set weak" using weak_partner_less by (simp add: length_weak)
  then show ?thesis using partner_undoes i unfolding mit_des_is_weak_key_def by blast
qed

theorem weak_keys_undone_witness:
  "mit_des_is_weak_key (weak ! 4) \<and> (\<exists>key'. mit_des_is_weak_key key' \<and>
    (\<forall>b. DES_DO_ENCRYPT (make_key_sched key') (DES_DO_ENCRYPT (make_key_sched (weak ! 4)) b) = b))"
  using weak_keys_undone [of "weak ! 4"] by (simp add: mit_des_is_weak_key_def weak_def)

section \<open>Keys from random octets\<close>

lemma parity_low: "parity_char v = 0 \<or> parity_char v = 1"
proof -
  obtain w where "parity_char v = pstep w 1" by (simp add: parity_char_def)
  then have "parity_char v = (w XOR drop_bit 1 w) AND 1" by (simp add: pstep_def bit.conj_xor_distrib2)
  then show ?thesis by (simp add: and_one_eq mod_2_eq_odd)
qed

lemma octet_even_mask: "(0xfe :: octet) = NOT 1"
  by simp

lemma fixup_octet_parts:
  "fixup_octet k AND NOT 1 = k AND NOT 1" "fixup_octet k AND 1 = 1 XOR parity_char (k AND NOT 1)"
proof -
  define p where "p = parity_char (k AND NOT 1)"
  have f: "fixup_octet k = (k AND NOT 1) OR (1 XOR p)" by (simp only: fixup_octet_def Let_def octet_even_mask p_def)
  have "p = 0 \<or> p = 1" by (simp add: p_def parity_low)
  then have "fixup_octet k AND NOT 1 = k AND NOT 1 \<and> fixup_octet k AND 1 = 1 XOR p"
    unfolding f by (auto intro!: bit_eqI simp: bit_simps)
  then show "fixup_octet k AND NOT 1 = k AND NOT 1" "fixup_octet k AND 1 = 1 XOR parity_char (k AND NOT 1)"
    by (simp_all add: p_def)
qed

lemma fixup_gives_parity: "mit_des_check_key_parity (mit_des_fixup_key_parity key)"
proof -
  have "fixup_octet k AND 1 \<noteq> parity_char (0xfe AND fixup_octet k)" for k
    using parity_low [of "k AND NOT 1"] unfolding octet_even_mask and.commute [of "NOT 1"] fixup_octet_parts
    by auto
  then show ?thesis by (simp add: mit_des_check_key_parity_def mit_des_fixup_key_parity_def list_all_iff)
qed

lemma bit_fixup_octet: "bit (fixup_octet k) (Suc n) \<longleftrightarrow> bit k (Suc n)"
proof -
  have "bit (fixup_octet k AND NOT 1) (Suc n) \<longleftrightarrow> bit (k AND NOT 1) (Suc n)" by (simp only: fixup_octet_parts)
  then show ?thesis by (auto simp: bit_simps dest: bit_imp_le_length)
qed

lemma bit_octet_low:
  assumes "length r = 7" "i < 7"
  shows "bit (make_key_octets r ! 7) (Suc i) \<longleftrightarrow> bit (r ! i) 0"
proof -
  have low: "make_key_octets r ! 7 = fixup_octet (push_bit 1 (r ! 0 AND 1) OR push_bit 2 (r ! 1 AND 1) OR push_bit 3 (r ! 2 AND 1) OR
       push_bit 4 (r ! 3 AND 1) OR push_bit 5 (r ! 4 AND 1) OR push_bit 6 (r ! 5 AND 1) OR push_bit 7 (r ! 6 AND 1))"
    using assms(1) by (simp only: make_key_octets_def mit_des_fixup_key_parity_def nth_append list.map map_append length_map) simp
  have "i \<in> {0, 1, 2, 3, 4, 5, 6}" using assms(2) by auto
  then show ?thesis unfolding low bit_fixup_octet bit_or_iff bit_push_bit_iff bit_and_iff bit_1_iff
    by (elim insertE emptyE; simp)
qed

lemma make_key_octets_inj:
  assumes "length r = 7" "length r' = 7" "make_key_octets r = make_key_octets r'"
  shows "r = r'"
proof (rule nth_equalityI)
  fix i
  assume "i < length r"
  then have i: "i < 7" using assms(1) by simp
  have "make_key_octets r ! i = make_key_octets r' ! i" using assms(3) by simp
  then have f: "fixup_octet (r ! i) = fixup_octet (r' ! i)"
    using assms(1, 2) i by (simp add: make_key_octets_def mit_des_fixup_key_parity_def nth_append)
  have "bit (r ! i) n \<longleftrightarrow> bit (r' ! i) n" for n
  proof (cases n)
    case 0
    then show ?thesis using bit_octet_low [OF assms(1) i] bit_octet_low [OF assms(2) i] assms(3) by simp
  next
    case (Suc m)
    then show ?thesis using bit_fixup_octet [of "r ! i" m] bit_fixup_octet [of "r' ! i" m] f by simp
  qed
  then show "r ! i = r' ! i" by (simp add: bit_eq_iff)
qed (simp add: assms)

text \<open>
  C26. The key made of seven random octets has the right parity in each of its eight octets, and no
  random bit is lost: other random octets give another key.
\<close>

theorem make_key_keeps_random_bits:
  assumes "k5_des_make_key r n = Inr key"
  shows "mit_des_check_key_parity key \<and> (k5_des_make_key r' n = Inr key \<longrightarrow> r' = r)"
  using assms make_key_octets_inj [of r' r] fixup_gives_parity
  by (auto simp: k5_des_make_key_def make_key_octets_def [of r] split: if_splits)

theorem make_key_keeps_random_bits_witness:
  "k5_des_make_key [1, 2, 3, 4, 5, 6, 7] 8 = Inr [1, 2, 2, 4, 4, 7, 7, 0xab] \<and>
   mit_des_check_key_parity [1, 2, 2, 4, 4, 7, 7, 0xab]"
proof
  show made: "k5_des_make_key [1, 2, 3, 4, 5, 6, 7] 8 = Inr [1, 2, 2, 4, 4, 7, 7, 0xab]" by code_simp
  show "mit_des_check_key_parity [1, 2, 2, 4, 4, 7, 7, 0xab]"
    using make_key_keeps_random_bits [OF made] by (rule conjunct1)
qed

end
