(* ===== verification/Crypto_Sha1.thy ===== *)
theory Crypto_Sha1
  imports Crypto_Provider
begin

text \<open>
  The secure hash of \<open>lib/crypto/sha1/shs.c\<close> and its provider
  (\<open>lib/crypto/hash_provider/hash_sha1.c\<close>), and the standard it is meant to follow: messages are
  padded, cut into blocks of sixteen words and compressed with eighty rounds over an expanded
  block.

  \<open>count\<close> of the code goes down with every octet taken from \<open>buffer\<close>, so it is the length of the
  rest of the list. The data words of a context that \<open>shsInit\<close> does not set are an argument.
\<close>

unbundle bit_operations_syntax

section \<open>The compression of a block\<close>

type_synonym LONG = "32 word"

type_synonym shs_vars = "LONG \<times> LONG \<times> LONG \<times> LONG \<times> LONG"

definition shs_f1 :: "LONG \<Rightarrow> LONG \<Rightarrow> LONG \<Rightarrow> LONG" where "shs_f1 x y z = z XOR (x AND (y XOR z))"
definition shs_f2 :: "LONG \<Rightarrow> LONG \<Rightarrow> LONG \<Rightarrow> LONG" where "shs_f2 x y z = x XOR y XOR z"
definition shs_f3 :: "LONG \<Rightarrow> LONG \<Rightarrow> LONG \<Rightarrow> LONG" where "shs_f3 x y z = (x AND y) OR (z AND (x OR y))"
definition shs_f4 :: "LONG \<Rightarrow> LONG \<Rightarrow> LONG \<Rightarrow> LONG" where "shs_f4 x y z = x XOR y XOR z"

definition shs_K1 :: LONG where "shs_K1 = 0x5A827999"
definition shs_K2 :: LONG where "shs_K2 = 0x6ED9EBA1"
definition shs_K3 :: LONG where "shs_K3 = 0x8F1BBCDC"
definition shs_K4 :: LONG where "shs_K4 = 0xCA62C1D6"

definition ROTL :: "nat \<Rightarrow> LONG \<Rightarrow> LONG" where
  "ROTL n X = (push_bit n X AND 0xffffffff) OR drop_bit (32 - n) X"

text \<open>The next word of the expansion takes the place of the oldest of the sixteen.\<close>

definition expand :: "LONG list \<Rightarrow> nat \<Rightarrow> LONG \<times> LONG list" where
  "expand W i =
     (let w = ROTL 1 (W ! (i mod 16) XOR W ! ((i - 14) mod 16) XOR W ! ((i - 8) mod 16) XOR W ! ((i - 3) mod 16))
      in (w, W[i mod 16 := w]))"

text \<open>The variables are returned in the order in which the next round names them.\<close>

definition subRound :: "(LONG \<Rightarrow> LONG \<Rightarrow> LONG \<Rightarrow> LONG) \<Rightarrow> LONG \<Rightarrow> LONG \<Rightarrow> shs_vars \<Rightarrow> shs_vars" where
  "subRound f k w v =
     (case v of (a, b, c, d, e) \<Rightarrow> ((e + (ROTL 5 a + f b c d + k + w)) AND 0xffffffff, a, ROTL 30 b, c, d))"

definition round_function :: "nat \<Rightarrow> (LONG \<Rightarrow> LONG \<Rightarrow> LONG \<Rightarrow> LONG) \<times> LONG" where
  "round_function i =
     (if i < 20 then (shs_f1, shs_K1) else if i < 40 then (shs_f2, shs_K2) else if i < 60 then (shs_f3, shs_K3)
      else (shs_f4, shs_K4))"

fun shs_rounds :: "nat \<Rightarrow> nat \<Rightarrow> LONG list \<Rightarrow> shs_vars \<Rightarrow> shs_vars" where
  "shs_rounds 0 i eData v = v"
| "shs_rounds (Suc n) i eData v =
     (let (w, eData) = (if i < 16 then (eData ! i, eData) else expand eData i);
          (f, k) = round_function i
      in shs_rounds n (i + 1) eData (subRound f k w v))"

definition SHSTransform :: "LONG list \<Rightarrow> LONG list \<Rightarrow> LONG list" where
  "SHSTransform dg eData =
     (case shs_rounds 80 0 eData (dg ! 0, dg ! 1, dg ! 2, dg ! 3, dg ! 4) of
        (A, B, C, D, E) \<Rightarrow> [dg ! 0 + A, dg ! 1 + B, dg ! 2 + C, dg ! 3 + D, dg ! 4 + E])"

section \<open>Contexts\<close>

record SHS_INFO =
  shs_digest :: "LONG list"
  countLo :: LONG
  countHi :: LONG
  shs_data :: "LONG list"

definition shsInit :: "LONG list \<Rightarrow> SHS_INFO" where
  "shsInit memory =
     \<lparr>shs_digest = [0x67452301, 0xEFCDAB89, 0x98BADCFE, 0x10325476, 0xC3D2E1F0], countLo = 0, countHi = 0, shs_data = memory\<rparr>"

definition get_long :: "octet \<Rightarrow> octet \<Rightarrow> octet \<Rightarrow> octet \<Rightarrow> LONG" where
  "get_long b0 b1 b2 b3 = push_bit 24 (ucast b0) OR push_bit 16 (ucast b1) OR push_bit 8 (ucast b2) OR ucast b3"

fun get_longs :: "octet list \<Rightarrow> LONG list" where
  "get_longs (b0 # b1 # b2 # b3 # buffer) = get_long b0 b1 b2 b3 # get_longs buffer"
| "get_longs _ = []"

text \<open>The last, possibly incomplete word of a message.\<close>

fun tail_word :: "octet list \<Rightarrow> LONG" where
  "tail_word [] = 0"
| "tail_word [b0] = push_bit 24 (ucast b0)"
| "tail_word [b0, b1] = push_bit 16 (ucast b1) OR push_bit 24 (ucast b0)"
| "tail_word [b0, b1, b2] = push_bit 8 (ucast b2) OR push_bit 16 (ucast b1) OR push_bit 24 (ucast b0)"
| "tail_word (b0 # b1 # b2 # b3 # _) = ucast b3 OR push_bit 8 (ucast b2) OR push_bit 16 (ucast b1) OR push_bit 24 (ucast b0)"

fun lead_octets :: "nat \<Rightarrow> LONG \<Rightarrow> octet list \<Rightarrow> LONG \<times> octet list" where
  "lead_octets dataCount w [] = (w, [])"
| "lead_octets dataCount w (b # buffer) =
     (if dataCount mod 4 = 0 then (w, b # buffer)
      else lead_octets (dataCount + 1) (w OR push_bit ((3 - dataCount mod 4) * 8) (ucast b)) buffer)"

function lead_words :: "nat \<Rightarrow> LONG list \<Rightarrow> octet list \<Rightarrow> (LONG list \<times> octet list) c_outcome" where
  "lead_words lp mem buffer =
     (if lp < 16 then
        case buffer of
          b0 # b1 # b2 # b3 # buffer \<Rightarrow>
            let mem = mem[lp := get_long b0 b1 b2 b3]; lp = lp + 1
            in if length buffer < 4 \<and> lp < 16 then Done (mem[lp := tail_word buffer], buffer)
               else lead_words lp mem buffer
        | _ \<Rightarrow> Out_of_bounds
      else Done (mem, buffer))"
  by pat_completeness auto
termination by (relation "measure (\<lambda>(lp, _). 16 - lp)") auto

declare lead_words.simps [simp del]

definition lead_chunk :: "nat \<Rightarrow> LONG list \<Rightarrow> LONG list \<Rightarrow> octet list \<Rightarrow> (LONG list \<times> LONG list \<times> octet list) c_outcome" where
  "lead_chunk dataCount dg mem buffer =
     (let lp = dataCount div 4;
          canfill = dataCount \<le> length buffer;
          dataCount = 64 - dataCount;
          (lp, mem, buffer) =
            (if dataCount mod 4 \<noteq> 0
             then case lead_octets dataCount (mem ! lp) buffer of (w, buffer) \<Rightarrow> (lp + 1, mem[lp := w], buffer)
             else (lp, mem, buffer))
      in bindO (lead_words lp mem buffer) (\<lambda>(mem, buffer).
           Done (if canfill then SHSTransform dg mem else dg, mem, buffer)))"

function chunk_loop :: "LONG list \<Rightarrow> LONG list \<Rightarrow> octet list \<Rightarrow> LONG list \<times> LONG list \<times> octet list" where
  "chunk_loop dg mem buffer =
     (if 64 \<le> length buffer
      then let mem = get_longs (take 64 buffer) in chunk_loop (SHSTransform dg mem) mem (drop 64 buffer)
      else (dg, mem, buffer))"
  by pat_completeness auto
termination by (relation "measure (\<lambda>(_, _, buffer). length buffer)") auto

declare chunk_loop.simps [simp del]

fun tail_longs :: "octet list \<Rightarrow> LONG list" where
  "tail_longs (b0 # b1 # b2 # b3 # b4 # buffer) = get_long b0 b1 b2 b3 # tail_longs (b4 # buffer)"
| "tail_longs buffer = [tail_word buffer]"

definition shsUpdate :: "SHS_INFO \<Rightarrow> octet list \<Rightarrow> SHS_INFO c_outcome" where
  "shsUpdate info buffer =
     (let tmp = countLo info;
          lo = tmp + push_bit 3 (of_nat (length buffer));
          hi = (if lo < tmp then countHi info + 1 else countHi info) + of_nat (length buffer div 2 ^ 29);
          dataCount = unat (drop_bit 3 tmp AND 0x3F)
      in bindO (if dataCount \<noteq> 0 then lead_chunk dataCount (shs_digest info) (shs_data info) buffer
                else Done (shs_digest info, shs_data info, buffer)) (\<lambda>(dg, mem, buffer).
         case chunk_loop dg mem buffer of
           (dg, mem, buffer) \<Rightarrow>
             let mem = (if buffer \<noteq> [] then tail_longs buffer @ drop (length (tail_longs buffer)) mem else mem)
             in Done \<lparr>shs_digest = dg, countLo = lo, countHi = hi, shs_data = mem\<rparr>))"

text \<open>The digest that \<open>shsFinal\<close> leaves in the context.\<close>

definition shsFinal :: "SHS_INFO \<Rightarrow> LONG list" where
  "shsFinal info =
     (let count = unat (drop_bit 3 (countLo info) AND 0x3F);
          lp = count div 4;
          mem = (shs_data info)[lp :=
            (if count mod 4 = 3 then shs_data info ! lp OR 0x80
             else if count mod 4 = 2 then shs_data info ! lp OR push_bit 8 0x80
             else if count mod 4 = 1 then shs_data info ! lp OR push_bit 16 0x80
             else push_bit 24 0x80)];
          lp = lp + 1;
          (lp, mem) = (if lp = 15 then (16, mem[15 := 0]) else (lp, mem));
          (dg, lp) = (if lp = 16 then (SHSTransform (shs_digest info) mem, 0) else (shs_digest info, lp));
          mem = take lp mem @ replicate (14 - lp) 0 @ [countHi info, countLo info]
      in SHSTransform dg mem)"

section \<open>The provider\<close>

definition SHS_DIGESTSIZE :: nat where "SHS_DIGESTSIZE = 20"
definition SHS_DATASIZE :: nat where "SHS_DATASIZE = 64"

definition long_octets :: "LONG \<Rightarrow> octet list" where
  "long_octets w = [ucast (drop_bit 24 w AND 0xff), ucast (drop_bit 16 w AND 0xff), ucast (drop_bit 8 w AND 0xff), ucast (w AND 0xff)]"

fun update_all :: "SHS_INFO \<Rightarrow> octet list list \<Rightarrow> SHS_INFO c_outcome" where
  "update_all info [] = Done info"
| "update_all info (d # ds) = bindO (shsUpdate info d) (\<lambda>info. update_all info ds)"

definition k5_sha1_hash :: "LONG list \<Rightarrow> octet list list \<Rightarrow> nat \<Rightarrow> octet list c_outcome" where
  "k5_sha1_hash memory input outlen =
     (if outlen \<noteq> SHS_DIGESTSIZE then Error KRB5_CRYPTO_INTERNAL
      else bindO (update_all (shsInit memory) input) (\<lambda>ctx. Done (concat (map long_octets (shsFinal ctx)))))"

definition krb5_hash_sha1 :: "LONG list \<Rightarrow> krb5_hash_provider" where
  "krb5_hash_sha1 memory =
     \<lparr>hp_hash_size = SHS_DIGESTSIZE, hp_block_size = SHS_DATASIZE, hp_hash = k5_sha1_hash memory\<rparr>"

section \<open>The standard\<close>

definition sha1_f :: "nat \<Rightarrow> LONG \<Rightarrow> LONG \<Rightarrow> LONG \<Rightarrow> LONG" where
  "sha1_f t x y z =
     (if t < 20 then (x AND y) OR (NOT x AND z) else if 40 \<le> t \<and> t < 60 then (x AND y) OR (x AND z) OR (y AND z)
      else x XOR y XOR z)"

definition sha1_K :: "nat \<Rightarrow> LONG" where
  "sha1_K t = (if t < 20 then 0x5A827999 else if t < 40 then 0x6ED9EBA1 else if t < 60 then 0x8F1BBCDC else 0xCA62C1D6)"

fun sha1_schedule :: "nat \<Rightarrow> LONG list \<Rightarrow> LONG list" where
  "sha1_schedule 0 W = W"
| "sha1_schedule (Suc n) W =
     (let t = length W in sha1_schedule n (W @ [ROTL 1 (W ! (t - 3) XOR W ! (t - 8) XOR W ! (t - 14) XOR W ! (t - 16))]))"

fun sha1_rounds :: "nat \<Rightarrow> LONG list \<Rightarrow> shs_vars \<Rightarrow> shs_vars" where
  "sha1_rounds t [] v = v"
| "sha1_rounds t (w # ws) (a, b, c, d, e) =
     sha1_rounds (t + 1) ws (ROTL 5 a + sha1_f t b c d + e + w + sha1_K t, a, ROTL 30 b, c, d)"

definition sha1_compress :: "LONG list \<Rightarrow> LONG list \<Rightarrow> LONG list" where
  "sha1_compress H M =
     (case sha1_rounds 0 (sha1_schedule 64 M) (H ! 0, H ! 1, H ! 2, H ! 3, H ! 4) of
        (a, b, c, d, e) \<Rightarrow> [H ! 0 + a, H ! 1 + b, H ! 2 + c, H ! 3 + d, H ! 4 + e])"

function blocks :: "octet list \<Rightarrow> LONG list list" where
  "blocks msg = (if 64 \<le> length msg then get_longs (take 64 msg) # blocks (drop 64 msg) else [])"
  by pat_completeness auto
termination by (relation "measure length") auto

declare blocks.simps [simp del]

definition sha1_pad :: "octet list \<Rightarrow> octet list" where
  "sha1_pad msg =
     msg @ 0x80 # replicate ((119 - length msg mod 64) mod 64) 0 @
     long_octets (of_nat (8 * length msg div 2 ^ 32)) @ long_octets (of_nat (8 * length msg))"

definition sha1 :: "octet list \<Rightarrow> LONG list" where
  "sha1 msg = foldl sha1_compress [0x67452301, 0xEFCDAB89, 0x98BADCFE, 0x10325476, 0xC3D2E1F0] (blocks (sha1_pad msg))"

section \<open>The circular buffer holds the schedule\<close>

lemma length_sha1_schedule [simp]: "length (sha1_schedule n W) = length W + n"
  by (induction n W rule: sha1_schedule.induct) (simp_all add: Let_def)

lemma schedule_keeps: "i < length W \<Longrightarrow> sha1_schedule n W ! i = W ! i"
  by (induction n W rule: sha1_schedule.induct) (simp_all add: Let_def nth_append)

lemma schedule_next:
  assumes "16 \<le> length W" "length W \<le> i" "i < length W + n"
  shows "sha1_schedule n W ! i = ROTL 1 (sha1_schedule n W ! (i - 3) XOR sha1_schedule n W ! (i - 8) XOR
    sha1_schedule n W ! (i - 14) XOR sha1_schedule n W ! (i - 16))"
  using assms
proof (induction n arbitrary: W)
  case (Suc n)
  define V where "V = W @ [ROTL 1 (W ! (length W - 3) XOR W ! (length W - 8) XOR W ! (length W - 14) XOR W ! (length W - 16))]"
  have s: "sha1_schedule (Suc n) W = sha1_schedule n V" by (simp add: V_def Let_def)
  show ?case
  proof (cases "i = length W")
    case True
    then show ?thesis using Suc.prems(1) unfolding s
      by (simp add: schedule_keeps V_def nth_append)
  next
    case False
    then show ?thesis using Suc.IH [of V] Suc.prems unfolding s by (simp add: V_def)
  qed
qed simp

text \<open>Before round \<open>i\<close> the buffer holds the sixteen words of the schedule that end in front of \<open>max i 16\<close>.\<close>

definition holds_window :: "LONG list \<Rightarrow> nat \<Rightarrow> LONG list \<Rightarrow> bool" where
  "holds_window ws i W \<longleftrightarrow> length W = 16 \<and> (\<forall>j. max i 16 - 16 \<le> j \<and> j < max i 16 \<longrightarrow> W ! (j mod 16) = ws ! j)"

lemma window_expand:
  assumes "holds_window ws i W" "16 \<le> i"
    and "ws ! i = ROTL 1 (ws ! (i - 3) XOR ws ! (i - 8) XOR ws ! (i - 14) XOR ws ! (i - 16))"
  shows "expand W i = (ws ! i, W[i mod 16 := ws ! i])" "holds_window ws (Suc i) (W[i mod 16 := ws ! i])"
proof -
  have w: "W ! (j mod 16) = ws ! j" if "i - 16 \<le> j" "j < i" for j
    using assms(1, 2) that by (simp add: holds_window_def max_def)
  have "i mod 16 = (i - 16) mod 16" using assms(2) by (simp add: mod_if)
  then have "W ! (i mod 16) = ws ! (i - 16)" using w [of "i - 16"] assms(2) by simp
  then show "expand W i = (ws ! i, W[i mod 16 := ws ! i])"
    using w [of "i - 14"] w [of "i - 8"] w [of "i - 3"] assms(2, 3)
    by (simp add: expand_def Let_def xor.assoc xor.commute xor.left_commute)
  have "W[i mod 16 := ws ! i] ! (j mod 16) = ws ! j" if "i - 15 \<le> j" "j < Suc i" for j
  proof (cases "j = i")
    case True
    then show ?thesis using assms(1) by (simp add: holds_window_def)
  next
    case False
    have "j mod 16 \<noteq> i mod 16"
    proof
      assume "j mod 16 = i mod 16"
      then have "16 dvd i - j" using that(2) by (metis less_Suc_eq_le mod_eq_dvd_iff_nat)
      then show False using False that assms(2) by (auto dest: dvd_imp_le)
    qed
    then show ?thesis using w [of j] that False by simp
  qed
  then show "holds_window ws (Suc i) (W[i mod 16 := ws ! i])"
    using assms(1, 2) by (simp add: holds_window_def max_def)
qed

lemma ROTL_mask: "(push_bit n x AND 0xffffffff) = push_bit n (x :: LONG)"
proof -
  have "(0xffffffff :: LONG) = -1" by simp
  then show ?thesis by (simp only: and.right_neutral)
qed

lemma word_mask: "x AND 0xffffffff = (x :: LONG)"
  using ROTL_mask [of 0 x] by simp

lemma round_function_standard: "round_function i = (sha1_f i, sha1_K i)"
  by (auto simp: round_function_def sha1_f_def sha1_K_def shs_f1_def shs_f2_def shs_f3_def shs_f4_def shs_K1_def shs_K2_def
      shs_K3_def shs_K4_def fun_eq_iff bit_eq_iff bit_simps)

lemma rounds_standard:
  assumes "length ws = i + n" "holds_window ws i W"
    and "\<And>j. 16 \<le> j \<Longrightarrow> j < length ws \<Longrightarrow> ws ! j = ROTL 1 (ws ! (j - 3) XOR ws ! (j - 8) XOR ws ! (j - 14) XOR ws ! (j - 16))"
  shows "shs_rounds n i W v = sha1_rounds i (drop i ws) v"
  using assms(1, 2)
proof (induction n arbitrary: i W v)
  case (Suc n)
  obtain a b c d e where v: "v = (a, b, c, d, e)" by (metis prod_cases5)
  have d: "drop i ws = ws ! i # drop (Suc i) ws" using Suc.prems(1) by (simp add: Cons_nth_drop_Suc)
  have "\<exists>W'. (if i < 16 then (W ! i, W) else expand W i) = (ws ! i, W') \<and> holds_window ws (Suc i) W'"
  proof (cases "i < 16")
    case True
    have "W ! i = ws ! i" using Suc.prems(2) True by (simp add: holds_window_def max_def)
    moreover have "holds_window ws (Suc i) W" using Suc.prems(2) True by (simp add: holds_window_def max_def)
    ultimately show ?thesis using True by simp
  next
    case False
    then show ?thesis using window_expand [OF Suc.prems(2)] assms(3) [of i] Suc.prems(1) by simp
  qed
  then obtain W' where W': "(if i < 16 then (W ! i, W) else expand W i) = (ws ! i, W')" "holds_window ws (Suc i) W'" by blast
  show ?case
    using Suc.IH [OF _ W'(2)] Suc.prems(1) unfolding v d shs_rounds.simps W'(1) round_function_standard
    by (simp add: subRound_def word_mask ac_simps)
qed simp

lemma SHSTransform_standard: "length M = 16 \<Longrightarrow> SHSTransform H M = sha1_compress H M"
proof -
  assume M: "length M = 16"
  then have "holds_window (sha1_schedule 64 M) 0 M" by (simp add: holds_window_def schedule_keeps)
  then show ?thesis
    using rounds_standard [of "sha1_schedule 64 M" 0 80 M] schedule_next [of M _ 64] M
    by (simp add: SHSTransform_def sha1_compress_def)
qed

section \<open>A message in one piece\<close>

lemma length_get_longs [simp]: "length (get_longs m) = length m div 4"
  by (induction m rule: get_longs.induct) (simp_all add: div_eq_0_iff)

lemma get_longs_append: "length a = 4 * n \<Longrightarrow> get_longs (a @ b) = get_longs a @ get_longs b"
proof (induction n arbitrary: a)
  case (Suc n)
  then obtain b0 b1 b2 b3 r where "a = b0 # b1 # b2 # b3 # r" "length r = 4 * n"
    by (auto simp: length_Suc_conv numeral_Bit0)
  then show ?case using Suc.IH by simp
qed simp

lemma blocks_short [simp]: "length m < 64 \<Longrightarrow> blocks m = []"
  by (simp add: blocks.simps)

lemma blocks_append:
  assumes "length a = 64 * n"
  shows "blocks (a @ b) = blocks a @ blocks b"
  using assms
proof (induction n arbitrary: a)
  case (Suc n)
  then have "blocks (drop 64 a @ b) = blocks (drop 64 a) @ blocks b" by simp
  moreover have "blocks (a @ b) = get_longs (take 64 a) # blocks (drop 64 a @ b)"
    using Suc.prems by (subst blocks.simps) simp
  moreover have "blocks a = get_longs (take 64 a) # blocks (drop 64 a)"
    using Suc.prems by (subst blocks.simps) simp
  ultimately show ?case by simp
qed simp

definition whole :: "octet list \<Rightarrow> octet list" where
  "whole m = take (64 * (length m div 64)) m"

definition rest :: "octet list \<Rightarrow> octet list" where
  "rest m = drop (64 * (length m div 64)) m"

lemma whole_rest: "whole m @ rest m = m"
  by (simp add: whole_def rest_def)

lemma length_whole: "length (whole m) = 64 * (length m div 64)"
  by (simp add: whole_def)

lemma length_rest: "length (rest m) = length m mod 64"
  by (simp add: rest_def minus_mult_div_eq_mod)

lemma blocks_whole: "blocks (whole m @ r) = blocks m @ blocks r"
  using blocks_append [OF length_whole, of m "rest m"] blocks_append [OF length_whole, of m r] whole_rest [of m]
  by (simp add: length_rest)

lemma chunk_loop_blocks:
  "\<exists>mem'. chunk_loop H mem m = (foldl sha1_compress H (blocks m), mem', rest m) \<and> (length mem = 16 \<longrightarrow> length mem' = 16)"
proof (induction H mem m rule: chunk_loop.induct)
  case (1 H mem m)
  show ?case
  proof (cases "64 \<le> length m")
    case True
    have r: "rest (drop 64 m) = rest m"
    proof -
      have "64 * (length m div 64) = 64 + 64 * ((length m - 64) div 64)" using True by (simp add: le_div_geq)
      then show ?thesis by (simp add: rest_def add.commute)
    qed
    have b: "blocks m = get_longs (take 64 m) # blocks (drop 64 m)" using True by (subst blocks.simps) simp
    have l: "length (get_longs (take 64 m)) = 16" using True by simp
    obtain mem' where m': "chunk_loop (SHSTransform H (get_longs (take 64 m))) (get_longs (take 64 m)) (drop 64 m) =
        (foldl sha1_compress (SHSTransform H (get_longs (take 64 m))) (blocks (drop 64 m)), mem', rest (drop 64 m))" "length mem' = 16"
      using 1 [OF True refl] l by auto
    have "chunk_loop H mem m = (foldl sha1_compress H (blocks m), mem', rest m)"
      using m'(1) True unfolding r b by (subst chunk_loop.simps) (simp add: SHSTransform_standard [OF l])
    then show ?thesis using m'(2) by blast
  next
    case False
    then show ?thesis by (subst chunk_loop.simps) (simp add: rest_def)
  qed
qed

definition sha1_init :: "LONG list" where
  "sha1_init = [0x67452301, 0xEFCDAB89, 0x98BADCFE, 0x10325476, 0xC3D2E1F0]"

text \<open>The context that has taken in the octets of a message.\<close>

definition shs_holds :: "SHS_INFO \<Rightarrow> octet list \<Rightarrow> bool" where
  "shs_holds info m \<longleftrightarrow>
     shs_digest info = foldl sha1_compress sha1_init (blocks m) \<and>
     countLo info = of_nat (8 * length m) \<and> countHi info = of_nat (8 * length m div 2 ^ 32) \<and>
     length (shs_data info) = 16 \<and>
     (rest m \<noteq> [] \<longrightarrow> take (length (tail_longs (rest m))) (shs_data info) = tail_longs (rest m))"

lemma init_holds: "length memory = 16 \<Longrightarrow> shs_holds (shsInit memory) []"
  by (simp add: shs_holds_def shsInit_def sha1_init_def rest_def)

lemma unat_data_count: "unat (drop_bit 3 x AND 0x3F) = unat x div 8 mod 64" for x :: LONG
proof -
  have "(0x3F :: LONG) = mask 6" by (simp add: mask_numeral)
  then have "drop_bit 3 x AND 0x3F = take_bit 6 (drop_bit 3 x)" by (simp only: take_bit_eq_mask)
  then have "unat (drop_bit 3 x AND 0x3F) = take_bit 6 (drop_bit 3 (unat x))"
    by (simp only: unsigned_take_bit_eq unat_drop_bit_eq)
  then show ?thesis by (simp add: drop_bit_eq_div take_bit_eq_mod)
qed

lemma data_count: "unat (drop_bit 3 (of_nat (8 * n) :: LONG) AND 0x3F) = n mod 64"
proof -
  have "unat (of_nat (8 * n) :: LONG) = 8 * (n mod 2 ^ 29)"
    using mult_mod_right [of 8 n "2 ^ 29"] by (simp add: unat_of_nat del: of_nat_mult)
  then have "unat (of_nat (8 * n) :: LONG) div 8 mod 64 = n mod 2 ^ 29 mod 64" by simp
  also have "\<dots> = n mod 64" by (rule mod_mod_cancel) simp
  finally show ?thesis unfolding unat_data_count .
qed

lemma tail_longs_length: "m \<noteq> [] \<Longrightarrow> length (tail_longs m) = (length m + 3) div 4"
  by (induction m rule: tail_longs.induct) simp_all

lemma carry_div:
  fixes x y M :: nat
  assumes "0 < M"
  shows "(x + y) div M = x div M + y div M + (if (x + y) mod M < x mod M then 1 else 0)"
proof -
  define p q where "p = x mod M" and "q = y mod M"
  have pq: "p < M" "q < M" using assms by (simp_all add: p_def q_def)
  have "(x + y) mod M = (p + q) mod M" by (simp add: p_def q_def mod_add_eq)
  also have "\<dots> = (if p + q < M then p + q else p + q - M)" using pq by (simp add: mod_if)
  finally have "(x + y) mod M < p \<longleftrightarrow> M \<le> p + q" using pq by auto
  moreover have "(p + q) div M = (if M \<le> p + q then 1 else 0)" using pq by (auto simp: div_if)
  ultimately show ?thesis using div_add1_eq [of x y M] by (simp add: p_def q_def)
qed

lemma bit_count:
  fixes n k :: nat
  defines "lo \<equiv> (of_nat (8 * n) :: LONG) + push_bit 3 (of_nat k)"
  shows "lo = of_nat (8 * (n + k))"
    and "(if lo < of_nat (8 * n) then of_nat (8 * n div 2 ^ 32) + 1 else of_nat (8 * n div 2 ^ 32)) + of_nat (k div 2 ^ 29) =
      (of_nat (8 * (n + k) div 2 ^ 32) :: LONG)"
proof -
  have "push_bit 3 (of_nat k :: LONG) = of_nat (8 * k)" by (simp add: push_bit_eq_mult)
  then show lo: "lo = of_nat (8 * (n + k))" unfolding lo_def distrib_left of_nat_add by (simp only:)
  have u: "unat (of_nat x :: LONG) = x mod 2 ^ 32" for x by (simp add: unat_of_nat)
  have less: "lo < of_nat (8 * n) \<longleftrightarrow> (8 * n + 8 * k) mod 2 ^ 32 < 8 * n mod 2 ^ 32"
    unfolding lo word_less_nat_alt u distrib_left by (rule refl)
  have eight: "8 * k div 2 ^ 32 = k div 2 ^ 29" using div_mult_mult1 [of 8 k "2 ^ 29"] by simp
  have add: "a + b + (if c then 1 else 0) = (if c then a + 1 else a) + b" for a b :: nat and c by simp
  have "0 < (2 ^ 32 :: nat)" by simp
  then have "8 * (n + k) div 2 ^ 32 = (if lo < of_nat (8 * n) then 8 * n div 2 ^ 32 + 1 else 8 * n div 2 ^ 32) + k div 2 ^ 29"
    unfolding distrib_left less by (simp only: carry_div add eight)
  then show "(if lo < of_nat (8 * n) then of_nat (8 * n div 2 ^ 32) + 1 else of_nat (8 * n div 2 ^ 32)) + of_nat (k div 2 ^ 29) =
      (of_nat (8 * (n + k) div 2 ^ 32) :: LONG)"
    by (simp only: of_nat_add if_distrib [of of_nat] of_nat_1)
qed

lemma update_after_whole_blocks:
  assumes h: "shs_holds info m" and d: "64 dvd length m"
  shows "\<exists>info'. shsUpdate info b = Done info' \<and> shs_holds info' (m @ b)"
proof -
  obtain n where n: "length m = 64 * n" using d by blast
  have lo: "countLo info = of_nat (8 * length m)" and hi: "countHi info = of_nat (8 * length m div 2 ^ 32)"
    and dg: "shs_digest info = foldl sha1_compress sha1_init (blocks m)"
    using h unfolding shs_holds_def by blast+
  have dc: "unat (drop_bit 3 (countLo info) AND 0x3F) = 0" unfolding lo data_count n by simp
  obtain mem where mem: "chunk_loop (shs_digest info) (shs_data info) b =
      (foldl sha1_compress (shs_digest info) (blocks b), mem, rest b)" "length mem = 16"
    using chunk_loop_blocks [of "shs_digest info" "shs_data info" b] h unfolding shs_holds_def by blast
  have r: "rest (m @ b) = rest b" by (simp add: rest_def n)
  have t: "length (tail_longs (rest b)) \<le> 16" if "rest b \<noteq> []"
    using tail_longs_length [OF that] length_rest [of b] by simp
  define info' where "info' = \<lparr>shs_digest = foldl sha1_compress (shs_digest info) (blocks b),
      countLo = of_nat (8 * (length m + length b)), countHi = of_nat (8 * (length m + length b) div 2 ^ 32),
      shs_data = (if rest b \<noteq> [] then tail_longs (rest b) @ drop (length (tail_longs (rest b))) mem else mem)\<rparr>"
  have "shsUpdate info b = Done info'"
    unfolding shsUpdate_def Let_def info'_def dc lo hi
    by (simp only: simp_thms if_False bindO.simps prod.case mem dc [unfolded lo] bit_count(1) bit_count(2) [unfolded bit_count(1)])
  moreover have "shs_holds info' (m @ b)"
    unfolding shs_holds_def info'_def SHS_INFO.simps blocks_append [OF n] r foldl_append length_append dg
  proof (intro conjI impI refl)
    show "length (if rest b \<noteq> [] then tail_longs (rest b) @ drop (length (tail_longs (rest b))) mem else mem) = 16"
      using mem(2) t by simp
    show "take (length (tail_longs (rest b)))
        (if rest b \<noteq> [] then tail_longs (rest b) @ drop (length (tail_longs (rest b))) mem else mem) = tail_longs (rest b)"
      if "rest b \<noteq> []" using that by simp
  qed
  ultimately show ?thesis by (intro exI conjI)
qed

lemma get_longs_zero: "get_longs (replicate (4 * q) 0) = replicate q 0"
proof (induction q)
  case (Suc q)
  have "replicate (4 * Suc q) (0 :: octet) = 0 # 0 # 0 # 0 # replicate (4 * q) 0" by (simp add: eval_nat_numeral)
  then show ?case using Suc by (simp add: get_long_def)
qed simp

lemma get_longs_long_octets: "get_longs (long_octets w) = [w]"
proof -
  have "get_long (ucast (drop_bit 24 w AND 0xff)) (ucast (drop_bit 16 w AND 0xff)) (ucast (drop_bit 8 w AND 0xff)) (ucast (w AND 0xff)) = w"
    unfolding get_long_def
    by (rule word32_eqI, unfold upto32) (simp add: bit_or_iff bit_and_iff bit_push_bit_iff bit_drop_bit_eq bit_ucast_iff numeral_3_eq_3 [symmetric])
  then show ?thesis by (simp add: long_octets_def)
qed

lemma tail_longs_split:
  assumes "length a = 4 * n" "0 < length b" "length b \<le> 4"
  shows "tail_longs (a @ b) = get_longs a @ [tail_word b]"
  using assms(1)
proof (induction n arbitrary: a)
  case 0
  have "length b \<in> {1, 2, 3, 4}" using assms(2, 3) unfolding insert_iff empty_iff by arith
  then show ?case using 0 by (auto simp: length_Suc_conv numeral_eq_Suc)
next
  case (Suc n)
  then obtain b0 b1 b2 b3 r where "a = b0 # b1 # b2 # b3 # r" "length r = 4 * n"
    by (auto simp: length_Suc_conv numeral_Bit0)
  moreover obtain x xs where "r @ b = x # xs" using assms(2) by (cases "r @ b") auto
  ultimately show ?case using Suc.IH [of r] by simp
qed

lemma tail_longs_even:
  assumes "length a = 4 * n" "a \<noteq> []"
  shows "tail_longs a = get_longs a"
proof -
  obtain k where k: "n = Suc k" using assms by (cases n) auto
  define u v where "u = take (4 * k) a" and "v = drop (4 * k) a"
  have uv: "a = u @ v" "length u = 4 * k" "length v = 4" using assms(1) by (simp_all add: k u_def v_def)
  then obtain b0 b1 b2 b3 where "v = [b0, b1, b2, b3]" by (auto simp: length_Suc_conv numeral_eq_Suc)
  then show ?thesis using tail_longs_split [of u k v] get_longs_append [of u k v] uv
    by (simp add: get_long_def or.commute or.left_commute or.assoc)
qed

text \<open>The word that holds the first octet of padding.\<close>

definition pad_word :: "nat \<Rightarrow> LONG \<Rightarrow> LONG" where
  "pad_word i w =
     (if i = 3 then w OR 0x80 else if i = 2 then w OR push_bit 8 0x80 else if i = 1 then w OR push_bit 16 0x80
      else push_bit 24 0x80)"

lemma get_longs_pad:
  assumes "length b < 4" "length b \<noteq> 0 \<longrightarrow> w = tail_word b"
  shows "get_longs (b @ 0x80 # replicate (3 - length b) 0) = [pad_word (length b) w]"
proof -
  consider "b = []" | b0 where "b = [b0]" | b0 b1 where "b = [b0, b1]" | b0 b1 b2 where "b = [b0, b1, b2]"
    using assms(1) by (cases b rule: tail_word.cases) auto
  moreover have "replicate 3 x = [x, x, x]" "replicate 2 x = [x, x]" for x :: octet by (simp_all add: numeral_eq_Suc)
  ultimately show ?thesis
    using assms(2) by cases (simp_all add: pad_word_def get_long_def or.commute or.left_commute or.assoc)
qed

lemma padded_words:
  assumes l: "length D = 16" and r: "length r < 64" and t: "r \<noteq> [] \<longrightarrow> take (length (tail_longs r)) D = tail_longs r"
  defines "j \<equiv> length r div 4" and "i \<equiv> length r mod 4"
  shows "take (j + 1) (D[j := pad_word i (D ! j)]) = get_longs (r @ 0x80 # replicate (3 - i) 0)"
proof -
  define a b where "a = take (4 * j) r" and "b = drop (4 * j) r"
  have ab: "r = a @ b" "length a = 4 * j" "length b = i" by (simp_all add: a_def b_def j_def i_def minus_mult_div_eq_mod)
  have j: "j < 16" using r by (simp add: j_def)
  have i: "i < 4" by (simp add: i_def)
  have "take j D = get_longs a \<and> (i \<noteq> 0 \<longrightarrow> D ! j = tail_word b)"
  proof (cases "i = 0")
    case True
    then have "r = a" using ab by simp
    moreover have "take j D = get_longs a"
    proof (cases "a = []")
      case False
      then show ?thesis using t tail_longs_even [OF ab(2)] \<open>r = a\<close> ab(2) by simp
    qed (use ab(2) in simp)
    ultimately show ?thesis using True by simp
  next
    case False
    then have s: "tail_longs r = get_longs a @ [tail_word b]" using tail_longs_split [OF ab(2), of b] ab i by simp
    then have "take (Suc j) D = get_longs a @ [tail_word b]" using t ab False by auto
    moreover have "take (Suc j) D = take j D @ [D ! j]" using l j by (simp add: take_Suc_conv_app_nth)
    ultimately show ?thesis by simp
  qed
  then show ?thesis
    using get_longs_pad [of b "D ! j"] get_longs_append [OF ab(2)] ab i j l
    by (simp add: take_Suc_conv_app_nth)
qed

text \<open>The end of \<open>shsFinal\<close>, with the words of the message and its first padding octet given.\<close>

definition finish :: "LONG list \<Rightarrow> LONG list \<Rightarrow> nat \<Rightarrow> LONG \<Rightarrow> LONG \<Rightarrow> LONG list" where
  "finish dg mem lp hi lo =
     (let (lp, mem) = (if lp = 15 then (16, mem[15 := 0]) else (lp, mem));
          (dg, lp) = (if lp = 16 then (SHSTransform dg mem, 0) else (dg, lp))
      in SHSTransform dg (take lp mem @ replicate (14 - lp) 0 @ [hi, lo]))"

lemma shsFinal_finish:
  assumes "unat (drop_bit 3 (countLo info) AND 0x3F) = n"
  shows "shsFinal info =
    finish (shs_digest info) ((shs_data info)[n div 4 := pad_word (n mod 4) (shs_data info ! (n div 4))]) (n div 4 + 1)
      (countHi info) (countLo info)"
  unfolding shsFinal_def finish_def pad_word_def assms Let_def by (simp only:)

lemma blocks_one: "length p = 64 \<Longrightarrow> blocks p = [get_longs p]"
  by (subst blocks.simps) simp

lemma length_long_octets [simp]: "length (long_octets w) = 4"
  by (simp add: long_octets_def)

lemma get_longs_end: "get_longs (replicate (4 * k) 0 @ long_octets hi @ long_octets lo) = replicate k 0 @ [hi, lo]"
  using get_longs_append [of "replicate (4 * k) 0" k] get_longs_append [of "long_octets hi" 1]
  by (simp add: get_longs_zero get_longs_long_octets)

lemma finish_blocks:
  assumes q: "length q = 4 * lp" "take lp mem = get_longs q" "lp \<le> 16" "length mem = 16"
  defines "z \<equiv> (if lp \<le> 14 then 14 - lp else 30 - lp)"
  shows "finish dg mem lp hi lo = foldl sha1_compress dg (blocks (q @ replicate (4 * z) 0 @ long_octets hi @ long_octets lo))"
proof (cases "lp \<le> 14")
  case True
  then have "get_longs (q @ replicate (4 * z) 0 @ long_octets hi @ long_octets lo) = take lp mem @ replicate (14 - lp) 0 @ [hi, lo]"
    using get_longs_append [OF q(1)] q(2) get_longs_end by (simp add: z_def)
  moreover have "length (q @ replicate (4 * z) 0 @ long_octets hi @ long_octets lo) = 64" using True q(1) by (simp add: z_def)
  ultimately show ?thesis using True q(4) by (simp add: finish_def blocks_one SHSTransform_standard)
next
  case False
  define p where "p = q @ replicate (4 * (16 - lp)) 0"
  have "4 * z = 4 * (16 - lp) + 4 * 14" using False q(3) by (simp add: z_def)
  then have "replicate (4 * z) (0 :: octet) = replicate (4 * (16 - lp)) 0 @ replicate (4 * 14) 0" by (simp only: replicate_add)
  then have split: "q @ replicate (4 * z) 0 @ long_octets hi @ long_octets lo = p @ replicate (4 * 14) 0 @ long_octets hi @ long_octets lo"
    by (simp only: p_def append_assoc)
  have p: "length p = 64" "get_longs p = take lp mem @ replicate (16 - lp) 0"
    using q get_longs_append [OF q(1), of "replicate (4 * (16 - lp)) 0"] by (simp_all add: p_def get_longs_zero)
  have "finish dg mem lp hi lo = SHSTransform (SHSTransform dg (get_longs p)) (replicate 14 0 @ [hi, lo])"
  proof -
    have "lp = 15 \<or> lp = 16" using False q(3) by arith
    moreover have "mem[15 := 0] = take 15 mem @ [0]" using q(4) by (simp add: list_eq_iff_nth_eq nth_append nth_list_update less_Suc_eq numeral_eq_Suc)
    ultimately show ?thesis using q(4) p(2) by (auto simp: finish_def)
  qed
  then show ?thesis
    using blocks_append [of p 1 "replicate (4 * 14) 0 @ long_octets hi @ long_octets lo"] p(1) get_longs_end [of 14 hi lo]
    unfolding split by (simp add: blocks_one SHSTransform_standard)
qed

lemma final_is_standard:
  assumes "shs_holds info m"
  shows "shsFinal info = sha1 m"
proof -
  define n j i where "n = length m mod 64" and "j = n div 4" and "i = n mod 4"
  define D where "D = shs_data info"
  define q where "q = rest m @ 0x80 # replicate (3 - i) 0"
  have lo: "countLo info = of_nat (8 * length m)" and hi: "countHi info = of_nat (8 * length m div 2 ^ 32)"
    and dg: "shs_digest info = foldl sha1_compress sha1_init (blocks m)" and l: "length D = 16"
    and t: "rest m \<noteq> [] \<longrightarrow> take (length (tail_longs (rest m))) D = tail_longs (rest m)"
    using assms unfolding shs_holds_def D_def by blast+
  have r: "length (rest m) = n" by (simp add: n_def length_rest)
  have n: "n < 64" "n = 4 * j + i" "i < 4" by (simp_all add: n_def j_def i_def)
  have w: "take (j + 1) (D[j := pad_word i (D ! j)]) = get_longs q"
    using padded_words [OF l, of "rest m"] t r n(1) by (simp add: q_def j_def i_def)
  have lq: "length q = 4 * (j + 1)" using r n(2, 3) by (simp add: q_def)
  define z where "z = (if j + 1 \<le> 14 then 14 - (j + 1) else 30 - (j + 1))"
  have z: "(119 - n) mod 64 = (3 - i) + 4 * z"
  proof (cases "j + 1 \<le> 14")
    case True
    then have "119 - n = 64 + ((3 - i) + 4 * z)" "(3 - i) + 4 * z < 64" using n by (auto simp: z_def)
    then show ?thesis by simp
  next
    case False
    then have "119 - n = (3 - i) + 4 * z" "(3 - i) + 4 * z < 64" using n by (auto simp: z_def)
    then show ?thesis by simp
  qed
  have "shsFinal info = finish (shs_digest info) (D[j := pad_word i (D ! j)]) (j + 1) (countHi info) (countLo info)"
    using shsFinal_finish [of info n] unfolding lo data_count by (simp only: n_def D_def j_def i_def)
  also have "\<dots> = foldl sha1_compress (shs_digest info)
      (blocks (q @ replicate (4 * z) 0 @ long_octets (countHi info) @ long_octets (countLo info)))"
    unfolding z_def by (rule finish_blocks [OF lq w]) (use n(1, 2) l in auto)
  also have "q @ replicate (4 * z) 0 @ long_octets (countHi info) @ long_octets (countLo info) =
      rest m @ 0x80 # replicate ((119 - n) mod 64) 0 @ long_octets (countHi info) @ long_octets (countLo info)"
    unfolding z replicate_add q_def by (simp only: append_assoc append_Cons)
  also have "foldl sha1_compress (shs_digest info) (blocks \<dots>) = sha1 m"
    unfolding dg lo hi sha1_def sha1_pad_def sha1_init_def n_def
    by (simp only: foldl_append [symmetric] blocks_whole [symmetric] append_assoc [symmetric] whole_rest)
  finally show ?thesis .
qed

section \<open>What the provider computes\<close>

lemma update_all_holds:
  assumes "shs_holds info m" "64 dvd length m" "\<And>p. p \<in> set ps \<Longrightarrow> 64 dvd length p"
  shows "\<exists>info'. update_all info (ps @ [b]) = Done info' \<and> shs_holds info' (m @ concat ps @ b)"
  using assms
proof (induction ps arbitrary: info m)
  case Nil
  then show ?case using update_after_whole_blocks [of info m b] by auto
next
  case (Cons p ps)
  obtain info1 where i: "shsUpdate info p = Done info1" "shs_holds info1 (m @ p)"
    using update_after_whole_blocks Cons.prems(1, 2) by blast
  then show ?case using Cons.IH [of info1 "m @ p"] Cons.prems by simp
qed

text \<open>
  C18. A message that is given in one piece, or in pieces of which all but the last consist of whole
  blocks of 64 octets, as \<open>krb5_hmac\<close> gives it, is hashed as the standard says, whatever the memory
  of the context held before.
\<close>

theorem sha1_is_standard:
  assumes "length memory = 16" "\<forall>p\<in>set ps. 64 dvd length p"
  shows "k5_sha1_hash memory (ps @ [b]) SHS_DIGESTSIZE = Done (concat (map long_octets (sha1 (concat ps @ b))))"
  using update_all_holds [OF init_holds [OF assms(1)], of ps b] assms(2) final_is_standard
  by (auto simp: k5_sha1_hash_def)

theorem sha1_is_standard_witness:
  "k5_sha1_hash (replicate 16 7) ([replicate 64 0x36] @ [[1, 2, 3]]) SHS_DIGESTSIZE =
     Done (concat (map long_octets (sha1 (concat [replicate 64 0x36] @ [1, 2, 3]))))"
  using sha1_is_standard [of "replicate 16 7" "[replicate 64 0x36]" "[1, 2, 3]"] by simp

lemma lead_octets_shorter: "length (snd (lead_octets n w b)) \<le> length b"
  by (induction n w b rule: lead_octets.induct) auto

lemma lead_words_overrun: "lp < 16 \<Longrightarrow> length b < 4 \<Longrightarrow> lead_words lp mem b = Out_of_bounds"
  by (subst lead_words.simps) (auto split: list.split)

lemma lead_chunk_overrun:
  assumes "n < 60" "length b < 4"
  shows "lead_chunk n dg mem b = Out_of_bounds"
proof -
  obtain w b' where l: "lead_octets (64 - n) (mem ! (n div 4)) b = (w, b')" by fastforce
  then have "length b' < 4" using lead_octets_shorter [of "64 - n" "mem ! (n div 4)" b] assms(2) by simp
  moreover have "n div 4 + 1 < 16" "n div 4 < 16" using assms(1) by arith+
  ultimately show ?thesis
    using assms(2) unfolding lead_chunk_def Let_def l by (simp add: lead_words_overrun)
qed

text \<open>
  When a piece leaves a block incomplete, with fewer than 60 octets in it, and the next piece
  has fewer than four octets, \<open>shsUpdate\<close> reads behind the end of that next piece.
\<close>

theorem sha1_short_piece_overruns:
  assumes "length memory = 16" "length p mod 64 \<noteq> 0" "length p mod 64 < 60" "length b < 4"
  shows "k5_sha1_hash memory [p, b] SHS_DIGESTSIZE = Out_of_bounds"
proof -
  obtain info where i: "shsUpdate (shsInit memory) p = Done info" "shs_holds info p"
    using update_after_whole_blocks [OF init_holds [OF assms(1)], of p] by auto
  then have lo: "countLo info = of_nat (8 * length p)" unfolding shs_holds_def by blast
  have "shsUpdate info b = Out_of_bounds"
    unfolding shsUpdate_def Let_def lo data_count by (simp only: assms(2) if_True simp_thms lead_chunk_overrun [OF assms(3, 4)] bindO.simps)
  then show ?thesis using i(1) by (simp add: k5_sha1_hash_def)
qed

theorem sha1_short_piece_overruns_witness:
  "length (replicate 16 (0 :: LONG)) = 16 \<and> length [0x61 :: octet] mod 64 = 1 \<and> length [0x62 :: octet, 0x63] < 4 \<and>
   k5_sha1_hash (replicate 16 0) [[0x61], [0x62, 0x63]] SHS_DIGESTSIZE = Out_of_bounds"
  using sha1_short_piece_overruns [of "replicate 16 0" "[0x61]" "[0x62, 0x63]"] by simp

interpretation hs: digest_provider "krb5_hash_sha1 memory" for memory
proof unfold_locales
  have "length (shsFinal info) = 5" for info
    by (auto simp: shsFinal_def SHSTransform_def Let_def split: prod.split)
  then show "length h = n \<and> n = hp_hash_size (krb5_hash_sha1 memory)" if "hp_hash (krb5_hash_sha1 memory) ds n = Done h" for ds n h
    using that by (auto simp: krb5_hash_sha1_def k5_sha1_hash_def SHS_DIGESTSIZE_def bindO_eq_Done length_concat o_def sum_list_triv split: if_splits)
qed

section \<open>The test value of the standard\<close>

text \<open>The digest of the three letters \<open>abc\<close>, as the standard prints it, with the expanded block and the variables after each twenty rounds.\<close>

definition abc_block :: "LONG list" where
  "abc_block = [0x61626380, 0, 0, 0, 0, 0, 0, 0, 0, 0, 0, 0, 0, 0, 0, 0x18]"

definition abc_schedule :: "LONG list list" where
  "abc_schedule =
    [[0x61626380, 0, 0, 0, 0, 0, 0, 0, 0, 0, 0, 0, 0, 0, 0, 0x18, 0xc2c4c700, 0, 0x30, 0x85898e01],
     [0, 0x60, 0xb131c03, 0x30, 0x85898ec1, 0x16263806, 0, 0x180, 0x2c4c700c, 0xf0, 0x93afb507, 0x5898e048,
      0x8e9a9202, 0x600, 0xb131c0f0, 0x16263bc6, 0x4ebed41e, 0x626380a1, 0x16263806, 0x18c0],
     [0xd2e138c4, 0xf00, 0x3afb5079, 0x898e04e5, 0xe2ba3c2b, 0x60c0, 0x53a37cd, 0x74458547, 0xda9415ed,
      0x26380a16, 0x626383a1, 0x4ebf54de, 0x3835b44b, 0xf600, 0x1e84c7a3, 0x98e04d98, 0x651d16a0, 0x62658ca1,
      0x458544d6, 0x44584cb7],
     [0x7ba06619, 0x6380aea2, 0xae55269, 0x627b49a1, 0x7cd45c9d, 0xf0000, 0xfb50753a, 0xec6765e8, 0xba3c2be2,
      0x60c000, 0x3a37cd05, 0x458546f4, 0xb8599dd6, 0x380a1a26, 0x1e02203, 0xe7cc3456, 0xe6e60b69, 0xf60a00,
      0x5795ef4f, 0x822e0879]]"

lemma sha1_schedule_numeral:
  "sha1_schedule (numeral n) W =
     sha1_schedule (pred_numeral n)
       (W @ [ROTL 1 (W ! (length W - 3) XOR W ! (length W - 8) XOR W ! (length W - 14) XOR W ! (length W - 16))])"
  by (simp only: numeral_eq_Suc sha1_schedule.simps Let_def)

lemma abc_expanded: "sha1_schedule 64 abc_block = concat abc_schedule"
  by (simp add: abc_block_def abc_schedule_def sha1_schedule_numeral ROTL_def)

lemma sha1_rounds_append: "sha1_rounds t (a @ b) v = sha1_rounds (t + length a) b (sha1_rounds t a v)"
proof (induction a arbitrary: t v)
  case (Cons w a)
  obtain x1 x2 x3 x4 x5 where "v = (x1, x2, x3, x4, x5)" by (metis prod_cases5)
  then show ?case using Cons by simp
qed simp

lemma abc_rounds_1:
  "sha1_rounds 0 (abc_schedule ! 0) (0x67452301, 0xefcdab89, 0x98badcfe, 0x10325476, 0xc3d2e1f0) =
     (0xfd9e1d7d, 0xdc64901d, 0x20aa99ca, 0xd3a49608, 0xc82f758b)"
  by (simp add: abc_schedule_def ROTL_def sha1_f_def sha1_K_def)

lemma abc_rounds_2:
  "sha1_rounds 20 (abc_schedule ! 1) (0xfd9e1d7d, 0xdc64901d, 0x20aa99ca, 0xd3a49608, 0xc82f758b) =
     (0x32de1cba, 0x4c986405, 0xf718e5cf, 0x3d447f6, 0xf72eec32)"
  by (simp add: abc_schedule_def ROTL_def sha1_f_def sha1_K_def)

lemma abc_rounds_3:
  "sha1_rounds 40 (abc_schedule ! 2) (0x32de1cba, 0x4c986405, 0xf718e5cf, 0x3d447f6, 0xf72eec32) =
     (0x3f52de5a, 0x9d785fd, 0x3498bfd4, 0xf211824f, 0xd79915ab)"
  by (simp add: abc_schedule_def ROTL_def sha1_f_def sha1_K_def)

lemma abc_rounds_4:
  "sha1_rounds 60 (abc_schedule ! 3) (0x3f52de5a, 0x9d785fd, 0x3498bfd4, 0xf211824f, 0xd79915ab) =
     (0x42541b35, 0x5738d5e1, 0x21834873, 0x681e6df6, 0xd8fdf6ad)"
  by (simp add: abc_schedule_def ROTL_def sha1_f_def sha1_K_def)

lemma sha1_abc: "sha1 [0x61, 0x62, 0x63] = [0xA9993E36, 0x4706816A, 0xBA3E2571, 0x7850C26C, 0x9CD0D89D]"
proof -
  have p: "sha1_pad [0x61, 0x62, 0x63] = 0x61 # 0x62 # 0x63 # 0x80 # replicate (4 * 13) 0 @ [0, 0, 0, 0, 0, 0, 0, 24]"
    by (simp add: sha1_pad_def long_octets_def)
  have "get_longs (replicate (4 * 13) 0 @ [0, 0, 0, 0, 0, 0, 0, 24]) = replicate 13 0 @ [0, 24]"
    using get_longs_append [of "replicate (4 * 13) 0" 13] get_longs_zero [of 13] by (simp add: get_long_def)
  moreover have rep: "replicate 13 (0 :: LONG) = [0, 0, 0, 0, 0, 0, 0, 0, 0, 0, 0, 0, 0]" by (simp add: numeral_eq_Suc)
  ultimately have "get_longs (sha1_pad [0x61, 0x62, 0x63]) = abc_block" "length (sha1_pad [0x61, 0x62, 0x63]) = 64"
    unfolding p by (simp_all add: abc_block_def get_long_def rep)
  then have "sha1 [0x61, 0x62, 0x63] = sha1_compress sha1_init abc_block"
    by (simp add: sha1_def sha1_init_def blocks_one)
  moreover have "concat abc_schedule = abc_schedule ! 0 @ abc_schedule ! 1 @ abc_schedule ! 2 @ abc_schedule ! 3"
    and "length (abc_schedule ! 0) = 20" "length (abc_schedule ! 1) = 20" "length (abc_schedule ! 2) = 20"
    by (simp_all add: abc_schedule_def)
  ultimately show ?thesis
    using abc_rounds_1 abc_rounds_2 abc_rounds_3 abc_rounds_4
    by (simp add: sha1_compress_def abc_expanded sha1_rounds_append sha1_init_def)
qed

end
