(* ===== verification/Spec2Isabelle.thy ===== *)
theory Spec2Isabelle
  imports Kdc_Tickets Kdc_Lookaside Krb5_RdReq Krb5_Asn1_Time Crypto_Sha1
begin

text \<open>
  Kerberos V5 release 1.2.2: the key distribution center (KDC) and the library code its answers
  depend on.  The C sources are under \<open>src/src\<close>; the paths below are relative to it.

  \<^bold>\<open>The program.\<close>  A datagram reaches \<open>dispatch\<close> (\<open>kdc/dispatch.c\<close>).  It is looked up in the cache of
  replies (\<open>kdc/replay.c\<close>) and, when it is new, goes to the authentication service
  (\<open>kdc/do_as_req.c\<close>) or the ticket-granting service (\<open>kdc/do_tgs_req.c\<close>).  Both find the principals'
  entries in the database, whose records \<open>lib/kdb/kdb_xdr.c\<close> reads and writes, check the request
  (\<open>kdc/kdc_util.c\<close>, \<open>kdc/policy.c\<close>) and make a ticket, its reply or an error message.  The first
  checks the preauthentication elements (\<open>kdc/kdc_preauth.c\<close>); the second authenticates the request
  by the ticket in it, with \<open>krb5_rd_req_decoded_opt\<close> (\<open>lib/krb5/krb/rd_req_dec.c\<close>) and the replay
  cache (\<open>lib/krb5/rcache\<close>), and records the realms passed in the transited field.  Below are the
  principal and realm names (\<open>lib/krb5/krb\<close>), the ASN.1 coders (\<open>lib/krb5/asn.1\<close>) and the
  cryptographic library (\<open>lib/crypto\<close>).

  \<^bold>\<open>Conventions.\<close>  \<open>Krb5_Prelude\<close>: a return code is an integer, a fallible call is
  \<open>Inl code\<close> or \<open>Inr value\<close>.  A \<open>c_outcome\<close> also tells an abort (\<open>Aborted\<close>) and an access outside an
  object (\<open>Out_of_bounds\<close>) apart; where one of these is reached, the model stops and nothing is
  claimed about what the C program does afterwards.  \<open>i32\<close> and \<open>i16\<close> are the wrap-around of signed
  integers; unsigned ones are words.  A handler of the KDC is a value \<open>Continue\<close>, \<open>Errout\<close> (the
  jump to the error exit) or \<open>Undefined\<close>.  \<open>Krb5_Types\<close> and \<open>Kdc_Env\<close> hold the protocol structures,
  and the services outside of the model as records of functions: \<open>kdc_realm\<close> (database, clock,
  replay cache), \<open>kdc_crypto\<close> (encryption), \<open>kdc_codec\<close> (message coders).

  \<^bold>\<open>Theories, what they model and what they show.\<close>
  \<^item> \<open>Krb5_Principal\<close> (\<open>parse.c\<close>, \<open>unparse.c\<close>, \<open>princ_comp.c\<close>, \<open>bld_pr_ext.c\<close>, \<open>tgtname.c\<close>, \<open>pr_to_salt.c\<close>): the
    three passes of the parser with the buffers they fill.  Parsing inverts printing, no buffer is
    overrun, comparison is equality of printed names; printing a name without components writes in
    front of its buffer.
  \<^item> \<open>Krb5_Realm\<close> (\<open>walk_rtree.c\<close>, \<open>chk_trans.c\<close>): the path between realms fits its array and is a
    chain that leads to the server's realm, with one exception that is stated; \<open>krb5_check_transited_list\<close> decides what it is meant to.
  \<^item> \<open>Kdc_Transited\<close> (\<open>subrealm\<close>, \<open>add_to_transited\<close> of \<open>kdc/kdc_util.c\<close>): on domain-style fields the new
    field stands for the old realms and the added one and fits its array; where a field with a
    slash stands in front, the array is overrun, by a number of octets that is given.
  \<^item> \<open>Kdb_Xdr\<close> (\<open>lib/kdb/kdb_xdr.c\<close>): decoding inverts encoding, stays inside a record whose base length
    is the known one, and reads past the end of one that claims more base data than it has; tagged
    data behave as a map (locale \<open>tagged_data\<close>).
  \<^item> \<open>Krb5_Etypes\<close> (\<open>lib/crypto/etypes.c\<close>) and \<open>Kdc_Validate\<close> (the checks of requests, session key types,
    \<open>asn1length\<close> and \<open>fetch_asn1_field\<close>): the field cut out of a message in distinguished encoding is
    the right one.
  \<^item> \<open>Kdc_Preauth\<close>, \<open>Kdc_AS\<close>: flags for preauthentication are set only on proof; a ticket is issued
    only to a client that gave the preauthentication its entry asks for; flags and times stay within
    policy; the reply matches the ticket; a request that passes the checks is answered; errors are
    protocol errors.
  \<^item> \<open>Kdc_TGS\<close>, \<open>Kdc_Tickets\<close>: a ticket takes its client, authentication time and limits from the one
    it was obtained with, along any chain of exchanges (\<open>descends\<close>, an inductive relation); the
    request was authenticated; user-to-user tickets; when the checksum of a request is not checked.
  \<^item> \<open>Kdc_Lookaside\<close> (\<open>replay.c\<close>, \<open>dispatch.c\<close>): the list refines a map from requests to replies (locale
    \<open>reply_cache\<close>); a retransmission gets the first reply while the database age is the same.
  \<^item> \<open>Krb5_Rcache\<close> (\<open>rc_dfl.c\<close>, \<open>rc_io.c\<close>) and \<open>Krb5_RdReq\<close> (\<open>rd_req_dec.c\<close> and the address and time checks):
    a stored authenticator is refused as long as it is valid, a file is read back, and an application request is
    accepted only when every check holds and at most once.
  \<^item> \<open>Krb5_Asn1\<close>, \<open>Krb5_Asn1_Time\<close> (buffer, tags, lengths, primitive types, \<open>gmt_mktime.c\<close>): integers and
    times are read back; \<open>asn1buf_skiptail\<close> returns on every complete message and does not on one
    that ends behind the header of an element of indefinite length.
  \<^item> \<open>Crypto_Tables\<close>, \<open>Crypto_Des\<close>, \<open>Crypto_Cbc\<close>, \<open>Crypto_Crc\<close>, \<open>Crypto_Provider\<close>, \<open>Crypto_Sha1\<close>
    (\<open>lib/crypto/des\<close>, \<open>crc32\<close>, \<open>enc_provider\<close>, \<open>hash_provider\<close>, \<open>sha1\<close>): the encryption providers return what
    was encrypted and refuse exactly the malformed calls (locale \<open>cipher_provider\<close>); each key listed as
    weak has a partner that undoes it; CRC-32 is the shift register; the hash is SHA-1 for messages
    given in whole blocks and a last piece (locale \<open>digest_provider\<close>), and a short piece after an
    incomplete block is read past its end.
  \<^item> This theory joins the services: what can be obtained from one password.

  \<^bold>\<open>Bounds and fuel.\<close>  The fuel of \<open>asn1length_f\<close> bounds the depth of calls and rounds;
  \<open>asn1length\<close> passes twice the size of the packet and one, which \<open>asn1length_f_eq\<close> shows to be enough
  until the contents are measured or a read leaves the packet.  \<open>skip_loop\<close> counts the rounds of its
  loop: \<open>skiptail_finds_end\<close> gives a number that is enough on a complete message, and
  \<open>skiptail_unfinished\<close> shows that on some input no number below \<open>2 ^ 31 - 2\<close> is.  All other loops are
  structural recursions or have a termination proof.

  \<^bold>\<open>Not modelled.\<close>  Failing allocation, freeing of memory and log messages.  The coders of whole
  messages, key derivation, the keyed checksums, MD4 and MD5, string-to-key and random numbers
  (parameters where the services use them); the database files, credentials caches, key tables and
  sockets; the administration system, the GSS-API and remote procedure calls; version 4; the
  applications and utilities.  The build is the default one, without \<open>KRB5_KRB4_COMPAT\<close>,
  \<open>KRBCONF_VAGUE_ERRORS\<close> and \<open>KRBCONF_KDC_MODIFIES_KDB\<close>.  A \<open>LONG\<close> of the hash has 32 bits; files and
  records of two gigabytes are not considered.
\<close>

section \<open>From the password to the last ticket\<close>

lemma as_ticket_bounds:
  assumes "0 \<le> start" "start = as_starttime request t" "0 \<le> db_max_renewable_life client"
    "0 \<le> db_max_renewable_life server" "0 \<le> realm_maxlife realm" "0 \<le> realm_maxrlife realm"
    "is_i32 (start + realm_maxlife realm)" "is_i32 (start + realm_maxrlife realm)"
  shows "endtime (et_times (as_ticket realm request rclient client server t key)) \<le> start + realm_maxlife realm"
    and "renew_till (et_times (as_ticket realm request rclient client server t key)) \<le> start + realm_maxrlife realm"
proof -
  let ?life = "min (db_max_renewable_life client) (min (db_max_renewable_life server) (realm_maxrlife realm))"
  have life: "0 \<le> ?life" "?life \<le> realm_maxrlife realm" using assms(3,4,6) by simp_all
  then have "is_i32 (start + ?life)" using assms(1,8) unfolding is_i32_def by linarith
  then have renew: "i32 (start + ?life) \<le> start + realm_maxrlife realm" using life(2) by (simp add: i32_id)
  show "endtime (et_times (as_ticket realm request rclient client server t key)) \<le> start + realm_maxlife realm"
    unfolding as_ticket_def as_endtime_def Let_def assms(2) [symmetric] i32_id [OF assms(7)] by simp
  show "renew_till (et_times (as_ticket realm request rclient client server t key)) \<le> start + realm_maxrlife realm"
    using renew assms(1,6) unfolding as_ticket_def Let_def assms(2) [symmetric] by (auto simp: min.coboundedI2)
qed

text \<open>
  C2. Everything that can be obtained from one password: take a ticket that the authentication
  service issued, and any ticket obtained from it through any number of exchanges with
  ticket-granting services.  It is for the client of the first request, it is dated with the
  time of the first exchange, it ends within the longer of the realm's maximal life and
  maximal renewable life after its start, and when it is marked as preauthenticated, the first
  request contained an encrypted timestamp made with one of the client's keys.  The
  hypotheses say that the lives are not negative and that the sums fit 32 bits.
\<close>

theorem tickets_from_one_password:
  assumes "as_issue realm crypto codec request = Continue (rep, part, response)"
    and "tk_enc_part2 (kr_ticket rep) = Some origin" and "descends origin tkt" and "timeofday realm = Inr t"
    and "start = as_starttime request t" "0 \<le> start"
    and "\<forall>p e. db_get_principal realm p = Inr ([e], False) \<longrightarrow> 0 \<le> db_max_renewable_life e"
    and "0 \<le> realm_maxlife realm" "0 \<le> realm_maxrlife realm"
    and "is_i32 (start + realm_maxlife realm)" "is_i32 (start + realm_maxrlife realm)"
  shows "\<exists>client. rq_client request = Some (et_client tkt) \<and>
    db_get_principal realm (et_client tkt) = Inr ([client], False) \<and> authtime (et_times tkt) = t \<and>
    endtime (et_times tkt) \<le> start + max (realm_maxlife realm) (realm_maxrlife realm) \<and>
    (isflagset (et_flags tkt) TKT_FLG_PRE_AUTH \<longrightarrow>
      (\<exists>pas. rq_padata request = Some pas \<and> (\<exists>pa \<in> set pas. pa_type pa = KRB5_PADATA_ENC_TIMESTAMP \<and>
         timestamp_proof realm crypto codec client pa)))"
proof -
  obtain rclient rserver client server t' origin' key where
    p: "as_passed realm crypto codec request rep part rclient rserver client server t' origin' key"
    by (rule as_issue_passed [OF assms(1)])
  then have same: "t' = t" "origin' = origin" using assms(2,4) by (simp_all add: as_passed_def)
  note p = p [unfolded same]
  have found: "rq_client request = Some rclient" "db_get_principal realm rclient = Inr ([client], False)"
    "db_get_principal realm rserver = Inr ([server], False)"
    using p by (simp_all add: as_passed_def)
  note times = as_passed_times(1) [OF p]
  have bounds: "endtime (et_times origin) \<le> start + realm_maxlife realm"
    "renew_till (et_times origin) \<le> start + realm_maxrlife realm" "authtime (et_times origin) = t"
    using as_ticket_bounds [OF assms(6,5) _ _ assms(8-11)] assms(7) found(2,3)
    unfolding times by (blast, blast, simp add: as_ticket_def Let_def)
  have client: "et_client origin = rclient"
    using arg_cong [OF as_passed_flags(1) [OF p], of et_client] by (simp add: as_ticket_def Let_def)
  note w = descends_weaker [OF assms(3), unfolded weaker_ticket_def]
  have "endtime (et_times tkt) \<le> start + max (realm_maxlife realm) (realm_maxrlife realm)"
    using w bounds(1,2) assms(6,9) by linarith
  moreover have "isflagset (et_flags tkt) TKT_FLG_PRE_AUTH \<Longrightarrow> isflagset (et_flags origin) TKT_FLG_PRE_AUTH"
    using w by (simp add: inherited_flags_def)
  ultimately show ?thesis
    using as_passed_proofs(1) [OF p] w found bounds(3) client by (intro exI [of _ client]) auto
qed

theorem tickets_from_one_password_witness:
  "\<exists>rep part response tkt. as_issue (sample_realm 0) sample_crypto sample_codec sample_as_req =
      Continue (rep, part, response) \<and> tk_enc_part2 (kr_ticket rep) = Some tkt \<and>
      endtime (et_times tkt) \<le> 1000000 + 604800"
proof -
  obtain rep part response where
    r: "as_issue (sample_realm 0) sample_crypto sample_codec sample_as_req = Continue (rep, part, response)"
    by (rule sample_as_issued)
  then obtain tkt where tkt: "tk_enc_part2 (kr_ticket rep) = Some tkt"
    using as_issue_passed [OF r] unfolding as_passed_def by blast
  have now: "timeofday (sample_realm 0) = Inr 1000000" "1000000 = as_starttime sample_as_req 1000000"
    by code_simp+
  have "\<forall>p e. db_get_principal (sample_realm 0) p = Inr ([e], False) \<longrightarrow> 0 \<le> db_max_renewable_life e"
    by (auto simp: sample_realm_def sample_db_entry_def split: if_splits)
  from tickets_from_one_password [OF r tkt descends_origin now _ this]
  have "endtime (et_times tkt) \<le> 1000000 + max (realm_maxlife (sample_realm 0)) (realm_maxrlife (sample_realm 0))"
    by (auto simp: sample_realm_def is_i32_def)
  then show ?thesis
    using r tkt by (intro exI [of _ rep] exI [of _ part] exI [of _ response] exI [of _ tkt]) (simp add: sample_realm_def)
qed

end
